(* ===== verification/Rust_Std.thy ===== *)
theory Rust_Std
  imports
    Main
    "HOL-Library.List_Lexorder"
    "HOL-Library.Char_ord"
    "HOL-Library.Product_Lexorder"
begin

text \<open>
  Shared vocabulary of the development.

  \<^item> Strings are UTF-8 byte sequences (\<open>string\<close>), so that \<open>length\<close> is Rust's \<open>str::len\<close> and
    the lexicographic order is both Rust's \<open>Ord for str\<close> and the binary collation of the
    database columns.
  \<^item> Timestamps are instants (\<open>int\<close>, nanoseconds of UTC). The code stores them as RFC 3339
    text produced by \<open>to_rfc3339\<close> on UTC values and compares that text inside SQL; within the
    four-digit years this text orders as the instants do, so both kinds of comparison are \<open>\<le>\<close>
    on the instant here.
  \<^item> A database table is the list of its rows. The statements the code issues are the
    combinators below: \<open>update_many\<close> is SeaORM's \<open>update_many().filter(..).exec(..)\<close> with its
    \<open>rows_affected\<close>, \<open>delete_many\<close> its delete, \<open>find_by\<close> a lookup on a key column,
    \<open>order_by\<close> an \<open>ORDER BY\<close> (rows that the keys do not order keep table order).
  \<^item> The fixed-width conversions of the standard library (\<open>try_from(..).unwrap_or(..)\<close>,
    \<open>saturating_add\<close>, \<open>saturating_sub\<close>) and \<open>str::trim\<close>.
\<close>

named_theorems table_simps \<open>rewrites for the table combinators\<close>

type_synonym timestamp = int

section \<open>Fixed-width integers\<close>

definition U64_MAX :: nat where
  "U64_MAX = 2 ^ 64 - 1"

definition I64_MAX :: nat where
  "I64_MAX = 2 ^ 63 - 1"

definition U32_MAX :: nat where
  "U32_MAX = 2 ^ 32 - 1"

text \<open>\<open>i64::try_from(n).unwrap_or(d)\<close> on a \<open>u64\<close> value.\<close>

definition i64_or :: "int \<Rightarrow> nat \<Rightarrow> int" where
  "i64_or d n = (if n \<le> I64_MAX then int n else d)"

text \<open>\<open>u64::try_from(n).unwrap_or(0)\<close> on an \<open>i64\<close> value.\<close>

definition u64_or_0 :: "int \<Rightarrow> nat" where
  "u64_or_0 i = nat i"

definition u64_saturating_add :: "nat \<Rightarrow> nat \<Rightarrow> nat" where
  "u64_saturating_add a b = min U64_MAX (a + b)"

definition u32_saturating_add :: "nat \<Rightarrow> nat \<Rightarrow> nat" where
  "u32_saturating_add a b = min U32_MAX (a + b)"

lemma u64_saturating_add_le [simp]: "u64_saturating_add a b \<le> U64_MAX"
  by (simp add: u64_saturating_add_def)

lemma fold_u64_saturating_add:
  "fold (\<lambda>x acc. u64_saturating_add acc x) xs (min U64_MAX a) = min U64_MAX (a + sum_list xs)"
proof (induction xs arbitrary: a)
  case Nil
  then show ?case by simp
next
  case (Cons x xs)
  have "u64_saturating_add (min U64_MAX a) x = min U64_MAX (a + x)"
    by (auto simp: u64_saturating_add_def)
  with Cons show ?case by (simp add: add.assoc)
qed

section \<open>Strings\<close>

definition is_ascii_lowercase :: "char \<Rightarrow> bool" where
  "is_ascii_lowercase c \<longleftrightarrow> CHR ''a'' \<le> c \<and> c \<le> CHR ''z''"

definition is_ascii_digit :: "char \<Rightarrow> bool" where
  "is_ascii_digit c \<longleftrightarrow> CHR ''0'' \<le> c \<and> c \<le> CHR ''9''"

text \<open>Decimal rendering, as \<open>{}\<close> formats an unsigned integer.\<close>

fun nat_str :: "nat \<Rightarrow> string" where
  "nat_str n =
     (if n < 10 then [char_of (48 + n)] else nat_str (n div 10) @ [char_of (48 + n mod 10)])"

declare nat_str.simps [simp del]

text \<open>The UTF-8 encodings of the code points with the Unicode property White\_Space, which
  \<open>char::is_whitespace\<close> and hence \<open>str::trim\<close> test.\<close>

definition ws_seqs :: "string list" where
  "ws_seqs =
     map (\<lambda>c. [c]) [CHR 0x09, CHR 0x0A, CHR 0x0B, CHR 0x0C, CHR 0x0D, CHR 0x20]
     @ map (\<lambda>c. [CHR 0xC2, c]) [CHR 0x85, CHR 0xA0]
     @ [[CHR 0xE1, CHR 0x9A, CHR 0x80]]
     @ map (\<lambda>c. [CHR 0xE2, CHR 0x80, c])
         [CHR 0x80, CHR 0x81, CHR 0x82, CHR 0x83, CHR 0x84, CHR 0x85, CHR 0x86, CHR 0x87,
          CHR 0x88, CHR 0x89, CHR 0x8A, CHR 0xA8, CHR 0xA9, CHR 0xAF]
     @ [[CHR 0xE2, CHR 0x81, CHR 0x9F], [CHR 0xE3, CHR 0x80, CHR 0x80]]"

function strip_seqs :: "string list \<Rightarrow> string \<Rightarrow> string" where
  "strip_seqs ws s =
     (case find (\<lambda>w. w \<noteq> [] \<and> take (length w) s = w) ws of
        None \<Rightarrow> s
      | Some w \<Rightarrow> strip_seqs ws (drop (length w) s))"
  by pat_completeness auto
termination
proof (relation "measure (\<lambda>(ws, s). length s)")
  fix ws s w
  assume "find (\<lambda>w. w \<noteq> [] \<and> take (length w) s = w) ws = Some w"
  then have "w \<noteq> []" and "take (length w) s = w"
    by (auto simp: find_Some_iff)
  then have "s \<noteq> []" and "0 < length w" by auto
  then show "((ws, drop (length w) s), (ws, s)) \<in> measure (\<lambda>(ws, s). length s)"
    by simp
qed simp

declare strip_seqs.simps [simp del]

definition trim_start :: "string \<Rightarrow> string" where
  "trim_start s = strip_seqs ws_seqs s"

definition trim_end :: "string \<Rightarrow> string" where
  "trim_end s = rev (strip_seqs (map rev ws_seqs) (rev s))"

definition trim :: "string \<Rightarrow> string" where
  "trim s = trim_end (trim_start s)"

lemma strip_seqs_Nil [simp]: "strip_seqs ws [] = []"
proof -
  have "find (\<lambda>w. w \<noteq> [] \<and> take (length w) [] = w) ws = None"
    by (auto simp: find_None_iff)
  then show ?thesis by (subst strip_seqs.simps) simp
qed

lemma trim_Nil [simp]: "trim [] = []"
  by (simp add: trim_def trim_start_def trim_end_def)

text \<open>Trimming is idempotent.\<close>

lemma strip_seqs_id: "find (\<lambda>w. w \<noteq> [] \<and> take (length w) s = w) ws = None \<Longrightarrow> strip_seqs ws s = s"
  by (subst strip_seqs.simps) simp

lemma strip_seqs_stripped: "find (\<lambda>w. w \<noteq> [] \<and> take (length w) (strip_seqs ws s) = w) ws = None"
proof (induction ws s rule: strip_seqs.induct)
  case (1 ws s)
  then show ?case by (subst strip_seqs.simps) (simp split: option.split)
qed

lemma strip_seqs_suffix: "\<exists>p. s = p @ strip_seqs ws s"
proof (induction ws s rule: strip_seqs.induct)
  case (1 ws s)
  show ?case
  proof (cases "find (\<lambda>w. w \<noteq> [] \<and> take (length w) s = w) ws")
    case None
    then show ?thesis by (simp add: strip_seqs_id)
  next
    case (Some w)
    with 1 obtain p where "drop (length w) s = p @ strip_seqs ws (drop (length w) s)" by blast
    then have "s = (take (length w) s @ p) @ strip_seqs ws (drop (length w) s)"
      by (metis append.assoc append_take_drop_id)
    moreover have "strip_seqs ws s = strip_seqs ws (drop (length w) s)"
      using Some by (subst strip_seqs.simps) simp
    ultimately show ?thesis by metis
  qed
qed

lemma trim_trim [simp]: "trim (trim s) = trim s"
proof -
  let ?a = "trim_start s" and ?t = "trim s"
  obtain p where "rev ?a = p @ strip_seqs (map rev ws_seqs) (rev ?a)" using strip_seqs_suffix by blast
  then have a: "?a = ?t @ rev p" by (metis trim_def trim_end_def rev_append rev_rev_ident)
  have "find (\<lambda>w. w \<noteq> [] \<and> take (length w) ?t = w) ws_seqs = None"
  proof -
    have "take (length w) ?a = w" if "take (length w) ?t = w" for w
    proof -
      have "length w \<le> length ?t" using that by (metis length_take min.absorb_iff1 min.commute)
      with that show ?thesis by (simp add: a)
    qed
    with strip_seqs_stripped [of ws_seqs s] show ?thesis by (auto simp: find_None_iff trim_start_def)
  qed
  then have "trim_start ?t = ?t" by (simp add: trim_start_def strip_seqs_id)
  moreover have "trim_end ?t = ?t"
    by (simp add: trim_def trim_end_def strip_seqs_id [OF strip_seqs_stripped])
  ultimately show ?thesis by (simp add: trim_def)
qed

section \<open>Tables\<close>

definition update_many :: "('r \<Rightarrow> bool) \<Rightarrow> ('r \<Rightarrow> 'r) \<Rightarrow> 'r list \<Rightarrow> 'r list" where
  "update_many P f t = map (\<lambda>r. if P r then f r else r) t"

definition rows_affected :: "('r \<Rightarrow> bool) \<Rightarrow> 'r list \<Rightarrow> nat" where
  "rows_affected P t = length (filter P t)"

definition delete_many :: "('r \<Rightarrow> bool) \<Rightarrow> 'r list \<Rightarrow> 'r list" where
  "delete_many P t = filter (\<lambda>r. \<not> P r) t"

definition find_by :: "('r \<Rightarrow> 'k) \<Rightarrow> 'k \<Rightarrow> 'r list \<Rightarrow> 'r option" where
  "find_by key k t = find (\<lambda>r. key r = k) t"

definition order_by :: "('r \<Rightarrow> 'k::linorder) \<Rightarrow> 'r list \<Rightarrow> 'r list" where
  "order_by key t = sort_key key t"

lemma set_update_many [table_simps]:
  "set (update_many P f t) = {f r |r. r \<in> set t \<and> P r} \<union> {r \<in> set t. \<not> P r}"
  by (auto simp: update_many_def)

lemma in_update_manyE:
  assumes "r' \<in> set (update_many P f t)"
  obtains (hit) r where "r \<in> set t" "P r" "r' = f r" | (miss) "r' \<in> set t" "\<not> P r'"
  using assms by (auto simp: table_simps)

lemma length_update_many [simp]: "length (update_many P f t) = length t"
  by (simp add: update_many_def)

lemma map_update_many_key:
  assumes "\<And>r. r \<in> set t \<Longrightarrow> P r \<Longrightarrow> key (f r) = key r"
  shows "map key (update_many P f t) = map key t"
  using assms by (auto simp: update_many_def)

lemma update_many_id: "(\<And>r. r \<in> set t \<Longrightarrow> \<not> P r) \<Longrightarrow> update_many P f t = t"
  by (auto simp: update_many_def intro!: map_idI)

lemma rows_affected_0_iff: "rows_affected P t = 0 \<longleftrightarrow> (\<forall>r \<in> set t. \<not> P r)"
  by (simp add: rows_affected_def filter_empty_conv)

lemma rows_affected_0_update_many: "rows_affected P t = 0 \<Longrightarrow> update_many P f t = t"
  by (rule update_many_id) (simp add: rows_affected_0_iff)

lemma filter_update_many:
  assumes "\<And>r. r \<in> set t \<Longrightarrow> P r \<Longrightarrow> \<not> Q r \<and> \<not> Q (f r)"
  shows "filter Q (update_many P f t) = filter Q t"
  using assms by (induction t) (auto simp: update_many_def)

lemma set_delete_many [table_simps]: "set (delete_many P t) = {r \<in> set t. \<not> P r}"
  by (auto simp: delete_many_def)

lemma find_by_SomeD: "find_by key k t = Some r \<Longrightarrow> r \<in> set t \<and> key r = k"
  by (auto simp: find_by_def find_Some_iff)

lemma find_by_None_iff: "find_by key k t = None \<longleftrightarrow> (\<forall>r \<in> set t. key r \<noteq> k)"
  by (auto simp: find_by_def find_None_iff)

lemma update_many_cong:
  assumes "\<And>r. r \<in> set t \<Longrightarrow> (if P r then f r else r) = (if Q r then g r else r)"
  shows "update_many P f t = update_many Q g t"
  using assms by (simp add: update_many_def)

lemma find_by_filter:
  "(\<And>r. key r = k \<Longrightarrow> P r) \<Longrightarrow> find_by key k (filter P rs) = find_by key k rs"
  by (induction rs) (auto simp: find_by_def)

lemma find_by_append:
  "find_by key k (xs @ ys) = (case find_by key k xs of None \<Rightarrow> find_by key k ys | Some r \<Rightarrow> Some r)"
  by (induction xs) (auto simp: find_by_def)

lemma find_by_update_many:
  "(\<And>r. key (f r) = key r) \<Longrightarrow>
   find_by key k (update_many P f rs) = map_option (\<lambda>r. if P r then f r else r) (find_by key k rs)"
  by (induction rs) (auto simp: find_by_def update_many_def)

lemma find_by_filter_keep: "find_by key k rs = Some r \<Longrightarrow> P r \<Longrightarrow> find_by key k (filter P rs) = Some r"
  by (induction rs) (auto simp: find_by_def split: if_splits)

lemma find_by_absent_append:
  "(\<And>r. r \<in> set rs \<Longrightarrow> key r \<noteq> k) \<Longrightarrow> key x = k \<Longrightarrow> find_by key k (rs @ [x]) = Some x"
  by (induction rs) (auto simp: find_by_def)

lemma find_by_also: "find_by key k rs = Some r \<Longrightarrow> P r \<Longrightarrow> find (\<lambda>r. key r = k \<and> P r) rs = Some r"
  by (induction rs) (auto simp: find_by_def split: if_splits)

lemma delete_many_delete_many: "delete_many P (delete_many Q t) = delete_many (\<lambda>r. P r \<or> Q r) t"
  by (simp add: delete_many_def) (metis (mono_tags, lifting) filter_cong)

lemma distinct_key_unique:
  "distinct (map key t) \<Longrightarrow> r \<in> set t \<Longrightarrow> r' \<in> set t \<Longrightarrow> key r = key r' \<Longrightarrow> r = r'"
  by (auto simp: distinct_map inj_on_def)

lemma find_by_eq_Some:
  assumes "distinct (map key t)" and "r \<in> set t" and "key r = k"
  shows "find_by key k t = Some r"
proof (cases "find_by key k t")
  case None
  with assms show ?thesis by (auto simp: find_by_None_iff)
next
  case (Some r')
  then have "r' \<in> set t" "key r' = k" by (auto dest: find_by_SomeD)
  with assms have "r' = r" by (auto intro: distinct_key_unique)
  with Some show ?thesis by simp
qed

text \<open>An update guarded by a key touches at most one row of a table with distinct keys.\<close>

lemma rows_affected_key_le_1:
  assumes "distinct (map key t)" and "\<And>r. P r \<Longrightarrow> key r = k"
  shows "rows_affected P t \<le> 1"
proof -
  have "filter P t = filter P (filter (\<lambda>r. key r = k) t)"
    using assms(2) by (auto intro!: filter_cong)
  moreover have "length (filter (\<lambda>r. key r = k) t) \<le> 1"
    using assms(1)
  proof (induction t)
    case Nil
    then show ?case by simp
  next
    case (Cons r t)
    from Cons.prems have "key r = k \<Longrightarrow> filter (\<lambda>r. key r = k) t = []"
      by (auto simp: filter_empty_conv image_iff)
    with Cons show ?case by auto
  qed
  ultimately show ?thesis
    unfolding rows_affected_def by (metis le_trans length_filter_le)
qed

lemma rows_affected_key_eq_1_iff:
  assumes "distinct (map key t)" and "\<And>r. P r \<Longrightarrow> key r = k"
  shows "rows_affected P t = 1 \<longleftrightarrow> (\<exists>r \<in> set t. P r)"
proof -
  have "rows_affected P t \<le> 1" by (rule rows_affected_key_le_1 [OF assms])
  then have "rows_affected P t = 1 \<longleftrightarrow> rows_affected P t \<noteq> 0" by linarith
  then show ?thesis by (simp add: rows_affected_0_iff)
qed

lemma set_order_by [table_simps]: "set (order_by key t) = set t"
  by (simp add: order_by_def)

lemma distinct_map_order_by [simp]: "distinct (map k (order_by key t)) \<longleftrightarrow> distinct (map k t)"
  by (simp add: order_by_def distinct_map)

lemma sorted_order_by: "sorted (map key (order_by key t))"
  by (simp add: order_by_def)

text \<open>The first match in a limited \<open>ORDER BY\<close> has the least key of all matches.\<close>

lemma find_take_order_by_least:
  assumes "find P (take n (order_by key t)) = Some m" and "r \<in> set t" and "key r < key m"
  shows "\<not> P r"
proof -
  obtain k where k: "k < length (take n (order_by key t))" "take n (order_by key t) ! k = m"
    "\<forall>j < k. \<not> P (take n (order_by key t) ! j)"
    using assms(1) by (auto simp: find_Some_iff)
  obtain j where j: "j < length (order_by key t)" "order_by key t ! j = r"
    using assms(2) by (metis in_set_conv_nth set_order_by)
  have "j < k"
  proof (rule ccontr)
    assume "\<not> j < k"
    then have "key (order_by key t ! k) \<le> key (order_by key t ! j)"
      using sorted_nth_mono [OF sorted_order_by [of key t], of k j] j k(1) by simp
    with j(2) k assms(3) show False by simp
  qed
  with k j show ?thesis by auto
qed

end
