(* ===== verification/Job_Model.thy ===== *)
theory Job_Model
  imports Rust_Std
begin

text \<open>
  The job types of \<^verbatim>\<open>crates/bookclerk-library/src/models.rs\<close>: kinds, states, resource classes,
  triggers, the JSON command envelope, admission requests and outcomes, fences, scratch paths and
  the retry backoff. The \<open>payload\<close> column of a job row holds JSON text; \<open>serde_json\<close> and the
  database's JSON functions are third-party code, so the text is an opaque type \<open>'j\<close> and the
  functions on it are the fields of a \<open>job_codec\<close>, which every definition that reads or writes the
  column takes as an argument. \<open>codec_ok\<close> states what serde's derived implementations and the
  SQL JSON functions document.
\<close>

section \<open>Enumerations\<close>

datatype JobKind = Scan | Acquire | ListenSync | IntegrationScan | PluginCopy | Invalid

fun JobKind_as_str :: "JobKind \<Rightarrow> string" where
  "JobKind_as_str Scan = ''scan''"
| "JobKind_as_str Acquire = ''acquire''"
| "JobKind_as_str ListenSync = ''listen_sync''"
| "JobKind_as_str IntegrationScan = ''integration_scan''"
| "JobKind_as_str PluginCopy = ''plugin_copy''"
| "JobKind_as_str Invalid = ''invalid''"

definition JobKind_parse :: "string \<Rightarrow> JobKind option" where
  "JobKind_parse s =
     (if s = ''scan'' then Some Scan
      else if s = ''acquire'' then Some Acquire
      else if s = ''listen_sync'' then Some ListenSync
      else if s = ''integration_scan'' then Some IntegrationScan
      else if s = ''plugin_copy'' then Some PluginCopy
      else if s = ''invalid'' then Some Invalid
      else None)"

datatype JobState = Pending | Running | Succeeded | Failed | Cancelled

fun JobState_as_str :: "JobState \<Rightarrow> string" where
  "JobState_as_str Pending = ''pending''"
| "JobState_as_str Running = ''running''"
| "JobState_as_str Succeeded = ''succeeded''"
| "JobState_as_str Failed = ''failed''"
| "JobState_as_str Cancelled = ''cancelled''"

definition JobState_parse :: "string \<Rightarrow> JobState option" where
  "JobState_parse s =
     (if s = ''pending'' then Some Pending
      else if s = ''running'' then Some Running
      else if s = ''succeeded'' then Some Succeeded
      else if s = ''failed'' then Some Failed
      else if s = ''cancelled'' then Some Cancelled
      else None)"

definition is_active :: "JobState \<Rightarrow> bool" where
  "is_active s \<longleftrightarrow> s = Pending \<or> s = Running"

definition is_terminal :: "JobState \<Rightarrow> bool" where
  "is_terminal s \<longleftrightarrow> s = Succeeded \<or> s = Failed \<or> s = Cancelled"

datatype JobResourceClass = Network | Media | Transcription | Indexing

fun JobResourceClass_as_str :: "JobResourceClass \<Rightarrow> string" where
  "JobResourceClass_as_str Network = ''network''"
| "JobResourceClass_as_str Media = ''media''"
| "JobResourceClass_as_str Transcription = ''transcription''"
| "JobResourceClass_as_str Indexing = ''indexing''"

definition JobResourceClass_parse :: "string \<Rightarrow> JobResourceClass option" where
  "JobResourceClass_parse s =
     (if s = ''network'' then Some Network
      else if s = ''media'' then Some Media
      else if s = ''transcription'' then Some Transcription
      else if s = ''indexing'' then Some Indexing
      else None)"

definition JobResourceClass_ALL :: "string list" where
  "JobResourceClass_ALL = [''network'', ''media'', ''transcription'', ''indexing'']"

definition resource_class :: "JobKind \<Rightarrow> JobResourceClass" where
  "resource_class k = Network"

datatype JobTrigger = Api | Scheduler

fun JobTrigger_as_str :: "JobTrigger \<Rightarrow> string" where
  "JobTrigger_as_str Api = ''api''"
| "JobTrigger_as_str Scheduler = ''scheduler''"

definition JobTrigger_parse :: "string \<Rightarrow> JobTrigger option" where
  "JobTrigger_parse s =
     (if s = ''api'' then Some Api else if s = ''scheduler'' then Some Scheduler else None)"

section \<open>The command envelope\<close>

definition JOB_PAYLOAD_VERSION :: nat where
  "JOB_PAYLOAD_VERSION = 1"

definition MAX_CHECKPOINT_BYTES :: nat where
  "MAX_CHECKPOINT_BYTES = 65536"

record JobCheckpoint =
  cp_schema_version :: nat
  cp_json :: string

record JobPayload =
  p_v :: nat
  p_account :: "string option"
  p_title :: "string option"
  p_trigger :: JobTrigger
  p_integration_id :: "string option"
  p_force :: bool
  p_plugin_id :: "string option"
  p_source_key :: "string option"
  p_dest_key :: "string option"
  p_checkpoint :: "JobCheckpoint option"
  p_invocation_sequence :: "nat option"
  p_resume_pending :: bool

definition JobPayload_default :: JobPayload where
  "JobPayload_default =
     \<lparr>p_v = JOB_PAYLOAD_VERSION, p_account = None, p_title = None, p_trigger = Api,
      p_integration_id = None, p_force = False, p_plugin_id = None, p_source_key = None,
      p_dest_key = None, p_checkpoint = None, p_invocation_sequence = None,
      p_resume_pending = False\<rparr>"

definition or_default :: "string \<Rightarrow> string option \<Rightarrow> string" where
  "or_default d x = (case x of None \<Rightarrow> d | Some s \<Rightarrow> s)"

fun dedup_key :: "JobKind \<Rightarrow> JobPayload \<Rightarrow> string" where
  "dedup_key Scan p = ''scan:account='' @ or_default ''all'' (p_account p)"
| "dedup_key Acquire p =
     ''acquire:title='' @ or_default ''all'' (p_title p)
     @ '':account='' @ or_default ''all'' (p_account p)"
| "dedup_key ListenSync p = ''listen_sync''"
| "dedup_key IntegrationScan p =
     ''integration_scan:id='' @ or_default ''all'' (p_integration_id p)
     @ '':force='' @ (if p_force p then ''1'' else ''0'')"
| "dedup_key PluginCopy p =
     ''plugin_copy:plugin='' @ or_default ''local'' (p_plugin_id p)
     @ '':from='' @ or_default ''-'' (p_source_key p)
     @ '':to='' @ or_default ''-'' (p_dest_key p)"
| "dedup_key Invalid p = ''invalid''"

section \<open>Requests, outcomes, records and fences\<close>

record EnqueueJobSpec =
  spec_kind :: JobKind
  spec_payload :: JobPayload
  spec_priority :: int
  spec_max_attempts :: int
  spec_max_pending :: int
  spec_run_after :: "timestamp option"

datatype EnqueueOutcome = Created string | Duplicate string | QueueFull

record JobRecord =
  rec_id :: string
  rec_kind :: JobKind
  rec_state :: JobState
  rec_priority :: int
  rec_resource_class :: JobResourceClass
  rec_payload :: JobPayload
  rec_progress :: "string option"
  rec_attempt_count :: int
  rec_max_attempts :: int
  rec_run_after :: timestamp
  rec_lease_owner :: "string option"
  rec_lease_expires_at :: "timestamp option"
  rec_dedup_key :: string
  rec_error_kind :: "string option"
  rec_error_message :: "string option"
  rec_cancel_requested :: bool
  rec_created_at :: timestamp
  rec_updated_at :: timestamp
  rec_started_at :: "timestamp option"
  rec_finished_at :: "timestamp option"
  rec_lease_generation :: int

record JobFence =
  f_job_id :: string
  f_owner :: string
  f_generation :: int

definition fence :: "JobRecord \<Rightarrow> JobFence option" where
  "fence r = map_option (\<lambda>o'. \<lparr>f_job_id = rec_id r, f_owner = o', f_generation = rec_lease_generation r\<rparr>)
               (rec_lease_owner r)"

record JobTempPath =
  tp_id :: int
  tp_job_id :: string
  tp_path :: string
  tp_created_at :: timestamp
  tp_reserved_bytes :: nat

section \<open>Backoff\<close>

definition seconds :: "int \<Rightarrow> int" where
  "seconds n = n * 1000000000"

definition days :: "int \<Rightarrow> int" where
  "days n = seconds (86400 * n)"

definition job_backoff_secs :: "int \<Rightarrow> nat" where
  "job_backoff_secs attempt_count =
     (let exp = nat (max 0 (min 8 (attempt_count - 1)))
      in min (5 * 2 ^ exp) (15 * 60))"

definition job_backoff_run_after :: "int \<Rightarrow> timestamp \<Rightarrow> timestamp" where
  "job_backoff_run_after attempt_count now = now + seconds (int (job_backoff_secs attempt_count))"

section \<open>JSON text of the payload column\<close>

record 'j job_codec =
  from_str :: "'j \<Rightarrow> string + JobPayload"
  to_string :: "JobPayload \<Rightarrow> 'j"
  json_valid :: "'j \<Rightarrow> bool"
  json_extract_v :: "'j \<Rightarrow> string"
  value_str :: "'j \<Rightarrow> string \<Rightarrow> string option"
  value_bool :: "'j \<Rightarrow> string \<Rightarrow> bool option"
  json_text :: "string \<Rightarrow> 'j"

text \<open>
  \<open>from_str\<close>/\<open>to_string\<close>: \<open>serde_json\<close> on \<open>JobPayload\<close>; \<open>json_valid\<close>: the SQL function;
  \<open>json_extract_v\<close>: the SQL expression \<open>IFNULL(json_extract(payload, '$.v') || '', '')\<close>;
  \<open>value_str\<close>/\<open>value_bool\<close>: \<open>serde_json::Value::get(k)\<close> followed by \<open>as_str\<close>/\<open>as_bool\<close>;
  \<open>json_text\<close>: a literal text.
\<close>

definition codec_ok :: "'j job_codec \<Rightarrow> bool" where
  "codec_ok J \<longleftrightarrow>
     (\<forall>p. from_str J (to_string J p) = Inr p) \<and>
     (\<forall>p. json_valid J (to_string J p)) \<and>
     (\<forall>p. (json_extract_v J (to_string J p) = ''1'') = (p_v p = 1)) \<and>
     (\<forall>p. value_str J (to_string J p) ''account'' = p_account p) \<and>
     (\<forall>p. value_str J (to_string J p) ''title'' = p_title p) \<and>
     (\<forall>p. value_str J (to_string J p) ''integration_id'' = p_integration_id p) \<and>
     (\<forall>p. value_bool J (to_string J p) ''force'' = (if p_force p then Some True else None)) \<and>
     from_str J (json_text J ''{\"v\":1}'') = Inr JobPayload_default"

lemma codec_okD:
  assumes "codec_ok J"
  shows "from_str J (to_string J p) = Inr p"
    and "json_valid J (to_string J p)"
    and "(json_extract_v J (to_string J p) = ''1'') = (p_v p = 1)"
    and "value_str J (to_string J p) ''account'' = p_account p"
    and "value_str J (to_string J p) ''title'' = p_title p"
    and "value_str J (to_string J p) ''integration_id'' = p_integration_id p"
    and "value_bool J (to_string J p) ''force'' = (if p_force p then Some True else None)"
    and "from_str J (json_text J ''{\"v\":1}'') = Inr JobPayload_default"
  using assms by (auto simp: codec_ok_def)

section \<open>Properties of the model types\<close>

lemma JobKind_roundtrip [simp]: "JobKind_parse (JobKind_as_str k) = Some k"
  by (cases k) (simp_all add: JobKind_parse_def)

lemma JobState_roundtrip [simp]: "JobState_parse (JobState_as_str s) = Some s"
  by (cases s) (simp_all add: JobState_parse_def)

lemma JobResourceClass_roundtrip [simp]:
  "JobResourceClass_parse (JobResourceClass_as_str c) = Some c"
  by (cases c) (simp_all add: JobResourceClass_parse_def)

lemma JobTrigger_roundtrip [simp]: "JobTrigger_parse (JobTrigger_as_str t) = Some t"
  by (cases t) (simp_all add: JobTrigger_parse_def)

lemma JobState_parse_Some_iff: "JobState_parse s = Some st \<longleftrightarrow> s = JobState_as_str st"
  by (cases st) (auto simp: JobState_parse_def)

lemma JobKind_parse_Some_iff: "JobKind_parse s = Some k \<longleftrightarrow> s = JobKind_as_str k"
  by (cases k) (auto simp: JobKind_parse_def)

lemma JobResourceClass_parse_Some_iff:
  "JobResourceClass_parse s = Some c \<longleftrightarrow> s = JobResourceClass_as_str c"
  by (cases c) (auto simp: JobResourceClass_parse_def)

lemma JobResourceClass_ALL_iff:
  "s \<in> set JobResourceClass_ALL \<longleftrightarrow> (\<exists>c. JobResourceClass_parse s = Some c)"
  by (auto simp: JobResourceClass_ALL_def JobResourceClass_parse_def)

lemma JobState_as_str_inject [simp]: "JobState_as_str s = JobState_as_str t \<longleftrightarrow> s = t"
  by (cases s; cases t) simp_all

lemma active_or_terminal: "is_active s \<noteq> is_terminal s"
  by (cases s) (simp_all add: is_active_def is_terminal_def)

section \<open>A concrete codec\<close>

text \<open>
  Texts are either a serialised payload or any other text, of which \<open>{"v":1}\<close> alone parses. It
  satisfies \<open>codec_ok\<close>, and examples evaluate with it.
\<close>

type_synonym plain_text = "string + JobPayload"

definition plain_codec :: "plain_text job_codec" where
  "plain_codec =
     \<lparr>from_str = (\<lambda>t. case t of Inr p \<Rightarrow> Inr p
        | Inl s \<Rightarrow> if s = ''{\"v\":1}'' then Inr JobPayload_default else Inl ''expected value''),
      to_string = Inr,
      json_valid = (\<lambda>t. case t of Inr _ \<Rightarrow> True | Inl s \<Rightarrow> s = ''{\"v\":1}''),
      json_extract_v = (\<lambda>t. case t of Inr p \<Rightarrow> if p_v p = 1 then ''1'' else ''2'' | Inl _ \<Rightarrow> ''1''),
      value_str = (\<lambda>t k. case t of Inl _ \<Rightarrow> None
        | Inr p \<Rightarrow> if k = ''account'' then p_account p
                else if k = ''title'' then p_title p
                else if k = ''integration_id'' then p_integration_id p else None),
      value_bool = (\<lambda>t k. case t of Inl _ \<Rightarrow> None
        | Inr p \<Rightarrow> if k = ''force'' \<and> p_force p then Some True else None),
      json_text = Inl\<rparr>"

lemma codec_ok_plain [simp]: "codec_ok plain_codec"
  by (simp add: codec_ok_def plain_codec_def)

end
