(* ===== verification/Job_Queue.thy ===== *)
theory Job_Queue
  imports Job_Model
begin

text \<open>
  The durable job queue of \<^verbatim>\<open>crates/bookclerk-library/src/store/job_queue.rs\<close>: the tables
  \<open>jobs\<close> and \<open>job_temp_paths\<close> and every operation on them. \<open>now\<close> is the instant an operation
  reads from the clock and \<open>uuid\<close> the text of the UUID it draws. Statements that reach the database
  are assumed to execute; a statement failure surfaces as \<open>LibraryError::Orm\<close> and changes nothing.

  Operations that read a row and then issue a conditional update are split at that point: the
  \<open>_from\<close> definition takes the row that was read earlier as an argument and issues the update
  against the current table, so that \<open>Job_Steps\<close> can let other statements run in between.
\<close>

section \<open>Tables\<close>

record 'j job_row =
  j_id :: string
  j_kind :: string
  j_state :: string
  j_priority :: int
  j_resource_class :: string
  j_payload :: 'j
  j_progress :: "string option"
  j_attempt_count :: int
  j_max_attempts :: int
  j_run_after :: timestamp
  j_lease_owner :: "string option"
  j_lease_expires_at :: "timestamp option"
  j_dedup_key :: string
  j_error_kind :: "string option"
  j_error_message :: "string option"
  j_cancel_requested :: int
  j_created_at :: timestamp
  j_updated_at :: timestamp
  j_started_at :: "timestamp option"
  j_finished_at :: "timestamp option"
  j_lease_generation :: int

record temp_row =
  t_id :: int
  t_job_id :: string
  t_path :: string
  t_created_at :: timestamp
  t_reserved_bytes :: int

record 'j jobdb =
  jobs :: "'j job_row list"
  job_temp_paths :: "temp_row list"
  job_temp_seq :: int

datatype job_error =
    EnqueueInvalidKind
  | UnsupportedPayloadVersion nat
  | PayloadError string
  | CheckpointTooLarge nat
  | UnreadableActiveJob string
  | ClaimedUnreadableJob string
  | QuotaExceeded nat nat
  | OrmUniqueViolation
  | OrmForeignKey

definition pending :: "'j job_row \<Rightarrow> bool" where
  "pending r \<longleftrightarrow> j_state r = JobState_as_str Pending"

definition running :: "'j job_row \<Rightarrow> bool" where
  "running r \<longleftrightarrow> j_state r = JobState_as_str Running"

definition active :: "'j job_row \<Rightarrow> bool" where
  "active r \<longleftrightarrow> j_state r \<in> {JobState_as_str Pending, JobState_as_str Running}"

definition terminal :: "'j job_row \<Rightarrow> bool" where
  "terminal r \<longleftrightarrow> j_state r \<in> {JobState_as_str Succeeded, JobState_as_str Failed, JobState_as_str Cancelled}"

text \<open>A conditional update and whether it changed exactly one row.\<close>

definition cas :: "('j job_row \<Rightarrow> bool) \<Rightarrow> ('j job_row \<Rightarrow> 'j job_row) \<Rightarrow> 'j jobdb \<Rightarrow> 'j jobdb \<times> bool" where
  "cas P f db = (db\<lparr>jobs := update_many P f (jobs db)\<rparr>, rows_affected P (jobs db) = 1)"

text \<open>A transaction: the error path rolls back.\<close>

definition in_txn :: "('d \<Rightarrow> 'd \<times> ('e + 'a)) \<Rightarrow> 'd \<Rightarrow> 'd \<times> ('e + 'a)" where
  "in_txn body db = (case body db of (db', Inr a) \<Rightarrow> (db', Inr a) | (_, Inl e) \<Rightarrow> (db, Inl e))"

section \<open>Mapping rows to records\<close>

definition quoted :: "string \<Rightarrow> string" where
  "quoted s = [CHR 0x60] @ s @ [CHR 0x60]"

definition job_record ::
  "'j job_row \<Rightarrow> JobKind \<Rightarrow> JobState \<Rightarrow> JobResourceClass \<Rightarrow> JobPayload \<Rightarrow> JobRecord" where
  "job_record m kind st cls payload =
     \<lparr>rec_id = j_id m, rec_kind = kind, rec_state = st, rec_priority = j_priority m,
      rec_resource_class = cls, rec_payload = payload, rec_progress = j_progress m,
      rec_attempt_count = j_attempt_count m, rec_max_attempts = j_max_attempts m,
      rec_run_after = j_run_after m, rec_lease_owner = j_lease_owner m,
      rec_lease_expires_at = j_lease_expires_at m, rec_dedup_key = j_dedup_key m,
      rec_error_kind = j_error_kind m, rec_error_message = j_error_message m,
      rec_cancel_requested = (j_cancel_requested m \<noteq> 0),
      rec_created_at = j_created_at m, rec_updated_at = j_updated_at m,
      rec_started_at = j_started_at m, rec_finished_at = j_finished_at m,
      rec_lease_generation = j_lease_generation m\<rparr>"

definition try_map_job :: "'j job_codec \<Rightarrow> 'j job_row \<Rightarrow> string + JobRecord" where
  "try_map_job J m =
     (case JobKind_parse (j_kind m) of
        None \<Rightarrow> Inl (''unknown job kind '' @ quoted (j_kind m))
      | Some kind \<Rightarrow>
     (case JobState_parse (j_state m) of
        None \<Rightarrow> Inl (''unknown job state '' @ quoted (j_state m))
      | Some st \<Rightarrow>
     (case JobResourceClass_parse (j_resource_class m) of
        None \<Rightarrow> Inl (''unknown job resource class '' @ quoted (j_resource_class m))
      | Some cls \<Rightarrow>
     (case from_str J (j_payload m) of
        Inl err \<Rightarrow> Inl (''malformed job payload JSON: '' @ err)
      | Inr payload \<Rightarrow>
        if p_v payload \<noteq> JOB_PAYLOAD_VERSION then
          Inl (''unsupported job payload version '' @ nat_str (p_v payload)
               @ '' (expected '' @ nat_str JOB_PAYLOAD_VERSION @ '')'')
        else if JobTrigger_parse (JobTrigger_as_str (p_trigger payload)) = None then
          Inl (''unknown job trigger '' @ quoted (JobTrigger_as_str (p_trigger payload)))
        else Inr (job_record m kind st cls payload)))))"

definition map_temp_path :: "temp_row \<Rightarrow> JobTempPath" where
  "map_temp_path m =
     \<lparr>tp_id = t_id m, tp_job_id = t_job_id m, tp_path = t_path m, tp_created_at = t_created_at m,
      tp_reserved_bytes = u64_or_0 (t_reserved_bytes m)\<rparr>"

definition invalid_job_payload_json :: "'j job_codec \<Rightarrow> 'j" where
  "invalid_job_payload_json J = to_string J JobPayload_default"

definition payload_or_default :: "'j job_codec \<Rightarrow> 'j job_row \<Rightarrow> JobPayload" where
  "payload_or_default J m = (case from_str J (j_payload m) of Inl _ \<Rightarrow> JobPayload_default | Inr p \<Rightarrow> p)"

section \<open>Fenced single-statement operations\<close>

definition holds_fence :: "'j job_row \<Rightarrow> JobFence \<Rightarrow> bool" where
  "holds_fence m f \<longleftrightarrow>
     running m \<and> j_lease_owner m = Some (f_owner f) \<and> j_lease_generation m = f_generation f"

definition fenced :: "JobFence \<Rightarrow> 'j job_row \<Rightarrow> bool" where
  "fenced f r \<longleftrightarrow> j_id r = f_job_id f \<and> holds_fence r f"

definition set_progress_opt :: "string option \<Rightarrow> 'j job_row \<Rightarrow> 'j job_row" where
  "set_progress_opt p r = (case p of None \<Rightarrow> r | Some s \<Rightarrow> r\<lparr>j_progress := Some s\<rparr>)"

definition lease_until :: "timestamp \<Rightarrow> nat \<Rightarrow> timestamp" where
  "lease_until now lease_secs = now + seconds (i64_or 60 lease_secs)"

definition heartbeat_job ::
  "timestamp \<Rightarrow> JobFence \<Rightarrow> nat \<Rightarrow> string option \<Rightarrow> 'j jobdb \<Rightarrow> 'j jobdb \<times> bool" where
  "heartbeat_job now f lease_secs progress =
     cas (fenced f)
       (\<lambda>r. set_progress_opt progress
             (r\<lparr>j_lease_expires_at := Some (lease_until now lease_secs), j_updated_at := now\<rparr>))"

definition set_job_progress ::
  "timestamp \<Rightarrow> JobFence \<Rightarrow> string \<Rightarrow> 'j jobdb \<Rightarrow> 'j jobdb \<times> bool" where
  "set_job_progress now f progress =
     cas (fenced f) (\<lambda>r. r\<lparr>j_progress := Some progress, j_updated_at := now\<rparr>)"

definition complete_job ::
  "timestamp \<Rightarrow> JobFence \<Rightarrow> string option \<Rightarrow> 'j jobdb \<Rightarrow> 'j jobdb \<times> bool" where
  "complete_job now f progress =
     cas (fenced f)
       (\<lambda>r. set_progress_opt progress
             (r\<lparr>j_state := JobState_as_str Succeeded, j_lease_owner := None,
                j_lease_expires_at := None, j_finished_at := Some now, j_updated_at := now\<rparr>))"

section \<open>Cancellation marks\<close>

definition lease_expired :: "timestamp \<Rightarrow> 'j job_row \<Rightarrow> bool" where
  "lease_expired t r \<longleftrightarrow> (case j_lease_expires_at r of None \<Rightarrow> True | Some e \<Rightarrow> e \<le> t)"

definition cancelled_update :: "timestamp \<Rightarrow> string \<Rightarrow> string \<Rightarrow> 'j job_row \<Rightarrow> 'j job_row" where
  "cancelled_update now error_kind error_message r =
     r\<lparr>j_state := JobState_as_str Cancelled, j_cancel_requested := 1,
       j_error_kind := Some error_kind, j_error_message := Some error_message,
       j_lease_owner := None, j_lease_expires_at := None,
       j_finished_at := Some now, j_updated_at := now\<rparr>"

definition mark_job_cancelled_cas ::
  "timestamp \<Rightarrow> string \<Rightarrow> JobFence option \<Rightarrow> string \<Rightarrow> string \<Rightarrow> timestamp option
   \<Rightarrow> 'j jobdb \<Rightarrow> 'j jobdb \<times> bool" where
  "mark_job_cancelled_cas now i f error_kind error_message expired_before =
     cas (\<lambda>r. j_id r = i \<and>
            (case f of
               Some f' \<Rightarrow> holds_fence r f' \<and>
                 (case expired_before of None \<Rightarrow> True | Some t \<Rightarrow> lease_expired t r)
             | None \<Rightarrow> pending r))
         (cancelled_update now error_kind error_message)"

definition mark_invalid_job ::
  "'j job_codec \<Rightarrow> timestamp \<Rightarrow> string \<Rightarrow> string \<Rightarrow> 'j jobdb \<Rightarrow> 'j jobdb" where
  "mark_invalid_job J now i reason db =
     fst (cas (\<lambda>r. j_id r = i \<and> active r)
         (\<lambda>r. r\<lparr>j_kind := JobKind_as_str Invalid,
               j_resource_class := JobResourceClass_as_str Network,
               j_payload := invalid_job_payload_json J,
               j_state := JobState_as_str Failed,
               j_error_kind := Some ''invalid_job'', j_error_message := Some reason,
               j_lease_owner := None, j_lease_expires_at := None,
               j_finished_at := Some now, j_updated_at := now\<rparr>) db)"

definition mark_pending_job_invalid_on ::
  "'j job_codec \<Rightarrow> timestamp \<Rightarrow> string \<Rightarrow> string \<Rightarrow> 'j jobdb \<Rightarrow> 'j jobdb" where
  "mark_pending_job_invalid_on J now i reason db =
     fst (cas (\<lambda>r. j_id r = i \<and> pending r)
         (\<lambda>r. r\<lparr>j_kind := JobKind_as_str Invalid,
               j_resource_class := JobResourceClass_as_str Network,
               j_payload := invalid_job_payload_json J,
               j_state := JobState_as_str Failed,
               j_error_kind := Some ''invalid_job'', j_error_message := Some reason,
               j_finished_at := Some now, j_updated_at := now\<rparr>) db)"

section \<open>Reading jobs\<close>

definition get_job ::
  "'j job_codec \<Rightarrow> timestamp \<Rightarrow> string \<Rightarrow> 'j jobdb \<Rightarrow> 'j jobdb \<times> JobRecord option" where
  "get_job J now i db =
     (case find_by j_id i (jobs db) of
        None \<Rightarrow> (db, None)
      | Some m \<Rightarrow>
        (case try_map_job J m of
           Inr job \<Rightarrow> (db, Some job)
         | Inl reason \<Rightarrow>
             let db' = mark_invalid_job J now i reason db in
             (db', (case find_by j_id i (jobs db') of
                      None \<Rightarrow> None
                    | Some m' \<Rightarrow> (case try_map_job J m' of Inl _ \<Rightarrow> None | Inr job \<Rightarrow> Some job)))))"

fun list_jobs_loop ::
  "'j job_codec \<Rightarrow> timestamp \<Rightarrow> 'j job_row list \<Rightarrow> 'j jobdb \<Rightarrow> 'j jobdb \<times> JobRecord list" where
  "list_jobs_loop J now [] db = (db, [])"
| "list_jobs_loop J now (row # rows) db =
     (case try_map_job J row of
        Inr job \<Rightarrow> (let (db', out) = list_jobs_loop J now rows db in (db', job # out))
      | Inl reason \<Rightarrow>
          let db1 = mark_invalid_job J now (j_id row) reason db;
              (db2, found) = get_job J now (j_id row) db1;
              (db3, out) = list_jobs_loop J now rows db2
          in (db3, (case found of None \<Rightarrow> out | Some job \<Rightarrow> job # out)))"

definition list_jobs ::
  "'j job_codec \<Rightarrow> timestamp \<Rightarrow> nat \<Rightarrow> 'j jobdb \<Rightarrow> 'j jobdb \<times> JobRecord list" where
  "list_jobs J now limit db =
     list_jobs_loop J now (take (max limit 1) (order_by (\<lambda>r. - j_created_at r) (jobs db))) db"

definition job_cancel_requested :: "string \<Rightarrow> 'j jobdb \<Rightarrow> bool" where
  "job_cancel_requested i db =
     (case find_by j_id i (jobs db) of None \<Rightarrow> False | Some m \<Rightarrow> j_cancel_requested m \<noteq> 0)"

definition has_running_acquire_job :: "'j jobdb \<Rightarrow> bool" where
  "has_running_acquire_job db \<longleftrightarrow>
     rows_affected (\<lambda>r. j_kind r = JobKind_as_str Acquire \<and> running r) (jobs db) > 0"

definition count_active_jobs_on :: "'j jobdb \<Rightarrow> int" where
  "count_active_jobs_on db = int (rows_affected active (jobs db))"

section \<open>Suspension, checkpoints, failure\<close>

definition suspended_payload :: "JobCheckpoint \<Rightarrow> JobPayload \<Rightarrow> JobPayload" where
  "suspended_payload c p =
     p\<lparr>p_checkpoint := Some c, p_resume_pending := True,
       p_invocation_sequence :=
         Some (u32_saturating_add (case p_invocation_sequence p of None \<Rightarrow> 1 | Some n \<Rightarrow> n) 1)\<rparr>"

definition suspend_update ::
  "'j job_codec \<Rightarrow> timestamp \<Rightarrow> JobCheckpoint \<Rightarrow> timestamp \<Rightarrow> JobPayload \<Rightarrow> 'j job_row \<Rightarrow> 'j job_row" where
  "suspend_update J now c wake_at payload r =
     r\<lparr>j_state := JobState_as_str Pending,
       j_payload := to_string J (suspended_payload c payload),
       j_run_after := wake_at, j_lease_owner := None, j_lease_expires_at := None,
       j_progress := Some ''suspended'', j_updated_at := now\<rparr>"

definition suspend_job_from ::
  "'j job_codec \<Rightarrow> timestamp \<Rightarrow> JobFence \<Rightarrow> JobCheckpoint \<Rightarrow> timestamp \<Rightarrow> 'j job_row
   \<Rightarrow> 'j jobdb \<Rightarrow> 'j jobdb \<times> (job_error + bool)" where
  "suspend_job_from J now f c wake_at model db =
     (if \<not> holds_fence model f then (db, Inr False)
      else case from_str J (j_payload model) of
        Inl err \<Rightarrow> (db, Inl (PayloadError err))
      | Inr payload \<Rightarrow>
        if MAX_CHECKPOINT_BYTES < length (cp_json c) then
          (db, Inl (CheckpointTooLarge (length (cp_json c))))
        else map_prod id Inr (cas (fenced f) (suspend_update J now c wake_at payload) db))"

definition suspend_job ::
  "'j job_codec \<Rightarrow> timestamp \<Rightarrow> JobFence \<Rightarrow> JobCheckpoint \<Rightarrow> timestamp
   \<Rightarrow> 'j jobdb \<Rightarrow> 'j jobdb \<times> (job_error + bool)" where
  "suspend_job J now f c wake_at db =
     (case find_by j_id (f_job_id f) (jobs db) of
        None \<Rightarrow> (db, Inr False)
      | Some model \<Rightarrow> suspend_job_from J now f c wake_at model db)"

definition checkpoint_update ::
  "'j job_codec \<Rightarrow> timestamp \<Rightarrow> JobCheckpoint \<Rightarrow> JobPayload \<Rightarrow> 'j job_row \<Rightarrow> 'j job_row" where
  "checkpoint_update J now c payload r =
     r\<lparr>j_payload := to_string J (payload\<lparr>p_checkpoint := Some c\<rparr>), j_updated_at := now\<rparr>"

definition checkpoint_running_job_from ::
  "'j job_codec \<Rightarrow> timestamp \<Rightarrow> JobFence \<Rightarrow> JobCheckpoint \<Rightarrow> 'j job_row
   \<Rightarrow> 'j jobdb \<Rightarrow> 'j jobdb \<times> (job_error + bool)" where
  "checkpoint_running_job_from J now f c model db =
     (if \<not> holds_fence model f then (db, Inr False)
      else if MAX_CHECKPOINT_BYTES < length (cp_json c) then
        (db, Inl (CheckpointTooLarge (length (cp_json c))))
      else case from_str J (j_payload model) of
        Inl err \<Rightarrow> (db, Inl (PayloadError err))
      | Inr payload \<Rightarrow> map_prod id Inr (cas (fenced f) (checkpoint_update J now c payload) db))"

definition checkpoint_running_job ::
  "'j job_codec \<Rightarrow> timestamp \<Rightarrow> JobFence \<Rightarrow> JobCheckpoint
   \<Rightarrow> 'j jobdb \<Rightarrow> 'j jobdb \<times> (job_error + bool)" where
  "checkpoint_running_job J now f c db =
     (case find_by j_id (f_job_id f) (jobs db) of
        None \<Rightarrow> (db, Inr False)
      | Some model \<Rightarrow> checkpoint_running_job_from J now f c model db)"

definition fail_update ::
  "'j job_codec \<Rightarrow> timestamp \<Rightarrow> string \<Rightarrow> string \<Rightarrow> 'j job_row \<Rightarrow> 'j job_row \<Rightarrow> 'j job_row" where
  "fail_update J now error_kind error_message model r =
     (let retry = j_attempt_count model < j_max_attempts model;
          payload = payload_or_default J model;
          retry_payload =
            (if retry \<and> p_resume_pending payload
             then Some (to_string J (payload\<lparr>p_resume_pending := False\<rparr>)) else None)
      in r\<lparr>j_state := JobState_as_str (if retry then Pending else Failed),
           j_payload := (case retry_payload of None \<Rightarrow> j_payload r | Some pj \<Rightarrow> pj),
           j_error_kind := Some error_kind,
           j_error_message := Some error_message,
           j_lease_owner := None, j_lease_expires_at := None,
           j_run_after := (if retry then job_backoff_run_after (j_attempt_count model) now
                           else j_run_after model),
           j_finished_at := (if retry then None else Some now),
           j_updated_at := now\<rparr>)"

definition fail_job_from ::
  "'j job_codec \<Rightarrow> timestamp \<Rightarrow> JobFence \<Rightarrow> string \<Rightarrow> string \<Rightarrow> 'j job_row
   \<Rightarrow> 'j jobdb \<Rightarrow> 'j jobdb \<times> bool" where
  "fail_job_from J now f error_kind error_message model db =
     (if \<not> holds_fence model f then (db, False)
      else if j_cancel_requested model \<noteq> 0 then
        (fst (mark_job_cancelled_cas now (f_job_id f) (Some f) ''cancelled''
                ''cancelled by operator'' None db), True)
      else cas (fenced f) (fail_update J now error_kind error_message model) db)"

definition fail_job ::
  "'j job_codec \<Rightarrow> timestamp \<Rightarrow> JobFence \<Rightarrow> string \<Rightarrow> string
   \<Rightarrow> 'j jobdb \<Rightarrow> 'j jobdb \<times> bool" where
  "fail_job J now f error_kind error_message db =
     (case find_by j_id (f_job_id f) (jobs db) of
        None \<Rightarrow> (db, False)
      | Some model \<Rightarrow> fail_job_from J now f error_kind error_message model db)"

section \<open>Operator cancellation\<close>

definition flag_cancel_requested :: "timestamp \<Rightarrow> string \<Rightarrow> 'j jobdb \<Rightarrow> 'j jobdb \<times> bool" where
  "flag_cancel_requested now i =
     cas (\<lambda>r. j_id r = i \<and> running r) (\<lambda>r. r\<lparr>j_cancel_requested := 1, j_updated_at := now\<rparr>)"

text \<open>
  One iteration of the loop in \<open>request_job_cancel\<close>: \<open>Inl db\<close> is \<open>continue\<close>, \<open>Inr\<close> the value
  returned. A state text that does not parse counts as \<open>Failed\<close>.
\<close>

definition request_job_cancel_iter ::
  "'j job_codec \<Rightarrow> timestamp \<Rightarrow> string \<Rightarrow> 'j jobdb
   \<Rightarrow> 'j jobdb + ('j jobdb \<times> JobRecord option)" where
  "request_job_cancel_iter J now i db =
     (case find_by j_id i (jobs db) of
        None \<Rightarrow> Inr (db, None)
      | Some model \<Rightarrow>
        let st = (case JobState_parse (j_state model) of None \<Rightarrow> Failed | Some s \<Rightarrow> s) in
        if is_terminal st then
          (case try_map_job J model of
             Inr job \<Rightarrow> Inr (db, Some job)
           | Inl reason \<Rightarrow> Inr (get_job J now i (mark_invalid_job J now i reason db)))
        else if st = Pending then
          let (db', ok) = mark_job_cancelled_cas now i None ''cancelled'' ''cancelled by operator'' None db
          in if ok then Inr (get_job J now i db') else Inl db'
        else
          let (db', ok) = flag_cancel_requested now i db
          in if ok then Inr (get_job J now i db') else Inl db')"

fun request_job_cancel_loop ::
  "nat \<Rightarrow> 'j job_codec \<Rightarrow> timestamp \<Rightarrow> string \<Rightarrow> 'j jobdb \<Rightarrow> 'j jobdb \<times> JobRecord option" where
  "request_job_cancel_loop 0 J now i db = get_job J now i db"
| "request_job_cancel_loop (Suc n) J now i db =
     (case request_job_cancel_iter J now i db of
        Inr result \<Rightarrow> result
      | Inl db' \<Rightarrow> request_job_cancel_loop n J now i db')"

definition request_job_cancel ::
  "'j job_codec \<Rightarrow> timestamp \<Rightarrow> string \<Rightarrow> 'j jobdb \<Rightarrow> 'j jobdb \<times> JobRecord option" where
  "request_job_cancel = request_job_cancel_loop 16"

section \<open>Reclaiming expired leases\<close>

definition reclaim_update :: "timestamp \<Rightarrow> 'j job_row \<Rightarrow> 'j job_row \<Rightarrow> 'j job_row" where
  "reclaim_update now model r =
     (let exhausted = (j_max_attempts model \<le> j_attempt_count model)
      in r\<lparr>j_state := JobState_as_str (if exhausted then Failed else Pending),
           j_lease_owner := None, j_lease_expires_at := None,
           j_error_kind := Some ''lease_expired'',
           j_error_message := Some ''worker lease expired; reclaiming after restart'',
           j_run_after := now, j_finished_at := (if exhausted then Some now else None),
           j_updated_at := now\<rparr>)"

definition reclaim_one ::
  "timestamp \<Rightarrow> 'j job_row \<Rightarrow> 'j jobdb \<Rightarrow> 'j jobdb \<times> bool" where
  "reclaim_one now model db =
     (if \<not> lease_expired now model then (db, False)
      else if j_cancel_requested model \<noteq> 0 then
        mark_job_cancelled_cas now (j_id model)
          (Some \<lparr>f_job_id = j_id model,
                 f_owner = (case j_lease_owner model of None \<Rightarrow> [] | Some w \<Rightarrow> w),
                 f_generation = j_lease_generation model\<rparr>)
          ''cancelled'' ''cancelled by operator'' (Some now) db
      else
        cas (\<lambda>r. j_id r = j_id model \<and> running r
               \<and> j_lease_generation r = j_lease_generation model \<and> lease_expired now r)
          (reclaim_update now model) db)"

fun reclaim_loop :: "timestamp \<Rightarrow> 'j job_row list \<Rightarrow> 'j jobdb \<Rightarrow> 'j jobdb \<times> nat" where
  "reclaim_loop now [] db = (db, 0)"
| "reclaim_loop now (m # ms) db =
     (let (db1, hit) = reclaim_one now m db;
          (db2, n) = reclaim_loop now ms db1
      in (db2, if hit then Suc n else n))"

definition reclaim_expired_leases :: "timestamp \<Rightarrow> 'j jobdb \<Rightarrow> 'j jobdb \<times> nat" where
  "reclaim_expired_leases now db = reclaim_loop now (filter running (jobs db)) db"

section \<open>Retention\<close>

text \<open>Deleting a job row deletes its scratch rows (\<open>ON DELETE CASCADE\<close>).\<close>

definition delete_jobs :: "('j job_row \<Rightarrow> bool) \<Rightarrow> 'j jobdb \<Rightarrow> 'j jobdb" where
  "delete_jobs P db =
     db\<lparr>jobs := delete_many P (jobs db),
        job_temp_paths :=
          delete_many (\<lambda>t. \<exists>r \<in> set (jobs db). P r \<and> j_id r = t_job_id t) (job_temp_paths db)\<rparr>"

definition prune_terminal_jobs :: "timestamp \<Rightarrow> nat \<Rightarrow> 'j jobdb \<Rightarrow> 'j jobdb \<times> nat" where
  "prune_terminal_jobs now retention_days db =
     (let cutoff = now - days (i64_or 7 retention_days);
          P = (\<lambda>r. terminal r \<and> (case j_finished_at r of None \<Rightarrow> False | Some t \<Rightarrow> t \<le> cutoff))
      in (delete_jobs P db, rows_affected P (jobs db)))"

section \<open>Scratch paths\<close>

definition reserved_temp_bytes :: "'j jobdb \<Rightarrow> nat" where
  "reserved_temp_bytes db =
     fold (\<lambda>b acc. u64_saturating_add acc b)
       (map (\<lambda>t. u64_or_0 (t_reserved_bytes t)) (job_temp_paths db)) 0"

definition reserve_job_temp_path_on ::
  "timestamp \<Rightarrow> string \<Rightarrow> string \<Rightarrow> nat \<Rightarrow> nat \<Rightarrow> 'j jobdb \<Rightarrow> 'j jobdb \<times> (job_error + unit)" where
  "reserve_job_temp_path_on now job_id path reserved_bytes quota_bytes db =
     (let rows = job_temp_paths db;
          here = (\<lambda>t. t_job_id t = job_id \<and> t_path t = path);
          existing = find here rows;
          already = (case existing of None \<Rightarrow> 0 | Some t \<Rightarrow> u64_or_0 (t_reserved_bytes t));
          used = reserved_temp_bytes db;
          next_used = u64_saturating_add (used - already) reserved_bytes
      in if quota_bytes < next_used then (db, Inl (QuotaExceeded next_used quota_bytes))
         else case existing of
           Some t \<Rightarrow>
             (db\<lparr>job_temp_paths :=
                  update_many (\<lambda>u. t_id u = t_id t)
                    (\<lambda>u. u\<lparr>t_reserved_bytes := i64_or (int I64_MAX) reserved_bytes\<rparr>) rows\<rparr>, Inr ())
         | None \<Rightarrow>
             if \<not> (\<exists>r \<in> set (jobs db). j_id r = job_id) then (db, Inl OrmForeignKey)
             else
               (db\<lparr>job_temp_paths := rows @
                    [\<lparr>t_id = job_temp_seq db + 1, t_job_id = job_id, t_path = path,
                      t_created_at = now,
                      t_reserved_bytes = i64_or (int I64_MAX) reserved_bytes\<rparr>],
                   job_temp_seq := job_temp_seq db + 1\<rparr>, Inr ()))"

definition reserve_job_temp_path ::
  "timestamp \<Rightarrow> string \<Rightarrow> string \<Rightarrow> nat \<Rightarrow> nat \<Rightarrow> 'j jobdb \<Rightarrow> 'j jobdb \<times> (job_error + unit)" where
  "reserve_job_temp_path now job_id path reserved_bytes quota_bytes =
     in_txn (reserve_job_temp_path_on now job_id path reserved_bytes quota_bytes)"

definition register_job_temp_path ::
  "timestamp \<Rightarrow> string \<Rightarrow> string \<Rightarrow> 'j jobdb \<Rightarrow> 'j jobdb \<times> (job_error + unit)" where
  "register_job_temp_path now job_id path = reserve_job_temp_path now job_id path 0 U64_MAX"

definition list_job_temp_paths :: "string \<Rightarrow> 'j jobdb \<Rightarrow> JobTempPath list" where
  "list_job_temp_paths job_id db =
     map map_temp_path (filter (\<lambda>t. t_job_id t = job_id) (job_temp_paths db))"

definition list_all_job_temp_paths :: "'j jobdb \<Rightarrow> JobTempPath list" where
  "list_all_job_temp_paths db = map map_temp_path (job_temp_paths db)"

definition unregister_job_temp_path :: "string \<Rightarrow> string \<Rightarrow> 'j jobdb \<Rightarrow> 'j jobdb" where
  "unregister_job_temp_path job_id path db =
     db\<lparr>job_temp_paths := delete_many (\<lambda>t. t_job_id t = job_id \<and> t_path t = path) (job_temp_paths db)\<rparr>"

section \<open>Admission\<close>

definition find_active_job_by_dedup_on ::
  "'j job_codec \<Rightarrow> string \<Rightarrow> 'j jobdb \<Rightarrow> job_error + JobRecord option" where
  "find_active_job_by_dedup_on J key db =
     (case order_by j_created_at (filter (\<lambda>r. j_dedup_key r = key \<and> active r) (jobs db)) of
        [] \<Rightarrow> Inr None
      | model # _ \<Rightarrow>
        (case try_map_job J model of
           Inl reason \<Rightarrow> Inl (UnreadableActiveJob reason)
         | Inr job \<Rightarrow> Inr (Some job)))"

definition new_job_row ::
  "'j job_codec \<Rightarrow> timestamp \<Rightarrow> string \<Rightarrow> string \<Rightarrow> EnqueueJobSpec \<Rightarrow> 'j job_row" where
  "new_job_row J now i key spec =
     \<lparr>j_id = i, j_kind = JobKind_as_str (spec_kind spec), j_state = JobState_as_str Pending,
      j_priority = spec_priority spec,
      j_resource_class = JobResourceClass_as_str (resource_class (spec_kind spec)),
      j_payload = to_string J (spec_payload spec), j_progress = None, j_attempt_count = 0,
      j_max_attempts = max (spec_max_attempts spec) 1,
      j_run_after = (case spec_run_after spec of None \<Rightarrow> now | Some t \<Rightarrow> t),
      j_lease_owner = None, j_lease_expires_at = None, j_dedup_key = key,
      j_error_kind = None, j_error_message = None, j_cancel_requested = 0,
      j_created_at = now, j_updated_at = now, j_started_at = None, j_finished_at = None,
      j_lease_generation = 0\<rparr>"

text \<open>
  \<open>INSERT INTO jobs\<close> under the primary key and the partial unique index
  \<open>idx_jobs_dedup_active\<close>; \<open>None\<close> is a unique violation.
\<close>

definition insert_job :: "'j job_row \<Rightarrow> 'j jobdb \<Rightarrow> 'j jobdb option" where
  "insert_job row db =
     (if (\<exists>r \<in> set (jobs db). j_id r = j_id row)
         \<or> (active row \<and> (\<exists>r \<in> set (jobs db). active r \<and> j_dedup_key r = j_dedup_key row))
      then None
      else Some (db\<lparr>jobs := jobs db @ [row]\<rparr>))"

definition enqueue_job_on ::
  "'j job_codec \<Rightarrow> timestamp \<Rightarrow> string \<Rightarrow> EnqueueJobSpec
   \<Rightarrow> 'j jobdb \<Rightarrow> 'j jobdb \<times> (job_error + EnqueueOutcome)" where
  "enqueue_job_on J now uuid spec db =
     (if spec_kind spec = Invalid then (db, Inl EnqueueInvalidKind)
      else if p_v (spec_payload spec) \<noteq> JOB_PAYLOAD_VERSION then
        (db, Inl (UnsupportedPayloadVersion (p_v (spec_payload spec))))
      else
        let key = dedup_key (spec_kind spec) (spec_payload spec) in
        case find_active_job_by_dedup_on J key db of
          Inl e \<Rightarrow> (db, Inl e)
        | Inr (Some existing) \<Rightarrow> (db, Inr (Duplicate (rec_id existing)))
        | Inr None \<Rightarrow>
          if max (spec_max_pending spec) 0 \<le> count_active_jobs_on db then (db, Inr QueueFull)
          else
            let i = JobKind_as_str (spec_kind spec) @ ''-'' @ uuid in
            case insert_job (new_job_row J now i key spec) db of
              Some db' \<Rightarrow> (db', Inr (Created i))
            | None \<Rightarrow>
              (case find_active_job_by_dedup_on J key db of
                 Inl e \<Rightarrow> (db, Inl e)
               | Inr (Some existing) \<Rightarrow> (db, Inr (Duplicate (rec_id existing)))
               | Inr None \<Rightarrow> (db, Inl OrmUniqueViolation)))"

definition enqueue_job ::
  "'j job_codec \<Rightarrow> timestamp \<Rightarrow> string \<Rightarrow> EnqueueJobSpec
   \<Rightarrow> 'j jobdb \<Rightarrow> 'j jobdb \<times> (job_error + EnqueueOutcome)" where
  "enqueue_job J now uuid spec = in_txn (enqueue_job_on J now uuid spec)"

section \<open>Claiming\<close>

fun mark_suspects :: "'j job_codec \<Rightarrow> timestamp \<Rightarrow> 'j job_row list \<Rightarrow> 'j jobdb \<Rightarrow> 'j jobdb" where
  "mark_suspects J now [] db = db"
| "mark_suspects J now (m # ms) db =
     mark_suspects J now ms
       (mark_pending_job_invalid_on J now (j_id m)
          (''unknown job resource class '' @ quoted (j_resource_class m)) db)"

definition sanitize_unreadable_pending_on ::
  "'j job_codec \<Rightarrow> timestamp \<Rightarrow> 'j jobdb \<Rightarrow> 'j jobdb" where
  "sanitize_unreadable_pending_on J now db =
     mark_suspects J now
       (take 32 (filter (\<lambda>r. pending r \<and> j_resource_class r \<notin> set JobResourceClass_ALL) (jobs db))) db"

definition claim_ready :: "timestamp \<Rightarrow> JobResourceClass \<Rightarrow> 'j job_row \<Rightarrow> bool" where
  "claim_ready now cls r \<longleftrightarrow>
     j_resource_class r = JobResourceClass_as_str cls \<and> pending r \<and> j_run_after r \<le> now"

definition claim_order :: "'j job_row \<Rightarrow> int \<times> timestamp" where
  "claim_order r = (- j_priority r, j_created_at r)"

definition claim_candidates ::
  "timestamp \<Rightarrow> JobResourceClass \<Rightarrow> 'j jobdb \<Rightarrow> 'j job_row list" where
  "claim_candidates now cls db =
     take 8 (order_by claim_order (filter (claim_ready now cls) (jobs db)))"

definition cancel_pending_row :: "timestamp \<Rightarrow> string \<Rightarrow> 'j jobdb \<Rightarrow> 'j jobdb" where
  "cancel_pending_row now i db =
     fst (cas (\<lambda>r. j_id r = i \<and> pending r)
            (\<lambda>r. r\<lparr>j_state := JobState_as_str Cancelled, j_cancel_requested := 1,
                  j_finished_at := Some now, j_updated_at := now\<rparr>) db)"

definition claim_update ::
  "'j job_codec \<Rightarrow> timestamp \<Rightarrow> string \<Rightarrow> nat \<Rightarrow> 'j job_row \<Rightarrow> 'j job_row \<Rightarrow> 'j job_row" where
  "claim_update J now owner lease_secs model r =
     (let payload = payload_or_default J model;
          resuming = p_resume_pending payload
      in r\<lparr>j_state := JobState_as_str Running,
           j_attempt_count :=
             (if resuming then max (j_attempt_count model) 1 else j_attempt_count model + 1),
           j_payload :=
             (if resuming then to_string J (payload\<lparr>p_resume_pending := False\<rparr>) else j_payload r),
           j_lease_owner := Some owner,
           j_lease_expires_at := Some (lease_until now lease_secs),
           j_lease_generation := j_lease_generation model + 1,
           j_started_at := Some (case j_started_at model of None \<Rightarrow> now | Some t \<Rightarrow> t),
           j_updated_at := now, j_error_kind := None, j_error_message := None\<rparr>)"

definition claim_row ::
  "'j job_codec \<Rightarrow> timestamp \<Rightarrow> string \<Rightarrow> nat \<Rightarrow> 'j job_row \<Rightarrow> 'j jobdb \<Rightarrow> 'j jobdb \<times> bool" where
  "claim_row J now owner lease_secs model =
     cas (\<lambda>r. j_id r = j_id model \<and> pending r) (claim_update J now owner lease_secs model)"

fun claim_loop ::
  "'j job_codec \<Rightarrow> timestamp \<Rightarrow> string \<Rightarrow> nat \<Rightarrow> 'j job_row list
   \<Rightarrow> 'j jobdb \<Rightarrow> 'j jobdb \<times> (job_error + JobRecord option)" where
  "claim_loop J now owner lease_secs [] db = (db, Inr None)"
| "claim_loop J now owner lease_secs (model # models) db =
     (if j_cancel_requested model \<noteq> 0 then
        claim_loop J now owner lease_secs models (cancel_pending_row now (j_id model) db)
      else case try_map_job J model of
        Inl reason \<Rightarrow>
          claim_loop J now owner lease_secs models
            (mark_pending_job_invalid_on J now (j_id model) reason db)
      | Inr _ \<Rightarrow>
          let (db', ok) = claim_row J now owner lease_secs model db in
          if \<not> ok then claim_loop J now owner lease_secs models db'
          else case find_by j_id (j_id model) (jobs db') of
            None \<Rightarrow> claim_loop J now owner lease_secs models db'
          | Some updated \<Rightarrow>
            (case try_map_job J updated of
               Inl reason \<Rightarrow> (db', Inl (ClaimedUnreadableJob reason))
             | Inr job \<Rightarrow> (db', Inr (Some job))))"

definition claim_next_job_on ::
  "'j job_codec \<Rightarrow> timestamp \<Rightarrow> JobResourceClass \<Rightarrow> string \<Rightarrow> nat
   \<Rightarrow> 'j jobdb \<Rightarrow> 'j jobdb \<times> (job_error + JobRecord option)" where
  "claim_next_job_on J now cls owner lease_secs db =
     (let db' = sanitize_unreadable_pending_on J now db
      in claim_loop J now owner lease_secs (claim_candidates now cls db') db')"

definition claim_next_job ::
  "'j job_codec \<Rightarrow> timestamp \<Rightarrow> JobResourceClass \<Rightarrow> string \<Rightarrow> nat
   \<Rightarrow> 'j jobdb \<Rightarrow> 'j jobdb \<times> (job_error + JobRecord option)" where
  "claim_next_job J now cls owner lease_secs = in_txn (claim_next_job_on J now cls owner lease_secs)"

end
