(* ===== verification/Atomic_Receipt.thy ===== *)
theory Atomic_Receipt
  imports Rust_Std
begin

text \<open>
  The receipt envelope around the named batches the host sends to a database plugin:
  \<open>wrap_status_op\<close>, \<open>wrap_consume\<close> and the statements they add
  (\<^verbatim>\<open>crates/bookclerk-library/src/sql_plan/named.rs\<close>), and the decoding of the reply
  (\<^verbatim>\<open>crates/bookclerk-library/src/sql_plan/interpret.rs\<close>).

  A batch is one transaction over the application tables (\<open>a_data\<close>), the table
  \<open>bookclerk_receipts\<close> and the table \<open>bookclerk_slots\<close>. A write of the inner plan is a partial function on
  the application tables; \<open>None\<close> is a constraint violation, which aborts the batch. The payload
  column holds JSON text that the database's \<open>json_object\<close> writes and \<open>serde_json\<close> reads back; it is
  kept here as the value it denotes.
\<close>

section \<open>State and plans\<close>

record 'p receipt_row =
  rc_operation_id :: string
  rc_operation_kind :: string
  rc_request_hash :: string
  rc_status :: string
  rc_payload :: "'p option"
  rc_created_at :: timestamp
  rc_expires_at :: timestamp
  rc_consume_key :: "string option"

record ('d, 'p) atomic_db =
  a_data :: 'd
  a_receipts :: "'p receipt_row list"
  a_slots :: "(string \<times> int) list"

record ReceiptCtx =
  ctx_operation_id :: string
  ctx_request_hash :: string
  ctx_kind :: string
  ctx_now :: timestamp
  ctx_expires_at :: timestamp

text \<open>The writes before the application-status \<open>SELECT\<close>, the status, the writes after it, and the
  payload \<open>SELECT\<close>.\<close>

record ('d, 'p) AtomicPlan =
  plan_before :: "('d \<Rightarrow> 'd option) list"
  plan_outcome :: "'d \<Rightarrow> string"
  plan_after :: "('d \<Rightarrow> 'd option) list"
  plan_payload :: "('d \<Rightarrow> 'p option) option"

datatype PayloadKind = PayloadNone | PayloadUser | PayloadIdentity | JsonFromPlan

record 'p DbAtomicResult =
  res_status :: string
  res_payload :: "'p option"
  res_replayed :: bool
  res_receipt_created_at :: "timestamp option"

definition receipt_expiry :: "timestamp \<Rightarrow> timestamp" where
  "receipt_expiry now = now + 24 * 3600 * 1000000000"

section \<open>The added statements\<close>

definition has_receipt :: "string \<Rightarrow> ('d, 'p) atomic_db \<Rightarrow> bool" where
  "has_receipt op s \<longleftrightarrow> (\<exists>r \<in> set (a_receipts s). rc_operation_id r = op)"

definition prune_receipts :: "ReceiptCtx \<Rightarrow> ('d, 'p) atomic_db \<Rightarrow> ('d, 'p) atomic_db" where
  "prune_receipts ctx s =
     s\<lparr>a_receipts :=
         delete_many (\<lambda>r. rc_expires_at r \<le> ctx_now ctx \<and> rc_operation_id r \<noteq> ctx_operation_id ctx)
           (a_receipts s)\<rparr>"

definition select_receipt :: "ReceiptCtx \<Rightarrow> ('d, 'p) atomic_db \<Rightarrow> 'p receipt_row option" where
  "select_receipt ctx s = find_by rc_operation_id (ctx_operation_id ctx) (a_receipts s)"

definition gate_write ::
  "('d \<Rightarrow> 'd option) \<Rightarrow> string \<Rightarrow> ('d, 'p) atomic_db \<Rightarrow> ('d, 'p) atomic_db option" where
  "gate_write w op s =
     (if has_receipt op s then Some s else map_option (\<lambda>d. s\<lparr>a_data := d\<rparr>) (w (a_data s)))"

definition gate_write_when_outcome_ok ::
  "('d \<Rightarrow> 'd option) \<Rightarrow> string \<Rightarrow> ('d \<Rightarrow> string) \<Rightarrow> ('d, 'p) atomic_db \<Rightarrow> ('d, 'p) atomic_db option" where
  "gate_write_when_outcome_ok w op outcome s =
     (if \<not> has_receipt op s \<and> outcome (a_data s) = ''ok''
      then map_option (\<lambda>d. s\<lparr>a_data := d\<rparr>) (w (a_data s)) else Some s)"

definition outcome_scratch_key :: "string \<Rightarrow> string" where
  "outcome_scratch_key op = ''atomic-outcome:'' @ op"

definition status_to_bump_sql :: "string \<Rightarrow> int" where
  "status_to_bump_sql st =
     (if st = ''ok'' then 1 else if st = ''empty'' then 2 else if st = ''notFound'' then 3
      else if st = ''lastOwner'' then 4 else if st = ''claimInvalid'' then 5
      else if st = ''passwordRequired'' then 6 else if st = ''idempotencyConflict'' then 7
      else if st = ''duplicate'' then 8 else if st = ''queueFull'' then 9 else 0)"

definition bump_to_status_sql :: "int \<Rightarrow> string" where
  "bump_to_status_sql b =
     (if b = 1 then ''ok'' else if b = 2 then ''empty'' else if b = 3 then ''notFound''
      else if b = 4 then ''lastOwner'' else if b = 5 then ''claimInvalid''
      else if b = 6 then ''passwordRequired'' else if b = 7 then ''idempotencyConflict''
      else if b = 8 then ''duplicate'' else if b = 9 then ''queueFull'' else ''claimInvalid'')"

definition snapshot_outcome_insert :: "ReceiptCtx \<Rightarrow> ('d, 'p) atomic_db \<Rightarrow> ('d, 'p) atomic_db" where
  "snapshot_outcome_insert ctx s =
     (let key = outcome_scratch_key (ctx_operation_id ctx) in
      if has_receipt (ctx_operation_id ctx) s \<or> key \<in> fst ` set (a_slots s) then s
      else s\<lparr>a_slots := a_slots s @ [(key, 0)]\<rparr>)"

definition snapshot_outcome_update ::
  "ReceiptCtx \<Rightarrow> ('d \<Rightarrow> string) \<Rightarrow> ('d, 'p) atomic_db \<Rightarrow> ('d, 'p) atomic_db" where
  "snapshot_outcome_update ctx outcome s =
     s\<lparr>a_slots :=
         update_many (\<lambda>x. fst x = outcome_scratch_key (ctx_operation_id ctx) \<and> snd x = 0)
           (\<lambda>x. (fst x, status_to_bump_sql (outcome (a_data s)))) (a_slots s)\<rparr>"

definition receipt_insert_from_snapshot :: "ReceiptCtx \<Rightarrow> ('d, 'p) atomic_db \<Rightarrow> ('d, 'p) atomic_db" where
  "receipt_insert_from_snapshot ctx s =
     (case find_by fst (outcome_scratch_key (ctx_operation_id ctx)) (a_slots s) of
        None \<Rightarrow> s
      | Some x \<Rightarrow>
          if has_receipt (ctx_operation_id ctx) s then s
          else s\<lparr>a_receipts := a_receipts s @
                   [\<lparr>rc_operation_id = ctx_operation_id ctx, rc_operation_kind = ctx_kind ctx,
                     rc_request_hash = ctx_request_hash ctx, rc_status = bump_to_status_sql (snd x),
                     rc_payload = None, rc_created_at = ctx_now ctx,
                     rc_expires_at = ctx_expires_at ctx, rc_consume_key = None\<rparr>]\<rparr>)"

definition clear_outcome_snapshot :: "ReceiptCtx \<Rightarrow> ('d, 'p) atomic_db \<Rightarrow> ('d, 'p) atomic_db" where
  "clear_outcome_snapshot ctx s =
     s\<lparr>a_slots := delete_many (\<lambda>x. fst x = outcome_scratch_key (ctx_operation_id ctx)) (a_slots s)\<rparr>"

definition payload_statuses :: "PayloadKind \<Rightarrow> string set" where
  "payload_statuses k =
     (case k of PayloadNone \<Rightarrow> {} | PayloadUser \<Rightarrow> {''ok''} | PayloadIdentity \<Rightarrow> {''ok''}
              | JsonFromPlan \<Rightarrow> {''ok'', ''duplicate''})"

definition receipt_payload_update ::
  "ReceiptCtx \<Rightarrow> PayloadKind \<Rightarrow> ('d \<Rightarrow> 'p option) option \<Rightarrow> ('d, 'p) atomic_db \<Rightarrow> ('d, 'p) atomic_db" where
  "receipt_payload_update ctx k payload s =
     (case payload of
        None \<Rightarrow> s
      | Some sel \<Rightarrow>
          s\<lparr>a_receipts :=
              update_many
                (\<lambda>r. rc_operation_id r = ctx_operation_id ctx \<and> rc_status r \<in> payload_statuses k
                     \<and> rc_payload r = None)
                (\<lambda>r. r\<lparr>rc_payload := sel (a_data s)\<rparr>) (a_receipts s)\<rparr>)"

section \<open>The wrapped batch\<close>

fun run_gated :: "(('d, 'p) atomic_db \<Rightarrow> ('d, 'p) atomic_db option) list
   \<Rightarrow> ('d, 'p) atomic_db \<Rightarrow> ('d, 'p) atomic_db option" where
  "run_gated [] s = Some s"
| "run_gated (w # ws) s = (case w s of None \<Rightarrow> None | Some s' \<Rightarrow> run_gated ws s')"

text \<open>The final state, the receipt found before the writes and the receipt found after them.\<close>

definition wrap_status_op ::
  "('d, 'p) AtomicPlan \<Rightarrow> ReceiptCtx \<Rightarrow> PayloadKind \<Rightarrow> ('d, 'p) atomic_db
   \<Rightarrow> (('d, 'p) atomic_db \<times> 'p receipt_row option \<times> 'p receipt_row option) option" where
  "wrap_status_op plan ctx k s =
     (let op = ctx_operation_id ctx;
          s0 = prune_receipts ctx s;
          prior = select_receipt ctx s0
      in case run_gated (map (\<lambda>w. gate_write w op) (plan_before plan)) s0 of
           None \<Rightarrow> None
         | Some s1 \<Rightarrow>
           (let s2 = snapshot_outcome_update ctx (plan_outcome plan) (snapshot_outcome_insert ctx s1)
            in case run_gated
                      (map (\<lambda>w. gate_write_when_outcome_ok w op (plan_outcome plan)) (plan_after plan)) s2 of
                 None \<Rightarrow> None
               | Some s3 \<Rightarrow>
                 (let s4 = clear_outcome_snapshot ctx (receipt_insert_from_snapshot ctx s3);
                      s5 = receipt_payload_update ctx k (plan_payload plan) s4
                  in Some (s5, prior, select_receipt ctx s5))))"

definition with_status :: "string \<Rightarrow> 'p DbAtomicResult" where
  "with_status st =
     \<lparr>res_status = st, res_payload = None, res_replayed = False, res_receipt_created_at = None\<rparr>"

definition interpret_receipt :: "'p receipt_row option \<Rightarrow> string \<Rightarrow> bool \<Rightarrow> 'p DbAtomicResult" where
  "interpret_receipt row expected_hash replayed =
     (case row of
        None \<Rightarrow> with_status ''empty''
      | Some r \<Rightarrow>
          if rc_request_hash r \<noteq> expected_hash then with_status ''idempotencyConflict''
          else \<lparr>res_status = rc_status r,
                res_payload = (if rc_status r = ''ok'' then rc_payload r else None),
                res_replayed = replayed, res_receipt_created_at = Some (rc_created_at r)\<rparr>)"

text \<open>A reply that carries a prior-receipt row is decoded from it, otherwise from the last row.\<close>

definition interpret_selection ::
  "'p receipt_row option \<Rightarrow> 'p receipt_row option \<Rightarrow> string \<Rightarrow> 'p DbAtomicResult" where
  "interpret_selection prior receipt expected_hash =
     (case prior of
        Some r \<Rightarrow> interpret_receipt (Some r) expected_hash True
      | None \<Rightarrow> interpret_receipt receipt expected_hash False)"

definition execute_named ::
  "('d, 'p) AtomicPlan \<Rightarrow> ReceiptCtx \<Rightarrow> PayloadKind \<Rightarrow> ('d, 'p) atomic_db
   \<Rightarrow> (('d, 'p) atomic_db \<times> 'p DbAtomicResult) option" where
  "execute_named plan ctx k s =
     map_option (\<lambda>(s', prior, receipt). (s', interpret_selection prior receipt (ctx_request_hash ctx)))
       (wrap_status_op plan ctx k s)"

section \<open>Consume-once batches\<close>

text \<open>
  \<open>wrap_consume\<close> over a table of rows \<open>'r\<close> with a key predicate, an expiry and a JSON rendering.
  \<open>INSERT OR IGNORE\<close> skips a row that would repeat an operation id or a consume key.
\<close>

definition consume_receipt ::
  "ReceiptCtx \<Rightarrow> ('r \<Rightarrow> timestamp) \<Rightarrow> ('r \<Rightarrow> 'p) \<Rightarrow> string \<Rightarrow> 'r \<Rightarrow> 'p receipt_row" where
  "consume_receipt ctx expires ok_json consume_key d =
     \<lparr>rc_operation_id = ctx_operation_id ctx, rc_operation_kind = ctx_kind ctx,
      rc_request_hash = ctx_request_hash ctx,
      rc_status = (if expires d \<le> ctx_now ctx then ''empty'' else ''ok''),
      rc_payload = (if expires d \<le> ctx_now ctx then None else Some (ok_json d)),
      rc_created_at = ctx_now ctx, rc_expires_at = ctx_expires_at ctx,
      rc_consume_key = Some consume_key\<rparr>"

definition empty_receipt :: "ReceiptCtx \<Rightarrow> 'p receipt_row" where
  "empty_receipt ctx =
     \<lparr>rc_operation_id = ctx_operation_id ctx, rc_operation_kind = ctx_kind ctx,
      rc_request_hash = ctx_request_hash ctx, rc_status = ''empty'', rc_payload = None,
      rc_created_at = ctx_now ctx, rc_expires_at = ctx_expires_at ctx, rc_consume_key = None\<rparr>"

definition insert_or_ignore :: "'p receipt_row \<Rightarrow> 'p receipt_row list \<Rightarrow> 'p receipt_row list" where
  "insert_or_ignore row rs =
     (if \<exists>r \<in> set rs. rc_operation_id r = rc_operation_id row
           \<or> rc_consume_key r \<noteq> None \<and> rc_consume_key r = rc_consume_key row
      then rs else rs @ [row])"

definition wrap_consume ::
  "ReceiptCtx \<Rightarrow> ('r \<Rightarrow> bool) \<Rightarrow> ('r \<Rightarrow> timestamp) \<Rightarrow> ('r \<Rightarrow> 'p) \<Rightarrow> string
   \<Rightarrow> ('r list, 'p) atomic_db
   \<Rightarrow> ('r list, 'p) atomic_db \<times> 'p receipt_row option \<times> 'p receipt_row option" where
  "wrap_consume ctx where_sql expires ok_json consume_key s =
     (let op = ctx_operation_id ctx;
          s0 = prune_receipts ctx s;
          prior = select_receipt ctx s0;
          s1 = (if has_receipt op s0 then s0
                else s0\<lparr>a_receipts :=
                       fold insert_or_ignore
                         (map (consume_receipt ctx expires ok_json consume_key)
                            (filter where_sql (a_data s0))) (a_receipts s0)\<rparr>);
          claimed = (\<exists>r \<in> set (a_receipts s1). rc_operation_id r = op \<and> rc_created_at r = ctx_now ctx);
          s2 = (if claimed then s1\<lparr>a_data := delete_many where_sql (a_data s1)\<rparr> else s1);
          s3 = (if has_receipt op s2 then s2
                else s2\<lparr>a_receipts := a_receipts s2 @ [empty_receipt ctx]\<rparr>)
      in (s3, prior, select_receipt ctx s3))"

definition execute_consume ::
  "ReceiptCtx \<Rightarrow> ('r \<Rightarrow> bool) \<Rightarrow> ('r \<Rightarrow> timestamp) \<Rightarrow> ('r \<Rightarrow> 'p) \<Rightarrow> string
   \<Rightarrow> ('r list, 'p) atomic_db \<Rightarrow> ('r list, 'p) atomic_db \<times> 'p DbAtomicResult" where
  "execute_consume ctx where_sql expires ok_json consume_key s =
     (case wrap_consume ctx where_sql expires ok_json consume_key s of
        (s', prior, receipt) \<Rightarrow> (s', interpret_selection prior receipt (ctx_request_hash ctx)))"

end
