(* ===== verification/Receipt_Laws.thy ===== *)
theory Receipt_Laws
  imports Atomic_Receipt
begin

text \<open>
  What the receipt envelope promises: a retried operation is answered from its receipt and changes
  nothing, whatever other batches ran in between; a fresh operation runs its plan once and is
  answered from the outcome recorded before the later writes.
\<close>

section \<open>The contract of a replay log\<close>

text \<open>
  \<open>exec op now s s' e\<close>: operation \<open>op\<close> runs at instant \<open>now\<close> from \<open>s\<close> to \<open>s'\<close> and is answered from the log
  entry \<open>e\<close>; \<open>other op now s s'\<close>: a batch of some other operation runs.
\<close>

locale replay_log =
  fixes entry :: "'s \<Rightarrow> string \<Rightarrow> 'e option"
    and data :: "'s \<Rightarrow> 'd"
    and expires :: "'e \<Rightarrow> timestamp"
    and exec :: "string \<Rightarrow> timestamp \<Rightarrow> 's \<Rightarrow> 's \<Rightarrow> 'e \<Rightarrow> bool"
    and other :: "string \<Rightarrow> timestamp \<Rightarrow> 's \<Rightarrow> 's \<Rightarrow> bool"
  assumes exec_first: "exec op now s s' e \<Longrightarrow> entry s op = None \<Longrightarrow> entry s' op = Some e"
    and exec_retry: "exec op now s s' e \<Longrightarrow> entry s op = Some e0 \<Longrightarrow>
      e = e0 \<and> entry s' op = Some e0 \<and> data s' = data s"
    and other_keeps: "other op now s s' \<Longrightarrow> entry s op = Some e \<Longrightarrow> now < expires e \<Longrightarrow>
      entry s' op = Some e"
begin

text \<open>Other batches, and retries of \<open>op\<close> itself, before the instant \<open>limit\<close>.\<close>

inductive busy :: "string \<Rightarrow> timestamp \<Rightarrow> 's \<Rightarrow> 's \<Rightarrow> bool" for op limit where
  busy_none: "busy op limit s s"
| busy_other: "busy op limit s s' \<Longrightarrow> other op now s' s'' \<Longrightarrow> now < limit \<Longrightarrow> busy op limit s s''"
| busy_retry: "busy op limit s s' \<Longrightarrow> exec op now s' s'' e \<Longrightarrow> busy op limit s s''"

lemma exec_entry: "exec op now s s' e \<Longrightarrow> entry s' op = Some e"
  by (cases "entry s op") (auto dest: exec_first exec_retry)

lemma busy_keeps:
  assumes "busy op (expires e) s s'" and "entry s op = Some e"
  shows "entry s' op = Some e"
  using assms by (induction rule: busy.induct) (auto dest: other_keeps exec_retry)

theorem retry_same_answer:
  assumes "exec op now s s1 e" and "busy op (expires e) s1 s2" and "exec op now' s2 s3 e'"
  shows "e' = e \<and> data s3 = data s2"
proof -
  have "entry s1 op = Some e" using assms(1) by (rule exec_entry)
  with assms(2) have "entry s2 op = Some e" by (rule busy_keeps)
  with assms(3) show ?thesis using exec_retry by blast
qed

end

section \<open>Receipts\<close>

abbreviation receipt_of :: "('d, 'p) atomic_db \<Rightarrow> string \<Rightarrow> 'p receipt_row option" where
  "receipt_of s op \<equiv> find_by rc_operation_id op (a_receipts s)"

lemma has_receipt_iff: "has_receipt op s \<longleftrightarrow> receipt_of s op \<noteq> None"
  by (auto simp: has_receipt_def find_by_None_iff)

lemma receipt_prune [simp]: "receipt_of (prune_receipts ctx s) (ctx_operation_id ctx) = receipt_of s (ctx_operation_id ctx)"
  by (simp add: prune_receipts_def delete_many_def find_by_filter)

lemma receipt_prune_other:
  "receipt_of s op = Some r \<Longrightarrow> ctx_now ctx < rc_expires_at r \<Longrightarrow> receipt_of (prune_receipts ctx s) op = Some r"
  by (auto simp: prune_receipts_def delete_many_def intro!: find_by_filter_keep)

text \<open>Only the receipt insertion and the payload update touch receipts after the prune.\<close>

lemma gate_write_keeps:
  "gate_write w op s = Some s' \<Longrightarrow> a_receipts s' = a_receipts s \<and> a_slots s' = a_slots s"
  "gate_write_when_outcome_ok w op outcome s = Some s' \<Longrightarrow>
     a_receipts s' = a_receipts s \<and> a_slots s' = a_slots s"
  by (auto simp: gate_write_def gate_write_when_outcome_ok_def split: if_splits)

lemma run_gated_keeps:
  assumes "run_gated ws s = Some s'"
    and "\<And>w t t'. w \<in> set ws \<Longrightarrow> w t = Some t' \<Longrightarrow> a_receipts t' = a_receipts t \<and> a_slots t' = a_slots t"
  shows "a_receipts s' = a_receipts s \<and> a_slots s' = a_slots s"
  using assms by (induction ws s rule: run_gated.induct) (fastforce split: option.splits)+

lemma run_gated_before_keeps:
  "run_gated (map (\<lambda>w. gate_write w op) ws) s = Some s' \<Longrightarrow>
     a_receipts s' = a_receipts s \<and> a_slots s' = a_slots s"
  by (erule run_gated_keeps) (auto dest: gate_write_keeps)

lemma run_gated_after_keeps:
  "run_gated (map (\<lambda>w. gate_write_when_outcome_ok w op outcome) ws) s = Some s' \<Longrightarrow>
     a_receipts s' = a_receipts s \<and> a_slots s' = a_slots s"
  by (erule run_gated_keeps) (auto dest: gate_write_keeps)

text \<open>With a receipt for the operation, no gated write runs.\<close>

lemma run_gated_blocked:
  assumes "has_receipt op s"
  shows "run_gated (map (\<lambda>w. gate_write w op) ws) s = Some s"
    and "run_gated (map (\<lambda>w. gate_write_when_outcome_ok w op outcome) ws) s = Some s"
  using assms by (induction ws) (auto simp: gate_write_def gate_write_when_outcome_ok_def)

lemma snapshot_keeps [simp]:
  "a_receipts (snapshot_outcome_insert ctx s) = a_receipts s" "a_data (snapshot_outcome_insert ctx s) = a_data s"
  "a_receipts (snapshot_outcome_update ctx oc s) = a_receipts s" "a_data (snapshot_outcome_update ctx oc s) = a_data s"
  "a_receipts (clear_outcome_snapshot ctx s) = a_receipts s" "a_data (clear_outcome_snapshot ctx s) = a_data s"
  "a_data (receipt_insert_from_snapshot ctx s) = a_data s" "a_data (receipt_payload_update ctx k p s) = a_data s"
  "a_data (prune_receipts ctx s) = a_data s" "a_slots (prune_receipts ctx s) = a_slots s"
  by (simp_all add: snapshot_outcome_insert_def snapshot_outcome_update_def clear_outcome_snapshot_def
      receipt_insert_from_snapshot_def receipt_payload_update_def prune_receipts_def Let_def
      split: option.split)

lemma snapshot_update_keys [simp]:
  "fst ` set (a_slots (snapshot_outcome_update ctx oc s)) = fst ` set (a_slots s)"
proof -
  have "map fst (a_slots (snapshot_outcome_update ctx oc s)) = map fst (a_slots s)"
    by (simp add: snapshot_outcome_update_def map_update_many_key)
  then show ?thesis by (metis set_map)
qed

lemma has_receipt_cong: "a_receipts s' = a_receipts s \<Longrightarrow> has_receipt op s' = has_receipt op s"
  by (simp add: has_receipt_def)

lemma receipt_insert_keeps:
  "receipt_of s op = Some r \<Longrightarrow> receipt_of (receipt_insert_from_snapshot ctx s) op = Some r"
  by (auto simp: receipt_insert_from_snapshot_def find_by_append split: option.split)

lemma receipt_payload_update_of:
  "receipt_of (receipt_payload_update ctx k p s) op =
     map_option (\<lambda>r. case p of None \<Rightarrow> r | Some sel \<Rightarrow>
        if rc_operation_id r = ctx_operation_id ctx \<and> rc_status r \<in> payload_statuses k \<and> rc_payload r = None
        then r\<lparr>rc_payload := sel (a_data s)\<rparr> else r) (receipt_of s op)"
  by (cases p) (simp_all add: receipt_payload_update_def find_by_update_many option.map_ident)

section \<open>Retries and other batches\<close>

lemma wrap_status_op_retry:
  assumes "receipt_of s (ctx_operation_id ctx) = Some r"
  shows "\<exists>s'. wrap_status_op plan ctx k s = Some (s', Some r, receipt_of s' (ctx_operation_id ctx))
    \<and> a_data s' = a_data s
    \<and> receipt_of s' (ctx_operation_id ctx) = Some (case plan_payload plan of None \<Rightarrow> r | Some sel \<Rightarrow>
        if rc_status r \<in> payload_statuses k \<and> rc_payload r = None
        then r\<lparr>rc_payload := sel (a_data s)\<rparr> else r)"
proof -
  let ?op = "ctx_operation_id ctx" and ?s0 = "prune_receipts ctx s"
  have r0: "receipt_of ?s0 ?op = Some r" using assms by simp
  then have has: "has_receipt ?op ?s0" by (simp add: has_receipt_iff)
  let ?s2 = "snapshot_outcome_update ctx (plan_outcome plan) (snapshot_outcome_insert ctx ?s0)"
  have has2: "has_receipt ?op ?s2" using has by (simp add: has_receipt_def)
  let ?s4 = "clear_outcome_snapshot ctx (receipt_insert_from_snapshot ctx ?s2)"
  have r4: "receipt_of ?s4 ?op = Some r" using r0 by (simp add: receipt_insert_keeps)
  have "rc_operation_id r = ?op" using assms by (auto dest: find_by_SomeD)
  with r4 have "receipt_of (receipt_payload_update ctx k (plan_payload plan) ?s4) ?op =
      Some (case plan_payload plan of None \<Rightarrow> r | Some sel \<Rightarrow>
        if rc_status r \<in> payload_statuses k \<and> rc_payload r = None
        then r\<lparr>rc_payload := sel (a_data s)\<rparr> else r)"
    by (simp add: receipt_payload_update_of split: option.split)
  then show ?thesis
    unfolding wrap_status_op_def Let_def run_gated_blocked(1) [OF has] run_gated_blocked(2) [OF has2]
      select_receipt_def r0 option.case
    by (intro exI conjI) (auto simp: r0)
qed

lemma wrap_status_op_first:
  assumes "wrap_status_op plan ctx k s = Some (s', prior, final)"
    and "receipt_of s (ctx_operation_id ctx) = None"
  shows "prior = None \<and> (\<exists>r. final = Some r \<and> receipt_of s' (ctx_operation_id ctx) = Some r
    \<and> rc_expires_at r = ctx_expires_at ctx \<and> rc_request_hash r = ctx_request_hash ctx)"
proof -
  let ?op = "ctx_operation_id ctx" and ?s0 = "prune_receipts ctx s"
  have s0: "receipt_of ?s0 ?op = None" using assms(2) by simp
  obtain s1 s3 where s1: "run_gated (map (\<lambda>w. gate_write w ?op) (plan_before plan)) ?s0 = Some s1"
    and s3: "run_gated (map (\<lambda>w. gate_write_when_outcome_ok w ?op (plan_outcome plan)) (plan_after plan))
        (snapshot_outcome_update ctx (plan_outcome plan) (snapshot_outcome_insert ctx s1)) = Some s3"
    and s': "s' = receipt_payload_update ctx k (plan_payload plan)
        (clear_outcome_snapshot ctx (receipt_insert_from_snapshot ctx s3))"
    and pf: "prior = receipt_of ?s0 ?op" "final = receipt_of s' ?op"
    using assms(1) by (auto simp: wrap_status_op_def Let_def select_receipt_def split: option.splits)
  have rec3: "a_receipts s3 = a_receipts ?s0" and slots3: "a_slots s3 =
      a_slots (snapshot_outcome_update ctx (plan_outcome plan) (snapshot_outcome_insert ctx s1))"
    using run_gated_before_keeps [OF s1] run_gated_after_keeps [OF s3] by simp_all
  have "\<not> has_receipt ?op s1" using run_gated_before_keeps [OF s1] s0 by (simp add: has_receipt_iff)
  then have "outcome_scratch_key ?op \<in> fst ` set (a_slots (snapshot_outcome_insert ctx s1))"
    by (auto simp: snapshot_outcome_insert_def Let_def)
  then have "outcome_scratch_key ?op \<in> fst ` set (a_slots s3)"
    by (simp add: slots3)
  then obtain x where "find_by fst (outcome_scratch_key ?op) (a_slots s3) = Some x"
    by (metis find_by_None_iff imageE not_None_eq)
  moreover have "\<not> has_receipt ?op s3" using s0 rec3 by (simp add: has_receipt_iff)
  ultimately obtain r where "receipt_of (receipt_insert_from_snapshot ctx s3) ?op = Some r"
    and "rc_expires_at r = ctx_expires_at ctx" "rc_request_hash r = ctx_request_hash ctx"
    by (auto simp: receipt_insert_from_snapshot_def has_receipt_iff find_by_append) (auto simp: find_by_def)
  then have "\<exists>r. receipt_of s' ?op = Some r \<and> rc_expires_at r = ctx_expires_at ctx
      \<and> rc_request_hash r = ctx_request_hash ctx"
    by (auto simp: s' receipt_payload_update_of split: option.split)
  with pf s0 show ?thesis by auto
qed

lemma wrap_status_op_other:
  assumes "wrap_status_op plan ctx k s = Some (s', prior, final)"
    and "ctx_operation_id ctx \<noteq> op" and "receipt_of s op = Some r" and "ctx_now ctx < rc_expires_at r"
  shows "receipt_of s' op = Some r"
proof -
  let ?op = "ctx_operation_id ctx" and ?s0 = "prune_receipts ctx s"
  obtain s1 s3 where s1: "run_gated (map (\<lambda>w. gate_write w ?op) (plan_before plan)) ?s0 = Some s1"
    and s3: "run_gated (map (\<lambda>w. gate_write_when_outcome_ok w ?op (plan_outcome plan)) (plan_after plan))
        (snapshot_outcome_update ctx (plan_outcome plan) (snapshot_outcome_insert ctx s1)) = Some s3"
    and s': "s' = receipt_payload_update ctx k (plan_payload plan)
        (clear_outcome_snapshot ctx (receipt_insert_from_snapshot ctx s3))"
    using assms(1) by (auto simp: wrap_status_op_def Let_def split: option.splits)
  have "receipt_of s3 op = receipt_of ?s0 op"
    using run_gated_before_keeps [OF s1] run_gated_after_keeps [OF s3] by simp
  also have "\<dots> = Some r" by (rule receipt_prune_other [OF assms(3,4)])
  finally have "receipt_of (receipt_insert_from_snapshot ctx s3) op = Some r"
    by (rule receipt_insert_keeps)
  moreover have "rc_operation_id r = op" using assms(3) by (auto dest: find_by_SomeD)
  ultimately show ?thesis using assms(2) by (simp add: s' receipt_payload_update_of split: option.split)
qed

definition settled :: "PayloadKind \<Rightarrow> bool \<Rightarrow> 'p receipt_row \<Rightarrow> bool" where
  "settled k has_payload r \<longleftrightarrow> (has_payload \<and> rc_status r \<in> payload_statuses k \<longrightarrow> rc_payload r \<noteq> None)"

definition named_exec ::
  "PayloadKind \<Rightarrow> bool \<Rightarrow> string \<Rightarrow> timestamp \<Rightarrow> ('d, 'p) atomic_db \<Rightarrow> ('d, 'p) atomic_db
   \<Rightarrow> 'p receipt_row \<Rightarrow> bool" where
  "named_exec k has_payload op now s s' e \<longleftrightarrow>
     (\<exists>plan ctx prior final. ctx_operation_id ctx = op \<and> ctx_now ctx = now
        \<and> (plan_payload plan \<noteq> None) = has_payload
        \<and> wrap_status_op plan ctx k s = Some (s', prior, final)
        \<and> (case prior of Some r \<Rightarrow> e = r | None \<Rightarrow> final = Some e) \<and> settled k has_payload e)"

definition named_other :: "string \<Rightarrow> timestamp \<Rightarrow> ('d, 'p) atomic_db \<Rightarrow> ('d, 'p) atomic_db \<Rightarrow> bool" where
  "named_other op now s s' \<longleftrightarrow>
     (\<exists>plan ctx k prior final. ctx_operation_id ctx \<noteq> op \<and> ctx_now ctx = now
        \<and> wrap_status_op plan ctx k s = Some (s', prior, final))"

interpretation named_log: replay_log "\<lambda>s op. receipt_of s op" a_data rc_expires_at "named_exec k has_payload"
  named_other for k has_payload
proof (unfold_locales, goal_cases)
  case (1 op now s s' e)
  then obtain plan ctx prior final where ctx: "ctx_operation_id ctx = op"
    and run: "wrap_status_op plan ctx k s = Some (s', prior, final)"
    and e: "case prior of Some r \<Rightarrow> e = r | None \<Rightarrow> final = Some e"
    by (auto simp: named_exec_def)
  from wrap_status_op_first [OF run] 1(2) ctx have "prior = None \<and> final = receipt_of s' op" by auto
  with e show ?case by simp
next
  case (2 op now s s' e e0)
  then obtain plan ctx prior final where ctx: "ctx_operation_id ctx = op"
    and run: "wrap_status_op plan ctx k s = Some (s', prior, final)"
    and e: "case prior of Some r \<Rightarrow> e = r | None \<Rightarrow> final = Some e"
    and pl: "(plan_payload plan \<noteq> None) = has_payload" and settled: "settled k has_payload e"
    by (auto simp: named_exec_def)
  from wrap_status_op_retry [where s = s and ctx = ctx and r = e0 and plan = plan and k = k] 2(2) ctx run e pl settled show ?case
    by (auto simp: settled_def split: option.splits)
next
  case (3 op now s s' e)
  then show ?case by (auto simp: named_other_def intro: wrap_status_op_other)
qed

section \<open>The first execution\<close>

fun run_writes :: "('d \<Rightarrow> 'd option) list \<Rightarrow> 'd \<Rightarrow> 'd option" where
  "run_writes [] d = Some d"
| "run_writes (w # ws) d = (case w d of None \<Rightarrow> None | Some d' \<Rightarrow> run_writes ws d')"

text \<open>Writes after the status run only while the live status is \<open>ok\<close>.\<close>

definition guarded :: "('d \<Rightarrow> string) \<Rightarrow> ('d \<Rightarrow> 'd option) \<Rightarrow> 'd \<Rightarrow> 'd option" where
  "guarded outcome w d = (if outcome d = ''ok'' then w d else Some d)"

definition run_plan :: "('d, 'p) AtomicPlan \<Rightarrow> 'd \<Rightarrow> ('d \<times> string) option" where
  "run_plan plan d =
     (case run_writes (plan_before plan) d of
        None \<Rightarrow> None
      | Some d1 \<Rightarrow>
          map_option (\<lambda>d2. (d2, plan_outcome plan d1))
            (run_writes (map (guarded (plan_outcome plan)) (plan_after plan)) d1))"

definition recorded_status :: "string \<Rightarrow> string" where
  "recorded_status st = bump_to_status_sql (status_to_bump_sql st)"

definition first_reply ::
  "ReceiptCtx \<Rightarrow> PayloadKind \<Rightarrow> string \<Rightarrow> 'p option \<Rightarrow> 'p DbAtomicResult" where
  "first_reply ctx k st payload =
     \<lparr>res_status = recorded_status st,
      res_payload = (if recorded_status st = ''ok'' \<and> ''ok'' \<in> payload_statuses k then payload else None),
      res_replayed = False, res_receipt_created_at = Some (ctx_now ctx)\<rparr>"

definition plan_result :: "('d, 'p) AtomicPlan \<Rightarrow> 'd \<Rightarrow> 'p option" where
  "plan_result plan d = (case plan_payload plan of None \<Rightarrow> None | Some sel \<Rightarrow> sel d)"

lemma run_gated_open:
  assumes "\<not> has_receipt op s"
  shows "run_gated (map (\<lambda>w. gate_write w op) ws) s =
    map_option (\<lambda>d. s\<lparr>a_data := d\<rparr>) (run_writes ws (a_data s))"
  using assms
proof (induction ws arbitrary: s)
  case (Cons w ws)
  then have "\<not> has_receipt op (s\<lparr>a_data := d\<rparr>)" for d by (simp add: has_receipt_def)
  with Cons show ?case by (simp add: gate_write_def split: option.split)
qed simp

lemma run_gated_after_open:
  assumes "\<not> has_receipt op s"
  shows "run_gated (map (\<lambda>w. gate_write_when_outcome_ok w op outcome) ws) s =
    map_option (\<lambda>d. s\<lparr>a_data := d\<rparr>) (run_writes (map (guarded outcome) ws) (a_data s))"
  using assms
proof (induction ws arbitrary: s)
  case (Cons w ws)
  then have "\<not> has_receipt op (s\<lparr>a_data := d\<rparr>)" for d by (simp add: has_receipt_def)
  with Cons show ?case by (simp add: gate_write_when_outcome_ok_def guarded_def split: option.split)
qed simp

definition new_receipt :: "ReceiptCtx \<Rightarrow> PayloadKind \<Rightarrow> string \<Rightarrow> 'p option \<Rightarrow> 'p receipt_row" where
  "new_receipt ctx k st payload =
     \<lparr>rc_operation_id = ctx_operation_id ctx, rc_operation_kind = ctx_kind ctx,
      rc_request_hash = ctx_request_hash ctx, rc_status = recorded_status st,
      rc_payload = (if recorded_status st \<in> payload_statuses k then payload else None),
      rc_created_at = ctx_now ctx, rc_expires_at = ctx_expires_at ctx, rc_consume_key = None\<rparr>"

lemma execute_named_first:
  assumes none: "receipt_of s (ctx_operation_id ctx) = None"
    and key: "outcome_scratch_key (ctx_operation_id ctx) \<notin> fst ` set (a_slots s)"
  shows "execute_named plan ctx k s =
    (case run_plan plan (a_data s) of
       None \<Rightarrow> None
     | Some (d, st) \<Rightarrow>
         Some (\<lparr>a_data = d,
                a_receipts = a_receipts (prune_receipts ctx s) @ [new_receipt ctx k st (plan_result plan d)],
                a_slots = a_slots s\<rparr>,
               first_reply ctx k st (plan_result plan d)))"
proof -
  let ?op = "ctx_operation_id ctx" and ?s0 = "prune_receipts ctx s"
  let ?key = "outcome_scratch_key ?op" and ?oc = "plan_outcome plan"
  have s0: "receipt_of ?s0 ?op = None" using none by simp
  have key': "\<And>x. x \<in> set (a_slots s) \<Longrightarrow> fst x \<noteq> ?key" using key by force
  have absent: "\<And>r. r \<in> set (a_receipts ?s0) \<Longrightarrow> rc_operation_id r \<noteq> ?op"
    using s0 unfolding find_by_None_iff by blast
  have open0: "\<not> has_receipt ?op (?s0\<lparr>a_data := d\<rparr>)" for d using absent by (auto simp: has_receipt_def)
  have slots: "a_slots (snapshot_outcome_update ctx ?oc (snapshot_outcome_insert ctx (?s0\<lparr>a_data := d\<rparr>)))
      = a_slots s @ [(?key, status_to_bump_sql (?oc d))]" for d
    using open0 key
    by (auto simp: snapshot_outcome_insert_def snapshot_outcome_update_def Let_def update_many_def image_iff
        intro!: map_idI)
  have open2: "\<not> has_receipt ?op (snapshot_outcome_update ctx ?oc
      (snapshot_outcome_insert ctx (?s0\<lparr>a_data := d\<rparr>)))" for d
    using absent by (auto simp: has_receipt_def)
  have final: "receipt_payload_update ctx k (plan_payload plan) (clear_outcome_snapshot ctx
      (receipt_insert_from_snapshot ctx (t\<lparr>a_data := d\<rparr>))) =
      \<lparr>a_data = d, a_receipts = a_receipts ?s0 @ [new_receipt ctx k st (plan_result plan d)], a_slots = a_slots s\<rparr>"
    if t: "a_receipts t = a_receipts ?s0" "a_slots t = a_slots s @ [(?key, status_to_bump_sql st)]" for t d st
  proof -
    have "find_by fst ?key (a_slots t) = Some (?key, status_to_bump_sql st)"
      unfolding t(2) using key' by (intro find_by_absent_append) auto
    moreover have "\<not> has_receipt ?op (t\<lparr>a_data := d\<rparr>)" using absent t(1) by (auto simp: has_receipt_def)
    moreover have "delete_many (\<lambda>x. fst x = ?key) (a_slots t) = a_slots s"
      unfolding t(2) delete_many_def using key' by (auto intro!: filter_True)
    moreover have "update_many (\<lambda>r. rc_operation_id r = ?op \<and> Q r) f (a_receipts ?s0) = a_receipts ?s0" for Q f
      using absent by (intro update_many_id) auto
    ultimately show ?thesis
      using t(1) by (cases t, cases "plan_payload plan")
        (auto simp: receipt_insert_from_snapshot_def clear_outcome_snapshot_def receipt_payload_update_def
          new_receipt_def plan_result_def recorded_status_def update_many_def)
  qed
  have sel: "find_by rc_operation_id ?op (a_receipts ?s0 @ [new_receipt ctx k st x])
      = Some (new_receipt ctx k st x)" for st x
    using absent by (simp add: find_by_absent_append new_receipt_def)
  have reply: "interpret_selection None (Some (new_receipt ctx k st x)) (ctx_request_hash ctx) = first_reply ctx k st x"
    for st x
    by (auto simp: interpret_selection_def interpret_receipt_def new_receipt_def first_reply_def)
  have open1: "\<not> has_receipt ?op ?s0" using absent by (auto simp: has_receipt_def)
  show ?thesis
  proof (cases "run_writes (plan_before plan) (a_data s)")
    case None
    then show ?thesis
      by (simp add: execute_named_def wrap_status_op_def Let_def run_gated_open [OF open1] run_plan_def)
  next
    case (Some d1)
    let ?t = "snapshot_outcome_update ctx ?oc (snapshot_outcome_insert ctx (?s0\<lparr>a_data := d1\<rparr>))"
    note fin = final [of ?t "?oc d1", OF _ slots]
    from Some show ?thesis
      by (cases "run_writes (map (guarded ?oc) (plan_after plan)) d1")
        (simp_all add: execute_named_def wrap_status_op_def Let_def run_gated_open [OF open1]
          run_gated_after_open [OF open2] run_plan_def fin select_receipt_def none sel reply)
  qed
qed

section \<open>Retries of named operations\<close>

text \<open>Some batch of another operation runs before the instant \<open>limit\<close>.\<close>

definition other_batch :: "string \<Rightarrow> timestamp \<Rightarrow> ('d, 'p) atomic_db \<Rightarrow> ('d, 'p) atomic_db \<Rightarrow> bool" where
  "other_batch op limit s s' \<longleftrightarrow> (\<exists>now < limit. named_other op now s s')"

lemma other_batches_busy:
  "(other_batch op limit)\<^sup>*\<^sup>* s s' \<Longrightarrow> named_log.busy k has_payload op limit s s'"
  by (induction rule: rtranclp_induct)
    (auto simp: other_batch_def intro: named_log.busy_none named_log.busy_other)

lemma execute_named_exec:
  assumes "execute_named plan ctx k s = Some (s', res)" and "receipt_of s (ctx_operation_id ctx) = None"
    and "\<And>r. receipt_of s' (ctx_operation_id ctx) = Some r \<Longrightarrow> settled k (plan_payload plan \<noteq> None) r"
  obtains r where "named_exec k (plan_payload plan \<noteq> None) (ctx_operation_id ctx) (ctx_now ctx) s s' r"
    and "receipt_of s' (ctx_operation_id ctx) = Some r"
    and "rc_expires_at r = ctx_expires_at ctx" and "rc_request_hash r = ctx_request_hash ctx"
    and "res = interpret_receipt (Some r) (ctx_request_hash ctx) False"
proof -
  from assms(1) obtain prior final where run: "wrap_status_op plan ctx k s = Some (s', prior, final)"
    and res: "res = interpret_selection prior final (ctx_request_hash ctx)"
    by (auto simp: execute_named_def)
  from wrap_status_op_first [OF run assms(2)] obtain r where "prior = None" "final = Some r"
    "receipt_of s' (ctx_operation_id ctx) = Some r" "rc_expires_at r = ctx_expires_at ctx"
    "rc_request_hash r = ctx_request_hash ctx" by auto
  with run res assms(3) that show thesis
    by (fastforce simp: named_exec_def interpret_selection_def)
qed

lemma retry_reply:
  assumes first: "execute_named plan ctx k s = Some (s1, res)"
    and fresh: "receipt_of s (ctx_operation_id ctx) = None"
    and complete: "\<And>r. receipt_of s1 (ctx_operation_id ctx) = Some r \<Longrightarrow>
      settled k (plan_payload plan \<noteq> None) r"
    and others: "(other_batch (ctx_operation_id ctx) (ctx_expires_at ctx))\<^sup>*\<^sup>* s1 s2"
    and same: "ctx_operation_id ctx' = ctx_operation_id ctx" "ctx_request_hash ctx' = ctx_request_hash ctx"
      "(plan_payload plan' \<noteq> None) = (plan_payload plan \<noteq> None)"
  shows "\<exists>s3. execute_named plan' ctx' k s2 = Some (s3, res\<lparr>res_replayed := True\<rparr>) \<and> a_data s3 = a_data s2"
proof -
  let ?op = "ctx_operation_id ctx" and ?hp = "plan_payload plan \<noteq> None"
  obtain r where ex: "named_exec k ?hp ?op (ctx_now ctx) s s1 r" and r: "receipt_of s1 ?op = Some r"
    and exp: "rc_expires_at r = ctx_expires_at ctx" and hash: "rc_request_hash r = ctx_request_hash ctx"
    and res: "res = interpret_receipt (Some r) (ctx_request_hash ctx) False"
    using execute_named_exec [OF first fresh complete] .
  have "receipt_of s2 ?op = Some r"
    using named_log.busy_keeps [OF other_batches_busy r] others exp by metis
  then obtain s3 where s3: "wrap_status_op plan' ctx' k s2 = Some (s3, Some r, receipt_of s3 ?op)"
    and data: "a_data s3 = a_data s2"
    using wrap_status_op_retry [where s = s2 and ctx = ctx' and r = r and plan = plan' and k = k] same(1) by auto
  with hash data res same show ?thesis
    by (auto simp: execute_named_def interpret_selection_def interpret_receipt_def)
qed

text \<open>C34: A named operation that is sent again under the same operation id and request hash gets the
  answer of its first execution, marked as replayed, and changes nothing in the application tables;
  this holds after any number of batches of other operations that ran before the receipt expires.
  (The recorded answer must be complete: a status that carries a payload has one.)\<close>

theorem atomic_retry_same_reply:
  assumes first: "execute_named plan ctx k s = Some (s1, res)"
    and fresh: "receipt_of s (ctx_operation_id ctx) = None"
    and complete: "\<And>r. receipt_of s1 (ctx_operation_id ctx) = Some r \<Longrightarrow>
      settled k (plan_payload plan \<noteq> None) r"
    and others: "(other_batch (ctx_operation_id ctx) (ctx_expires_at ctx))\<^sup>*\<^sup>* s1 s2"
    and same: "ctx_operation_id ctx' = ctx_operation_id ctx" "ctx_request_hash ctx' = ctx_request_hash ctx"
      "(plan_payload plan' \<noteq> None) = (plan_payload plan \<noteq> None)"
  shows "\<exists>s3. execute_named plan' ctx' k s2 = Some (s3, res\<lparr>res_replayed := True\<rparr>) \<and> a_data s3 = a_data s2"
  using retry_reply [OF assms] .

text \<open>A one-row table, a batch that increments it and reports it, and another one.\<close>

definition demo_ctx :: "string \<Rightarrow> timestamp \<Rightarrow> ReceiptCtx" where
  "demo_ctx op now =
     \<lparr>ctx_operation_id = op, ctx_request_hash = ''h'', ctx_kind = ''demo'', ctx_now = now,
      ctx_expires_at = receipt_expiry now\<rparr>"

definition demo_plan :: "(int, int) AtomicPlan" where
  "demo_plan =
     \<lparr>plan_before = [\<lambda>n. Some (n + 1)], plan_outcome = (\<lambda>n. ''ok''), plan_after = [],
      plan_payload = Some Some\<rparr>"

definition demo_state :: "(int, int) atomic_db" where
  "demo_state = \<lparr>a_data = 0, a_receipts = [], a_slots = []\<rparr>"

lemma demo_execute:
  assumes "receipt_of s op = None" and "a_slots s = []"
  shows "execute_named demo_plan (demo_ctx op now) JsonFromPlan s =
    Some (\<lparr>a_data = a_data s + 1,
           a_receipts = a_receipts (prune_receipts (demo_ctx op now) s)
             @ [new_receipt (demo_ctx op now) JsonFromPlan ''ok'' (Some (a_data s + 1))],
           a_slots = []\<rparr>,
          first_reply (demo_ctx op now) JsonFromPlan ''ok'' (Some (a_data s + 1)))"
  using assms
  by (subst execute_named_first)
    (simp_all add: demo_ctx_def demo_plan_def run_plan_def plan_result_def)

definition demo_once :: "(int, int) atomic_db" where
  "demo_once = \<lparr>a_data = 1, a_receipts = [new_receipt (demo_ctx ''op'' 0) JsonFromPlan ''ok'' (Some 1)], a_slots = []\<rparr>"

definition demo_twice :: "(int, int) atomic_db" where
  "demo_twice =
     \<lparr>a_data = 2, a_receipts = [new_receipt (demo_ctx ''op'' 0) JsonFromPlan ''ok'' (Some 1),
        new_receipt (demo_ctx ''op2'' 1) JsonFromPlan ''ok'' (Some 2)], a_slots = []\<rparr>"

lemma demo_first: "execute_named demo_plan (demo_ctx ''op'' 0) JsonFromPlan demo_state
    = Some (demo_once, first_reply (demo_ctx ''op'' 0) JsonFromPlan ''ok'' (Some 1))"
  by (subst demo_execute) (simp_all add: demo_state_def demo_once_def find_by_def prune_receipts_def delete_many_def)

lemma demo_second: "execute_named demo_plan (demo_ctx ''op2'' 1) JsonFromPlan demo_once
    = Some (demo_twice, first_reply (demo_ctx ''op2'' 1) JsonFromPlan ''ok'' (Some 2))"
  by (subst demo_execute)
    (simp_all add: demo_once_def demo_twice_def find_by_def prune_receipts_def delete_many_def
      new_receipt_def demo_ctx_def receipt_expiry_def)

lemma demo_other: "other_batch ''op'' (receipt_expiry 0) demo_once demo_twice"
proof -
  obtain prior final where
    "wrap_status_op demo_plan (demo_ctx ''op2'' 1) JsonFromPlan demo_once = Some (demo_twice, prior, final)"
    using demo_second by (auto simp: execute_named_def)
  then have "named_other ''op'' 1 demo_once demo_twice"
    unfolding named_other_def
    by (intro exI [of _ demo_plan] exI [of _ "demo_ctx ''op2'' 1"] exI) (auto simp: demo_ctx_def)
  then show ?thesis unfolding other_batch_def by (intro exI [of _ 1]) (simp add: receipt_expiry_def)
qed

theorem atomic_retry_same_reply_witness:
  "\<exists>s3. execute_named demo_plan (demo_ctx ''op'' 7) JsonFromPlan demo_twice
      = Some (s3, (first_reply (demo_ctx ''op'' 0) JsonFromPlan ''ok'' (Some 1))\<lparr>res_replayed := True\<rparr>)
    \<and> a_data s3 = 2"
proof -
  have "(other_batch ''op'' (receipt_expiry 0))\<^sup>*\<^sup>* demo_once demo_twice" using demo_other by (rule r_into_rtranclp)
  then show ?thesis
    using atomic_retry_same_reply [OF demo_first, of demo_twice "demo_ctx ''op'' 7" demo_plan]
    by (simp add: demo_ctx_def demo_state_def demo_once_def find_by_def new_receipt_def settled_def)
      (simp add: demo_twice_def)
qed

text \<open>An operation id that comes back with a different request is refused as an idempotency
  conflict and changes nothing.\<close>

theorem reused_operation_id_conflicts:
  assumes "receipt_of s (ctx_operation_id ctx) = Some r" and "rc_request_hash r \<noteq> ctx_request_hash ctx"
  shows "\<exists>s'. execute_named plan ctx k s = Some (s', with_status ''idempotencyConflict'') \<and> a_data s' = a_data s"
  using wrap_status_op_retry [OF assms(1), of plan k] assms(2)
  by (auto simp: execute_named_def interpret_selection_def interpret_receipt_def)

theorem reused_operation_id_conflicts_witness:
  "\<exists>s'. execute_named demo_plan ((demo_ctx ''op'' 7)\<lparr>ctx_request_hash := ''x''\<rparr>) JsonFromPlan demo_once
     = Some (s', with_status ''idempotencyConflict'') \<and> a_data s' = 1"
  using reused_operation_id_conflicts [of "(demo_ctx ''op'' 7)\<lparr>ctx_request_hash := ''x''\<rparr>" demo_once
      "new_receipt (demo_ctx ''op'' 0) JsonFromPlan ''ok'' (Some 1)" demo_plan JsonFromPlan]
  by (simp add: demo_ctx_def demo_once_def find_by_def new_receipt_def)

text \<open>The statuses the scratch row can record, and what happens to any other.\<close>

definition known_statuses :: "string list" where
  "known_statuses = [''ok'', ''empty'', ''notFound'', ''lastOwner'', ''claimInvalid'', ''passwordRequired'',
     ''idempotencyConflict'', ''duplicate'', ''queueFull'']"

lemma recorded_status_eq: "recorded_status st = (if st \<in> set known_statuses then st else ''claimInvalid'')"
  by (auto simp: recorded_status_def status_to_bump_sql_def bump_to_status_sql_def known_statuses_def)

text \<open>A batch whose outcome is \<open>duplicate\<close> stores the row it found in its receipt, but neither the
  first reply nor any retry hands it to the caller: the decoder keeps a payload only for \<open>ok\<close>.\<close>

theorem duplicate_reply_loses_payload:
  assumes "receipt_of s (ctx_operation_id ctx) = None"
    and "outcome_scratch_key (ctx_operation_id ctx) \<notin> fst ` set (a_slots s)"
    and "run_plan plan (a_data s) = Some (d, ''duplicate'')"
    and "plan_payload plan = Some sel" and "sel d = Some row"
  shows "\<exists>s' r. execute_named plan ctx JsonFromPlan s = Some (s', first_reply ctx JsonFromPlan ''duplicate'' (Some row))
    \<and> receipt_of s' (ctx_operation_id ctx) = Some r \<and> rc_payload r = Some row
    \<and> res_status (first_reply ctx JsonFromPlan ''duplicate'' (Some row)) = ''duplicate''
    \<and> res_payload (first_reply ctx JsonFromPlan ''duplicate'' (Some row)) = None"
proof -
  have absent: "r \<in> set (a_receipts (prune_receipts ctx s)) \<Longrightarrow> rc_operation_id r \<noteq> ctx_operation_id ctx" for r
    using assms(1) by (auto simp: prune_receipts_def table_simps find_by_None_iff)
  have "execute_named plan ctx JsonFromPlan s = Some (\<lparr>a_data = d,
      a_receipts = a_receipts (prune_receipts ctx s) @ [new_receipt ctx JsonFromPlan ''duplicate'' (Some row)],
      a_slots = a_slots s\<rparr>, first_reply ctx JsonFromPlan ''duplicate'' (Some row))"
    using execute_named_first [OF assms(1,2)] assms(3-) by (simp add: plan_result_def)
  moreover have "find_by rc_operation_id (ctx_operation_id ctx) (a_receipts (prune_receipts ctx s)
      @ [new_receipt ctx JsonFromPlan ''duplicate'' (Some row)]) = Some (new_receipt ctx JsonFromPlan ''duplicate'' (Some row))"
    using absent by (simp add: find_by_absent_append new_receipt_def)
  ultimately show ?thesis
    by (auto simp: new_receipt_def first_reply_def recorded_status_eq known_statuses_def payload_statuses_def)
qed

theorem duplicate_reply_loses_payload_witness:
  "\<exists>s' r. execute_named (demo_plan\<lparr>plan_outcome := \<lambda>n. ''duplicate''\<rparr>) (demo_ctx ''op'' 0) JsonFromPlan demo_state
      = Some (s', first_reply (demo_ctx ''op'' 0) JsonFromPlan ''duplicate'' (Some 1))
    \<and> receipt_of s' ''op'' = Some r \<and> rc_payload r = Some 1
    \<and> res_payload (first_reply (demo_ctx ''op'' 0) JsonFromPlan ''duplicate'' (Some (1::int))) = None"
  using duplicate_reply_loses_payload [of "demo_ctx ''op'' 0" demo_state
      "demo_plan\<lparr>plan_outcome := \<lambda>n. ''duplicate''\<rparr>" 1 Some 1]
  by (simp add: demo_ctx_def demo_state_def demo_plan_def find_by_def run_plan_def) blast

end
