(* ===== verification/Job_Plan.thy ===== *)
theory Job_Plan
  imports Job_Queue Receipt_Laws
begin

text \<open>
  The job operations a database plugin executes: the statement batches compiled by
  \<^verbatim>\<open>crates/bookclerk-library/src/sql_plan/named.rs\<close> and the host adapter that reads their outcome
  (\<open>RpcAtomicBackend\<close> in \<^verbatim>\<open>crates/bookclerk-plugin-host/src/host/database.rs\<close>). A batch is one
  transaction. The statements that bump the \<open>job-queue\<close> slot row only serialise batches and are
  the atomicity of these definitions. The batches are sent inside the receipt envelope of
  \<open>Atomic_Receipt\<close>; the adapters below are their execution under an operation id that has no receipt
  yet, so a reply is the recorded status with the payload that \<open>first_reply\<close> keeps of it.
\<close>

section \<open>Reading the payload text\<close>

definition non_empty_or :: "string \<Rightarrow> string option \<Rightarrow> string" where
  "non_empty_or d x = (case x of None \<Rightarrow> d | Some s \<Rightarrow> if s = [] then d else s)"

definition json_account_from_payload :: "'j job_codec \<Rightarrow> 'j \<Rightarrow> string" where
  "json_account_from_payload J payload_json = non_empty_or ''all'' (value_str J payload_json ''account'')"

definition json_title_from_payload :: "'j job_codec \<Rightarrow> 'j \<Rightarrow> string" where
  "json_title_from_payload J payload_json = non_empty_or ''all'' (value_str J payload_json ''title'')"

definition json_integration_from_payload :: "'j job_codec \<Rightarrow> 'j \<Rightarrow> string" where
  "json_integration_from_payload J payload_json =
     non_empty_or ''all'' (value_str J payload_json ''integration_id'')"

definition json_force_from_payload :: "'j job_codec \<Rightarrow> 'j \<Rightarrow> string" where
  "json_force_from_payload J payload_json =
     (if value_bool J payload_json ''force'' = Some True then ''1'' else ''0'')"

definition plan_dedup_key :: "'j job_codec \<Rightarrow> string \<Rightarrow> 'j \<Rightarrow> string" where
  "plan_dedup_key J kind payload_json =
     (if kind = ''scan'' then ''scan:account='' @ json_account_from_payload J payload_json
      else if kind = ''acquire'' then
        ''acquire:title='' @ json_title_from_payload J payload_json
        @ '':account='' @ json_account_from_payload J payload_json
      else if kind = ''listen_sync'' then ''listen_sync''
      else if kind = ''integration_scan'' then
        ''integration_scan:id='' @ json_integration_from_payload J payload_json
        @ '':force='' @ json_force_from_payload J payload_json
      else kind @ '':unknown'')"

section \<open>Enqueue\<close>

definition plan_job_row ::
  "timestamp \<Rightarrow> string \<Rightarrow> string \<Rightarrow> 'j \<Rightarrow> int \<Rightarrow> int \<Rightarrow> timestamp \<Rightarrow> string \<Rightarrow> 'j job_row" where
  "plan_job_row now i kind payload_json priority max_attempts run_after key =
     \<lparr>j_id = i, j_kind = kind, j_state = ''pending'', j_priority = priority,
      j_resource_class = ''network'', j_payload = payload_json, j_progress = None,
      j_attempt_count = 0, j_max_attempts = max max_attempts 1, j_run_after = run_after,
      j_lease_owner = None, j_lease_expires_at = None, j_dedup_key = key,
      j_error_kind = None, j_error_message = None, j_cancel_requested = 0,
      j_created_at = now, j_updated_at = now, j_started_at = None, j_finished_at = None,
      j_lease_generation = 0\<rparr>"

definition plan_enqueue_status :: "string \<Rightarrow> timestamp \<Rightarrow> 'j jobdb \<Rightarrow> string" where
  "plan_enqueue_status dedup now db =
     (if \<exists>r \<in> set (jobs db). j_dedup_key r = dedup \<and> active r \<and> j_created_at r = now then ''ok''
      else if \<exists>r \<in> set (jobs db). j_dedup_key r = dedup \<and> active r then ''duplicate''
      else ''queueFull'')"

definition plan_enqueue_payload :: "string \<Rightarrow> 'j jobdb \<Rightarrow> string option" where
  "plan_enqueue_payload dedup db =
     (case order_by j_created_at (filter (\<lambda>r. j_dedup_key r = dedup \<and> active r) (jobs db)) of
        [] \<Rightarrow> None
      | r # _ \<Rightarrow> Some (j_id r))"

text \<open>
  The batch yields its status and the id of the oldest active row with the key. A primary-key
  clash of the \<open>INSERT\<close> aborts the batch (\<open>None\<close>).
\<close>

definition plan_enqueue_job ::
  "'j job_codec \<Rightarrow> string \<Rightarrow> string \<Rightarrow> 'j \<Rightarrow> int \<Rightarrow> int \<Rightarrow> int \<Rightarrow> timestamp option \<Rightarrow> timestamp
   \<Rightarrow> 'j jobdb \<Rightarrow> ('j jobdb \<times> string \<times> string option) option" where
  "plan_enqueue_job J uuid kind payload_json priority max_attempts max_pending run_after now db =
     (let ra = (case run_after of None \<Rightarrow> now | Some t \<Rightarrow> t);
          dedup = plan_dedup_key J kind payload_json;
          job_id = kind @ ''-'' @ uuid;
          admit = (\<not> (\<exists>r \<in> set (jobs db). j_dedup_key r = dedup \<and> active r)
                   \<and> int (rows_affected active (jobs db)) < max max_pending 0)
      in map_option (\<lambda>db'. (db', plan_enqueue_status dedup now db', plan_enqueue_payload dedup db'))
           (if admit
            then insert_job (plan_job_row now job_id kind payload_json priority max_attempts ra dedup) db
            else Some db))"

definition rpc_enqueue_reply :: "string \<Rightarrow> string option \<Rightarrow> job_error + EnqueueOutcome" where
  "rpc_enqueue_reply status found =
     (if status = ''ok'' then
        (case found of None \<Rightarrow> Inl (PayloadError ''enqueueJob ok without id'') | Some i \<Rightarrow> Inr (Created i))
      else if status = ''duplicate'' then
        (case found of None \<Rightarrow> Inl (PayloadError ''enqueueJob duplicate without id'')
                     | Some i \<Rightarrow> Inr (Duplicate i))
      else if status = ''queueFull'' then Inr QueueFull
      else Inl (PayloadError (''enqueueJob failed: '' @ status)))"

text \<open>The payload of a reply: the decoder of the receipt keeps it only under status \<open>ok\<close>.\<close>

definition reply_payload :: "string \<Rightarrow> 'p option \<Rightarrow> 'p option" where
  "reply_payload status payload = (if status = ''ok'' then payload else None)"

definition rpc_enqueue_job ::
  "'j job_codec \<Rightarrow> timestamp \<Rightarrow> string \<Rightarrow> EnqueueJobSpec
   \<Rightarrow> 'j jobdb \<Rightarrow> 'j jobdb \<times> (job_error + EnqueueOutcome)" where
  "rpc_enqueue_job J now uuid spec db =
     (case plan_enqueue_job J uuid (JobKind_as_str (spec_kind spec)) (to_string J (spec_payload spec))
             (spec_priority spec) (spec_max_attempts spec) (spec_max_pending spec)
             (spec_run_after spec) now db of
        None \<Rightarrow> (db, Inl OrmUniqueViolation)
      | Some (db', status, found) \<Rightarrow> (db', rpc_enqueue_reply status (reply_payload status found)))"

section \<open>Claim\<close>

definition PLAN_KINDS :: "string list" where
  "PLAN_KINDS = [''scan'', ''acquire'', ''listen_sync'', ''integration_scan'']"

definition plan_readable :: "'j job_codec \<Rightarrow> 'j job_row \<Rightarrow> bool" where
  "plan_readable J r \<longleftrightarrow>
     json_valid J (j_payload r) \<and> json_extract_v J (j_payload r) = ''1''
     \<and> j_kind r \<in> set PLAN_KINDS \<and> j_resource_class r \<in> set JobResourceClass_ALL"

definition plan_unreadable_message :: "'j job_codec \<Rightarrow> 'j job_row \<Rightarrow> string" where
  "plan_unreadable_message J r =
     (if \<not> json_valid J (j_payload r) then ''malformed job payload JSON''
      else if json_extract_v J (j_payload r) \<noteq> ''1'' then ''unsupported job payload version''
      else if j_resource_class r \<notin> set JobResourceClass_ALL then ''unknown job resource class''
      else ''unknown job kind'')"

definition plan_unreadable_set :: "'j job_codec \<Rightarrow> timestamp \<Rightarrow> 'j job_row \<Rightarrow> 'j job_row" where
  "plan_unreadable_set J now r =
     r\<lparr>j_state := ''failed'', j_kind := ''invalid'', j_resource_class := ''network'',
       j_payload := json_text J ''{\"v\":1}'', j_error_kind := Some ''invalid_job'',
       j_error_message := Some (plan_unreadable_message J r),
       j_finished_at := Some now, j_updated_at := now,
       j_lease_owner := None, j_lease_expires_at := None\<rparr>"

definition plan_mark_unreadable_pending_jobs ::
  "'j job_codec \<Rightarrow> timestamp \<Rightarrow> 'j jobdb \<Rightarrow> 'j jobdb" where
  "plan_mark_unreadable_pending_jobs J now db =
     fst (cas (\<lambda>r. pending r \<and> \<not> plan_readable J r) (plan_unreadable_set J now) db)"

definition plan_claim_ready :: "'j job_codec \<Rightarrow> timestamp \<Rightarrow> string \<Rightarrow> 'j job_row \<Rightarrow> bool" where
  "plan_claim_ready J now cls r \<longleftrightarrow>
     j_resource_class r = cls \<and> pending r \<and> j_run_after r \<le> now \<and> j_cancel_requested r = 0
     \<and> plan_readable J r"

definition plan_claim_set :: "timestamp \<Rightarrow> string \<Rightarrow> int \<Rightarrow> 'j job_row \<Rightarrow> 'j job_row" where
  "plan_claim_set now owner lease_secs r =
     r\<lparr>j_state := ''running'', j_attempt_count := j_attempt_count r + 1,
       j_lease_owner := Some owner,
       j_lease_expires_at := Some (now + seconds (max lease_secs 5)),
       j_lease_generation := j_lease_generation r + 1,
       j_started_at := Some (case j_started_at r of None \<Rightarrow> now | Some t \<Rightarrow> t),
       j_updated_at := now, j_error_kind := None, j_error_message := None\<rparr>"

definition plan_claim_update ::
  "timestamp \<Rightarrow> string \<Rightarrow> int \<Rightarrow> string \<Rightarrow> 'j jobdb \<Rightarrow> 'j jobdb" where
  "plan_claim_update now owner lease_secs i db =
     fst (cas (\<lambda>r. j_id r = i \<and> pending r) (plan_claim_set now owner lease_secs) db)"

definition plan_claimed :: "timestamp \<Rightarrow> string \<Rightarrow> 'j job_row \<Rightarrow> bool" where
  "plan_claimed now owner r \<longleftrightarrow> j_lease_owner r = Some owner \<and> running r \<and> j_updated_at r = now"

text \<open>The batch yields its status and the row whose JSON is the payload.\<close>

definition plan_claim_next_job ::
  "'j job_codec \<Rightarrow> string \<Rightarrow> string \<Rightarrow> int \<Rightarrow> timestamp
   \<Rightarrow> 'j jobdb \<Rightarrow> 'j jobdb \<times> string \<times> 'j job_row option" where
  "plan_claim_next_job J cls owner lease_secs now db =
     (let db1 = plan_mark_unreadable_pending_jobs J now db;
          db2 = (case order_by claim_order (filter (plan_claim_ready J now cls) (jobs db1)) of
                   [] \<Rightarrow> db1
                 | m # _ \<Rightarrow> plan_claim_update now owner lease_secs (j_id m) db1);
          hits = filter (plan_claimed now owner) (jobs db2)
      in (db2, (if hits = [] then ''empty'' else ''ok''),
          (case order_by (\<lambda>r. - (case j_started_at r of None \<Rightarrow> 0 | Some t \<Rightarrow> t)) hits of
             [] \<Rightarrow> None | r # _ \<Rightarrow> Some r)))"

text \<open>\<open>decode_payload\<close>: serde's derived reading of the row's JSON object.\<close>

definition decode_job :: "'j job_codec \<Rightarrow> 'j job_row \<Rightarrow> job_error + JobRecord" where
  "decode_job J m =
     (case (JobKind_parse (j_kind m), JobState_parse (j_state m),
            JobResourceClass_parse (j_resource_class m), from_str J (j_payload m)) of
        (Some kind, Some st, Some cls, Inr payload) \<Rightarrow> Inr (job_record m kind st cls payload)
      | _ \<Rightarrow> Inl (PayloadError ''database atomic job payload''))"

definition rpc_claim_next_job ::
  "'j job_codec \<Rightarrow> timestamp \<Rightarrow> JobResourceClass \<Rightarrow> string \<Rightarrow> nat
   \<Rightarrow> 'j jobdb \<Rightarrow> 'j jobdb \<times> (job_error + JobRecord option)" where
  "rpc_claim_next_job J now cls owner lease_secs db =
     (case plan_claim_next_job J (JobResourceClass_as_str cls) owner (i64_or 60 lease_secs) now db of
        (db', status, found) \<Rightarrow>
          (db',
           if status = ''empty'' then Inr None
           else case reply_payload status found of
             None \<Rightarrow> Inl (PayloadError ''database atomic operation ok without job payload'')
           | Some r \<Rightarrow> (case decode_job J r of Inl e \<Rightarrow> Inl e | Inr job \<Rightarrow> Inr (Some job))))"

section \<open>Scratch reservations\<close>

definition temp_reserved_sum :: "'j jobdb \<Rightarrow> int" where
  "temp_reserved_sum db = sum_list (map t_reserved_bytes (job_temp_paths db))"

text \<open>
  The SQL sums are exact here; the column sum of \<open>i64\<close> values is assumed to stay in range.
  \<open>None\<close> is the foreign-key failure of the \<open>INSERT\<close> that aborts the batch.
\<close>

definition plan_reserve_job_temp ::
  "string \<Rightarrow> string \<Rightarrow> int \<Rightarrow> int \<Rightarrow> timestamp \<Rightarrow> 'j jobdb \<Rightarrow> ('j jobdb \<times> string) option" where
  "plan_reserve_job_temp job_id path reserved_bytes quota_bytes now db =
     (let here = (\<lambda>t. t_job_id t = job_id \<and> t_path t = path);
          exists_here = (\<exists>t \<in> set (job_temp_paths db). here t)
      in if \<not> exists_here \<and> \<not> (\<exists>r \<in> set (jobs db). j_id r = job_id) then None
         else
           let db1 = (if exists_here then db
                      else db\<lparr>job_temp_paths := job_temp_paths db @
                               [\<lparr>t_id = job_temp_seq db + 1, t_job_id = job_id, t_path = path,
                                 t_created_at = now, t_reserved_bytes = 0\<rparr>],
                              job_temp_seq := job_temp_seq db + 1\<rparr>);
               total = temp_reserved_sum db1;
               db2 = db1\<lparr>job_temp_paths :=
                       update_many (\<lambda>t. here t \<and> total - t_reserved_bytes t + reserved_bytes \<le> quota_bytes)
                         (\<lambda>t. t\<lparr>t_reserved_bytes := reserved_bytes\<rparr>) (job_temp_paths db1)\<rparr>
           in Some (db2,
                if \<exists>t \<in> set (job_temp_paths db2). here t \<and> t_reserved_bytes t = reserved_bytes
                then ''ok'' else ''notFound''))"

definition rpc_reserve_job_temp_path ::
  "timestamp \<Rightarrow> string \<Rightarrow> string \<Rightarrow> nat \<Rightarrow> nat \<Rightarrow> 'j jobdb \<Rightarrow> 'j jobdb \<times> (job_error + unit)" where
  "rpc_reserve_job_temp_path now job_id path reserved_bytes quota_bytes db =
     (case plan_reserve_job_temp job_id path (i64_or (int I64_MAX) reserved_bytes)
             (i64_or (int I64_MAX) quota_bytes) now db of
        None \<Rightarrow> (db, Inl OrmForeignKey)
      | Some (db', status) \<Rightarrow>
          (db', if status = ''ok'' then Inr () else Inl (QuotaExceeded reserved_bytes quota_bytes)))"

end
