(* ===== verification/Fenced_Lease.thy ===== *)
theory Fenced_Lease
  imports Rust_Std
begin

text \<open>
  The contract shared by the two queues of the library database (\<open>jobs\<close> and
  \<open>event_deliveries\<close>): rows are claimed under a lease, a claim bumps the row's generation, and a
  worker presents the fence (row id, owner, generation) it was given. The provider promises how
  one step of the system may change a row; the lemmas derive, for any number of steps, that a
  fence that was lost is lost for good and that at most one fence of a row is live.
\<close>

locale fenced_lease =
  fixes rows :: "'s \<Rightarrow> 'r set"
    and used :: "'s \<Rightarrow> string set"
    and rid :: "'r \<Rightarrow> string"
    and is_running :: "'r \<Rightarrow> bool"
    and owner_of :: "'r \<Rightarrow> string option"
    and gen :: "'r \<Rightarrow> int"
    and step :: "'s \<Rightarrow> 's \<Rightarrow> bool"
    and inv :: "'s \<Rightarrow> bool"
  assumes inv_step: "inv s \<Longrightarrow> step s t \<Longrightarrow> inv t"
    and rid_unique: "inv s \<Longrightarrow> r \<in> rows s \<Longrightarrow> r' \<in> rows s \<Longrightarrow> rid r = rid r' \<Longrightarrow> r = r'"
    and rid_used: "inv s \<Longrightarrow> r \<in> rows s \<Longrightarrow> rid r \<in> used s"
    and used_mono: "inv s \<Longrightarrow> step s t \<Longrightarrow> used s \<subseteq> used t"
    and row_step: "inv s \<Longrightarrow> step s t \<Longrightarrow> r' \<in> rows t \<Longrightarrow> rid r' \<in> used s \<Longrightarrow>
      \<exists>r \<in> rows s. rid r = rid r' \<and> gen r \<le> gen r' \<and>
        (is_running r' \<longrightarrow>
           gen r < gen r' \<or> is_running r \<and> owner_of r' = owner_of r \<and> gen r' = gen r)"
begin

text \<open>A fence is live when its row is running under that owner and generation.\<close>

definition live :: "'s \<Rightarrow> string \<Rightarrow> string \<Rightarrow> int \<Rightarrow> bool" where
  "live s i w g \<longleftrightarrow> (\<exists>r \<in> rows s. rid r = i \<and> is_running r \<and> owner_of r = Some w \<and> gen r = g)"

text \<open>A generation is spent when its row is gone or can only run again under a later one.\<close>

definition spent :: "'s \<Rightarrow> string \<Rightarrow> int \<Rightarrow> bool" where
  "spent s i g \<longleftrightarrow>
     i \<in> used s \<and> (\<forall>r \<in> rows s. rid r = i \<longrightarrow> g < gen r \<or> g = gen r \<and> \<not> is_running r)"

lemma inv_steps: "step\<^sup>*\<^sup>* s t \<Longrightarrow> inv s \<Longrightarrow> inv t"
  by (induction rule: rtranclp_induct) (auto intro: inv_step)

lemma live_unique:
  assumes "inv s" and "live s i w g" and "live s i w' g'"
  shows "w = w' \<and> g = g'"
  using assms rid_unique unfolding live_def by fastforce

lemma spent_not_live: "spent s i g \<Longrightarrow> \<not> live s i w g"
  by (auto simp: spent_def live_def)

lemma spent_step:
  assumes "inv s" and "step s t" and "spent s i g"
  shows "spent t i g"
proof -
  have "g < gen r' \<or> g = gen r' \<and> \<not> is_running r'" if r': "r' \<in> rows t" "rid r' = i" for r'
  proof -
    from r' assms have "rid r' \<in> used s" by (simp add: spent_def)
    with assms(1,2) r' obtain r where r: "r \<in> rows s" "rid r = i" "gen r \<le> gen r'"
      and run: "is_running r' \<longrightarrow>
        gen r < gen r' \<or> is_running r \<and> owner_of r' = owner_of r \<and> gen r' = gen r"
      using row_step by metis
    from r assms(3) have "g < gen r \<or> g = gen r \<and> \<not> is_running r" by (auto simp: spent_def)
    with r(3) run show ?thesis by linarith
  qed
  moreover from assms used_mono have "i \<in> used t" by (auto simp: spent_def)
  ultimately show ?thesis by (auto simp: spent_def)
qed

lemma spent_steps: "step\<^sup>*\<^sup>* s t \<Longrightarrow> inv s \<Longrightarrow> spent s i g \<Longrightarrow> spent t i g"
  by (induction rule: rtranclp_induct) (auto intro: spent_step inv_steps)

lemma live_step:
  assumes "inv s" and "step s t" and "live s i w g"
  shows "live t i w g \<or> spent t i g"
proof -
  from assms(3) obtain r where r: "r \<in> rows s" "rid r = i" "is_running r" "owner_of r = Some w" "gen r = g"
    by (auto simp: live_def)
  with assms(1) have used: "i \<in> used s" using rid_used by blast
  have "live t i w g \<or> g < gen r' \<or> g = gen r' \<and> \<not> is_running r'"
    if r': "r' \<in> rows t" "rid r' = i" for r'
  proof -
    from assms(1,2) r' used obtain q where q: "q \<in> rows s" "rid q = rid r'" "gen q \<le> gen r'"
      and run: "is_running r' \<longrightarrow>
        gen q < gen r' \<or> is_running q \<and> owner_of r' = owner_of q \<and> gen r' = gen q"
      using row_step by metis
    from q(2) r(2) r'(2) have "rid q = rid r" by simp
    with assms(1) q(1) r(1) have [simp]: "q = r" by (rule rid_unique)
    show ?thesis using r r' q run by (cases "is_running r'") (auto simp: live_def)
  qed
  with used assms used_mono show ?thesis by (fastforce simp: spent_def)
qed

lemma live_steps:
  assumes "step\<^sup>*\<^sup>* s t" and "inv s" and "live s i w g"
  shows "live t i w g \<or> spent t i g"
  using assms
proof (induction rule: rtranclp_induct)
  case base
  then show ?case by simp
next
  case (step t u)
  have "inv t" using step.hyps(1) step.prems(1) by (rule inv_steps)
  with step show ?case by (meson live_step spent_step)
qed

theorem lost_fence_stays_lost:
  assumes "inv s" and "live s i w g" and "step\<^sup>*\<^sup>* s t" and "\<not> live t i w g" and "step\<^sup>*\<^sup>* t u"
  shows "\<not> live u i w g"
proof -
  from assms(1-4) have "spent t i g" using live_steps by blast
  moreover from assms(1,3) have "inv t" using inv_steps by blast
  ultimately show ?thesis using assms(5) spent_steps spent_not_live by blast
qed

theorem superseded_fence_is_dead:
  assumes "inv s" and "live s i w g" and "step\<^sup>*\<^sup>* s t" and "live t i w' g'"
    and "(w, g) \<noteq> (w', g')" and "step\<^sup>*\<^sup>* t u"
  shows "\<not> live u i w g"
proof -
  from assms(1,3) have "inv t" using inv_steps by blast
  with assms(4,5) have "\<not> live t i w g" using live_unique by blast
  from assms(1-3) this assms(6) show ?thesis by (rule lost_fence_stays_lost)
qed

end

end
