(* ===== verification/Job_Steps.thy ===== *)
theory Job_Steps
  imports Job_Plan Fenced_Lease
begin

text \<open>
  The job queue as a concurrent system. Workers, the scheduler, the reclaimer and operators share
  the tables; every database statement or transaction they issue is one step, and an operation
  that read a row in an earlier step may act on that reading at any later point. The state
  therefore keeps, beside the database, every version a row of \<open>jobs\<close> ever had: a stale reading
  is any member of it.

  \<open>Local\<close> is the library's own transaction code for admission and claiming
  (\<open>Job_Queue\<close>), \<open>Atomic\<close> the batches sent to a database plugin (\<open>Job_Plan\<close>); a deployment uses
  one of the two, all other operations are common.
\<close>

section \<open>Rows: well-formedness and evolution\<close>

datatype backend = Local | Atomic

definition resume_flag :: "'j job_codec \<Rightarrow> 'j \<Rightarrow> bool" where
  "resume_flag J payload \<longleftrightarrow>
     (case from_str J payload of Inl _ \<Rightarrow> False | Inr p \<Rightarrow> p_resume_pending p)"

definition resumes :: "'j job_codec \<Rightarrow> 'j job_row \<Rightarrow> bool" where
  "resumes J r \<longleftrightarrow> resume_flag J (j_payload r)"

definition lease_ok :: "'j job_row \<Rightarrow> bool" where
  "lease_ok r \<longleftrightarrow>
     (running r \<longrightarrow> j_lease_owner r \<noteq> None \<and> j_lease_expires_at r \<noteq> None \<and> j_started_at r \<noteq> None)
     \<and> (\<not> running r \<longrightarrow> j_lease_owner r = None \<and> j_lease_expires_at r = None)
     \<and> (active r \<or> terminal r)
     \<and> (active r \<longleftrightarrow> j_finished_at r = None)
     \<and> 0 \<le> j_attempt_count r \<and> 1 \<le> j_max_attempts r \<and> 0 \<le> j_lease_generation r"

definition attempts_ok :: "'j job_codec \<Rightarrow> 'j job_row \<Rightarrow> bool" where
  "attempts_ok J r \<longleftrightarrow>
     j_attempt_count r \<le> j_max_attempts r
     \<and> (running r \<longrightarrow> 1 \<le> j_attempt_count r \<and> \<not> resumes J r)
     \<and> (pending r \<and> \<not> resumes J r \<longrightarrow> j_attempt_count r < j_max_attempts r)"

definition row_ok :: "'j job_codec \<Rightarrow> backend \<Rightarrow> 'j job_row \<Rightarrow> bool" where
  "row_ok J b r \<longleftrightarrow> lease_ok r \<and> (b = Local \<longrightarrow> attempts_ok J r)"

text \<open>The state transitions of a job.\<close>

inductive lifecycle :: "string \<Rightarrow> string \<Rightarrow> bool" where
  lc_stay: "lifecycle s s"
| lc_claim: "lifecycle (JobState_as_str Pending) (JobState_as_str Running)"
| lc_invalidate: "lifecycle (JobState_as_str Pending) (JobState_as_str Failed)"
| lc_withdraw: "lifecycle (JobState_as_str Pending) (JobState_as_str Cancelled)"
| lc_release: "lifecycle (JobState_as_str Running) (JobState_as_str Pending)"
| lc_finish: "is_terminal s \<Longrightarrow> lifecycle (JobState_as_str Running) (JobState_as_str s)"

text \<open>How one statement may change a row.\<close>

definition evolves :: "'j job_row \<Rightarrow> 'j job_row \<Rightarrow> bool" where
  "evolves r r' \<longleftrightarrow>
     j_id r' = j_id r \<and> j_dedup_key r' = j_dedup_key r \<and> j_max_attempts r' = j_max_attempts r
     \<and> j_created_at r' = j_created_at r \<and> j_priority r' = j_priority r
     \<and> lifecycle (j_state r) (j_state r') \<and> (terminal r \<longrightarrow> r' = r)
     \<and> (if pending r \<and> running r' then j_lease_generation r' = j_lease_generation r + 1 \<and> j_cancel_requested r = 0
        else j_lease_generation r' = j_lease_generation r)
     \<and> (running r \<and> running r' \<longrightarrow>
          j_lease_owner r' = j_lease_owner r \<and> j_attempt_count r' = j_attempt_count r)
     \<and> (j_cancel_requested r \<noteq> 0 \<longrightarrow> j_cancel_requested r' \<noteq> 0)"

text \<open>What an earlier version of a row still tells about the row.\<close>

definition snapshot_ok :: "'j job_row \<Rightarrow> 'j job_row \<Rightarrow> bool" where
  "snapshot_ok m r \<longleftrightarrow>
     j_lease_generation m \<le> j_lease_generation r \<and> j_max_attempts m = j_max_attempts r
     \<and> (running m \<and> running r \<and> j_lease_generation m = j_lease_generation r \<longrightarrow>
          j_lease_owner m = j_lease_owner r \<and> j_attempt_count m = j_attempt_count r)"

lemmas row_state_defs = pending_def running_def active_def terminal_def

lemma evolves_refl [simp]: "evolves r r"
  by (auto simp: evolves_def row_state_defs intro: lifecycle.lc_stay)

lemma lifecycle_iff:
  "lifecycle s t \<longleftrightarrow>
     s = t \<or> s = ''pending'' \<and> t \<in> {''running'', ''failed'', ''cancelled''}
     \<or> s = ''running'' \<and> t \<in> {''pending'', ''succeeded'', ''failed'', ''cancelled''}"
proof
  assume "lifecycle s t"
  then show "s = t \<or> s = ''pending'' \<and> t \<in> {''running'', ''failed'', ''cancelled''}
     \<or> s = ''running'' \<and> t \<in> {''pending'', ''succeeded'', ''failed'', ''cancelled''}"
    by cases (auto simp: is_terminal_def)
next
  assume "s = t \<or> s = ''pending'' \<and> t \<in> {''running'', ''failed'', ''cancelled''}
     \<or> s = ''running'' \<and> t \<in> {''pending'', ''succeeded'', ''failed'', ''cancelled''}"
  then show "lifecycle s t"
    using lifecycle.lc_stay lifecycle.lc_claim lifecycle.lc_invalidate lifecycle.lc_withdraw lifecycle.lc_release
      lifecycle.lc_finish [of Succeeded] lifecycle.lc_finish [of Failed] lifecycle.lc_finish [of Cancelled]
    by (auto simp: is_terminal_def)
qed

lemma evolves_runningD:
  assumes "evolves r r'" and "running r'"
  shows "(pending r \<and> j_lease_generation r' = j_lease_generation r + 1)
         \<or> (running r \<and> j_lease_generation r' = j_lease_generation r
            \<and> j_lease_owner r' = j_lease_owner r \<and> j_attempt_count r' = j_attempt_count r)"
  using assms by (auto simp: evolves_def lifecycle_iff row_state_defs split: if_splits)

lemma evolves_generation_mono: "evolves r r' \<Longrightarrow> j_lease_generation r \<le> j_lease_generation r'"
  by (auto simp: evolves_def split: if_splits)

lemma evolves_active: "evolves r r' \<Longrightarrow> active r' \<Longrightarrow> active r"
  by (auto simp: evolves_def lifecycle_iff row_state_defs)

lemma snapshot_evolves:
  assumes "snapshot_ok m r" and "evolves r r'"
  shows "snapshot_ok m r'"
proof -
  from assms have "j_lease_generation m \<le> j_lease_generation r'"
    using evolves_generation_mono by (fastforce simp: snapshot_ok_def)
  moreover have "j_lease_owner m = j_lease_owner r' \<and> j_attempt_count m = j_attempt_count r'"
    if "running m" "running r'" "j_lease_generation m = j_lease_generation r'"
    using evolves_runningD [OF assms(2) that(2)] assms(1) that by (auto simp: snapshot_ok_def)
  ultimately show ?thesis using assms by (auto simp: snapshot_ok_def evolves_def)
qed

section \<open>Tables: well-formedness and change\<close>

text \<open>
  \<open>table_ok J b past T\<close>: ids are distinct, rows are well formed, no two active rows share a
  deduplication key, and the earlier row versions \<open>past\<close> are consistent with the table.
\<close>

definition table_ok :: "'j job_codec \<Rightarrow> backend \<Rightarrow> 'j job_row set \<Rightarrow> 'j job_row list \<Rightarrow> bool" where
  "table_ok J b past T \<longleftrightarrow>
     distinct (map j_id T) \<and> (\<forall>r \<in> set T. row_ok J b r)
     \<and> (\<forall>r \<in> set T. \<forall>r' \<in> set T. active r \<and> active r' \<and> j_dedup_key r = j_dedup_key r' \<longrightarrow> r = r')
     \<and> (\<forall>m \<in> past. row_ok J b m) \<and> (\<forall>m \<in> past. \<forall>r \<in> set T. j_id m = j_id r \<longrightarrow> snapshot_ok m r)"

text \<open>Statements and sequences of statements; \<open>U\<close> are the ids that were ever used.\<close>

inductive table_change ::
  "'j job_codec \<Rightarrow> backend \<Rightarrow> string set \<Rightarrow> 'j job_row list \<Rightarrow> 'j job_row list \<Rightarrow> bool"
  for J b U where
  tc_refl: "table_change J b U T T"
| tc_update: "table_change J b U T T' \<Longrightarrow>
    (\<And>r. r \<in> set T' \<Longrightarrow> P r \<Longrightarrow> evolves r (f r) \<and> row_ok J b (f r)) \<Longrightarrow>
    table_change J b U T (update_many P f T')"
| tc_insert: "table_change J b U T T' \<Longrightarrow> row_ok J b row \<Longrightarrow> j_id row \<notin> U \<Longrightarrow>
    j_id row \<notin> j_id ` set T' \<Longrightarrow>
    (\<And>r. r \<in> set T' \<Longrightarrow> active r \<Longrightarrow> j_dedup_key r \<noteq> j_dedup_key row) \<Longrightarrow>
    table_change J b U T (T' @ [row])"
| tc_delete: "table_change J b U T T' \<Longrightarrow> (\<And>r. r \<in> set T' \<Longrightarrow> P r \<Longrightarrow> terminal r) \<Longrightarrow>
    table_change J b U T (delete_many P T')"

lemma table_change_trans:
  assumes "table_change J b U T' T''" and "table_change J b U T T'"
  shows "table_change J b U T T''"
  using assms
proof (induction rule: table_change.induct)
  case (tc_refl T)
  then show ?case .
next
  case (tc_update T1 T' P f)
  show ?case by (rule table_change.tc_update [OF tc_update.IH [OF tc_update.prems] tc_update.hyps(2)])
next
  case (tc_insert T1 T' row)
  show ?case
    by (rule table_change.tc_insert [OF tc_insert.IH [OF tc_insert.prems] tc_insert.hyps(2-5)])
next
  case (tc_delete T1 T' P)
  show ?case by (rule table_change.tc_delete [OF tc_delete.IH [OF tc_delete.prems] tc_delete.hyps(2)])
qed

lemma table_ok_update:
  assumes ok: "table_ok J b past T"
    and ev: "\<And>r. r \<in> set T \<Longrightarrow> P r \<Longrightarrow> evolves r (f r) \<and> row_ok J b (f r)"
  shows "table_ok J b past (update_many P f T)"
proof -
  have from_row: "\<exists>r \<in> set T. evolves r r' \<and> row_ok J b r' \<and> r' = (if P r then f r else r)"
    if "r' \<in> set (update_many P f T)" for r'
    using that ok ev by (cases rule: in_update_manyE) (auto simp: table_ok_def)
  have ids: "map j_id (update_many P f T) = map j_id T"
    using ev by (intro map_update_many_key) (auto simp: evolves_def)
  have "r = r'" if in_T: "r \<in> set (update_many P f T)" "r' \<in> set (update_many P f T)"
    and act: "active r" "active r'" "j_dedup_key r = j_dedup_key r'" for r r'
  proof -
    obtain q where q: "q \<in> set T" "evolves q r" "r = (if P q then f q else q)" using from_row [OF in_T(1)] by blast
    obtain q' where q': "q' \<in> set T" "evolves q' r'" "r' = (if P q' then f q' else q')"
      using from_row [OF in_T(2)] by blast
    have "active q" "active q'" using q(2) q'(2) act by (auto intro: evolves_active)
    moreover have "j_dedup_key q = j_dedup_key q'" using q(2) q'(2) act(3) by (simp add: evolves_def)
    ultimately have "q = q'" using q(1) q'(1) ok by (simp add: table_ok_def)
    with q q' show ?thesis by simp
  qed
  moreover have "snapshot_ok m r'" if m: "m \<in> past" "r' \<in> set (update_many P f T)" "j_id m = j_id r'" for m r'
  proof -
    obtain q where q: "q \<in> set T" "evolves q r'" using from_row [OF m(2)] by blast
    with m ok have "snapshot_ok m q" by (auto simp: table_ok_def evolves_def)
    with q show ?thesis by (blast intro: snapshot_evolves)
  qed
  moreover have "\<forall>r' \<in> set (update_many P f T). row_ok J b r'" using from_row by blast
  ultimately show ?thesis using ok by (simp add: table_ok_def ids)
qed

lemma table_ok_change:
  assumes "table_change J b U T T'" and "table_ok J b past T" and "j_id ` past \<subseteq> U"
  shows "table_ok J b past T'"
  using assms
proof (induction rule: table_change.induct)
  case (tc_refl T)
  then show ?case by simp
next
  case (tc_update T T' P f)
  show ?case by (rule table_ok_update [OF tc_update.IH [OF tc_update.prems] tc_update.hyps(2)])
next
  case (tc_insert T T' row)
  then show ?case by (fastforce simp: table_ok_def)
next
  case (tc_delete T T' P)
  then have ok: "table_ok J b past T'" by simp
  then have "distinct (map j_id (delete_many P T'))"
    by (simp add: table_ok_def delete_many_def distinct_map_filter)
  with ok show ?case unfolding table_ok_def set_delete_many by blast
qed

text \<open>Every row of the new table descends from a row of the old one or has a fresh id.\<close>

lemma table_change_rows:
  assumes "table_change J b U T T'" and "r' \<in> set T'" and "j_id r' \<in> U"
  shows "\<exists>r \<in> set T. evolves\<^sup>*\<^sup>* r r'"
  using assms
proof (induction arbitrary: r' rule: table_change.induct)
  case (tc_refl T)
  then show ?case by blast
next
  case (tc_update T T' P f)
  from tc_update.prems(1) obtain q where q: "q \<in> set T'" "evolves q r'"
    using tc_update.hyps(2) by (cases rule: in_update_manyE) (auto intro: evolves_refl)
  with tc_update.prems(2) have "j_id q \<in> U" by (simp add: evolves_def)
  with q tc_update.IH obtain r where "r \<in> set T" "evolves\<^sup>*\<^sup>* r q" by blast
  with q show ?case by (blast intro: rtranclp.rtrancl_into_rtrancl)
next
  case (tc_insert T T' row)
  then show ?case by auto
next
  case (tc_delete T T' P)
  then show ?case by (auto simp: table_simps)
qed

section \<open>The operations as table changes\<close>

lemma resume_flag_to_string [simp]: "codec_ok J \<Longrightarrow> resume_flag J (to_string J p) = p_resume_pending p"
  by (simp add: resume_flag_def codec_okD)

lemma payload_or_default_resumes [simp]: "p_resume_pending (payload_or_default J r) = resumes J r"
  by (simp add: payload_or_default_def resumes_def resume_flag_def JobPayload_default_def
      split: sum.splits)

lemmas row_defs = evolves_def row_ok_def lease_ok_def attempts_ok_def resumes_def
  lifecycle_iff row_state_defs

lemma table_okD:
  assumes "table_ok J b past T"
  shows "distinct (map j_id T)"
    and "r \<in> set T \<Longrightarrow> row_ok J b r"
    and "m \<in> past \<Longrightarrow> row_ok J b m"
    and "m \<in> past \<Longrightarrow> r \<in> set T \<Longrightarrow> j_id m = j_id r \<Longrightarrow> snapshot_ok m r"
    and "r \<in> set T \<Longrightarrow> r' \<in> set T \<Longrightarrow> active r \<Longrightarrow> active r' \<Longrightarrow>
         j_dedup_key r = j_dedup_key r' \<Longrightarrow> r = r'"
  using assms unfolding table_ok_def by blast+

lemma change_cas:
  assumes ok: "table_ok J b past (jobs db)"
    and ev: "\<And>r. r \<in> set (jobs db) \<Longrightarrow> P r \<Longrightarrow> row_ok J b r \<Longrightarrow> evolves r (f r) \<and> row_ok J b (f r)"
  shows "table_change J b U (jobs db) (jobs (fst (cas P f db)))"
proof -
  have "table_change J b U (jobs db) (update_many P f (jobs db))"
    by (rule table_change.tc_update [OF table_change.tc_refl]) (rule ev, assumption+, rule table_okD(2) [OF ok])
  then show ?thesis by (simp add: cas_def)
qed

lemma set_progress_opt_simps [simp]:
  "j_id (set_progress_opt p r) = j_id r" "j_state (set_progress_opt p r) = j_state r"
  "j_payload (set_progress_opt p r) = j_payload r" "j_priority (set_progress_opt p r) = j_priority r"
  "j_attempt_count (set_progress_opt p r) = j_attempt_count r"
  "j_max_attempts (set_progress_opt p r) = j_max_attempts r"
  "j_lease_owner (set_progress_opt p r) = j_lease_owner r"
  "j_lease_expires_at (set_progress_opt p r) = j_lease_expires_at r"
  "j_dedup_key (set_progress_opt p r) = j_dedup_key r"
  "j_cancel_requested (set_progress_opt p r) = j_cancel_requested r"
  "j_created_at (set_progress_opt p r) = j_created_at r"
  "j_started_at (set_progress_opt p r) = j_started_at r"
  "j_finished_at (set_progress_opt p r) = j_finished_at r"
  "j_lease_generation (set_progress_opt p r) = j_lease_generation r"
  by (simp_all add: set_progress_opt_def split: option.split)

lemma heartbeat_change:
  "table_ok J b past (jobs db) \<Longrightarrow>
   table_change J b U (jobs db) (jobs (fst (heartbeat_job now f lease_secs progress db)))"
  unfolding heartbeat_job_def
  by (erule change_cas) (auto simp: fenced_def holds_fence_def row_defs)

lemma progress_change:
  "table_ok J b past (jobs db) \<Longrightarrow>
   table_change J b U (jobs db) (jobs (fst (set_job_progress now f progress db)))"
  unfolding set_job_progress_def
  by (erule change_cas) (auto simp: fenced_def holds_fence_def row_defs)

lemma complete_change:
  "table_ok J b past (jobs db) \<Longrightarrow>
   table_change J b U (jobs db) (jobs (fst (complete_job now f progress db)))"
  unfolding complete_job_def
  by (erule change_cas) (auto simp: fenced_def holds_fence_def row_defs)

lemma cancelled_change:
  "table_ok J b past (jobs db) \<Longrightarrow>
   table_change J b U (jobs db) (jobs (fst (mark_job_cancelled_cas now i f ek em before db)))"
  unfolding mark_job_cancelled_cas_def
  by (cases f; erule change_cas) (auto simp: cancelled_update_def holds_fence_def row_defs)

lemma flag_change:
  "table_ok J b past (jobs db) \<Longrightarrow>
   table_change J b U (jobs db) (jobs (fst (flag_cancel_requested now i db)))"
  unfolding flag_cancel_requested_def
  by (erule change_cas) (auto simp: row_defs)

lemma invalid_change:
  "table_ok J b past (jobs db) \<Longrightarrow>
   table_change J b U (jobs db) (jobs (mark_invalid_job J now i reason db))"
  unfolding mark_invalid_job_def
  by (erule change_cas) (auto simp: row_defs)

lemma pending_invalid_change:
  "table_ok J b past (jobs db) \<Longrightarrow>
   table_change J b U (jobs db) (jobs (mark_pending_job_invalid_on J now i reason db))"
  unfolding mark_pending_job_invalid_on_def
  by (erule change_cas) (auto simp: row_defs)

lemma cancel_pending_change:
  "table_ok J b past (jobs db) \<Longrightarrow>
   table_change J b U (jobs db) (jobs (cancel_pending_row now i db))"
  unfolding cancel_pending_row_def
  by (erule change_cas) (auto simp: row_defs)

lemma prune_change:
  "table_change J b U (jobs db) (jobs (fst (prune_terminal_jobs now retention_days db)))"
proof -
  have "table_change J b U (jobs db) (delete_many (\<lambda>r. terminal r \<and> Q r) (jobs db))" for Q
    by (rule table_change.tc_delete [OF table_change.tc_refl]) simp
  then show ?thesis by (simp add: prune_terminal_jobs_def delete_jobs_def Let_def)
qed

text \<open>Operations that act on an earlier reading \<open>m\<close> of the row.\<close>

lemma suspend_change:
  assumes "codec_ok J" and "table_ok J b past (jobs db)"
  shows "table_change J b U (jobs db) (jobs (fst (suspend_job_from J now f c wake_at m db)))"
proof -
  have "table_change J b U (jobs db)
      (jobs (fst (cas (fenced f) (suspend_update J now c wake_at payload) db)))" for payload
    using assms(2) by (rule change_cas)
      (auto simp: fenced_def holds_fence_def suspend_update_def suspended_payload_def row_defs assms(1))
  then show ?thesis
    by (simp add: suspend_job_from_def table_change.tc_refl split: sum.split)
qed

lemma snapshot_fenced:
  assumes "table_ok J b past T" and "m \<in> past" and "r \<in> set T" and "j_id m = j_id r"
    and "running m" and "running r" and "j_lease_generation m = j_lease_generation r"
  shows "j_attempt_count m = j_attempt_count r" and "j_max_attempts m = j_max_attempts r"
    and "j_lease_owner m = j_lease_owner r"
  using table_okD(4) [OF assms(1-4)] assms(5-) by (auto simp: snapshot_ok_def)

lemma checkpoint_change:
  assumes "codec_ok J" and ok: "table_ok J b past (jobs db)" and "m \<in> past"
  shows "table_change J b U (jobs db) (jobs (fst (checkpoint_running_job_from J now f c m db)))"
proof -
  have "table_change J b U (jobs db)
      (jobs (fst (cas (fenced f) (checkpoint_update J now c payload) db)))"
    if "holds_fence m f" and "from_str J (j_payload m) = Inr payload" for payload
  proof -
    from that table_okD(3) [OF ok \<open>m \<in> past\<close>] have "b = Local \<Longrightarrow> \<not> p_resume_pending payload"
      by (auto simp: holds_fence_def row_ok_def attempts_ok_def resumes_def resume_flag_def)
    with ok show ?thesis
      by - (erule change_cas,
          auto simp: fenced_def holds_fence_def checkpoint_update_def row_defs assms(1))
  qed
  then show ?thesis
    by (simp add: checkpoint_running_job_from_def table_change.tc_refl split: sum.split)
qed

lemma fail_change:
  assumes "codec_ok J" and ok: "table_ok J b past (jobs db)"
    and m: "m \<in> past" "j_id m = f_job_id f"
  shows "table_change J b U (jobs db) (jobs (fst (fail_job_from J now f ek em m db)))"
proof -
  have "evolves r (fail_update J now ek em m r) \<and> row_ok J b (fail_update J now ek em m r)"
    if "holds_fence m f" and r: "r \<in> set (jobs db)" "fenced f r" "row_ok J b r" for r
  proof -
    have "j_attempt_count m = j_attempt_count r \<and> j_max_attempts m = j_max_attempts r"
      using snapshot_fenced [OF ok m(1) r(1)] that m(2) by (auto simp: fenced_def holds_fence_def)
    with r(2,3) show ?thesis
      by (auto simp: fail_update_def Let_def fenced_def holds_fence_def row_defs assms(1))
  qed
  then have "holds_fence m f \<Longrightarrow>
      table_change J b U (jobs db) (jobs (fst (cas (fenced f) (fail_update J now ek em m) db)))"
    using ok by (blast intro: change_cas)
  then show ?thesis
    using cancelled_change [OF ok] by (simp add: fail_job_from_def table_change.tc_refl)
qed

lemma reclaim_change:
  assumes ok: "table_ok J b past (jobs db)" and m: "m \<in> past" "running m"
  shows "table_change J b U (jobs db) (jobs (fst (reclaim_one now m db)))"
proof -
  have "evolves r (reclaim_update now m r) \<and> row_ok J b (reclaim_update now m r)"
    if r: "r \<in> set (jobs db)" "row_ok J b r" "j_id r = j_id m \<and> running r
      \<and> j_lease_generation r = j_lease_generation m \<and> lease_expired now r" for r
  proof -
    have "j_attempt_count m = j_attempt_count r \<and> j_max_attempts m = j_max_attempts r"
      using snapshot_fenced [OF ok m(1) r(1)] r(3) m(2) by auto
    with r(2,3) show ?thesis by (auto simp: reclaim_update_def Let_def row_defs)
  qed
  then show ?thesis
    using cancelled_change [OF ok]
    by (simp add: reclaim_one_def table_change.tc_refl) (blast intro: change_cas [OF ok])
qed

text \<open>Claiming: the candidates were read in the same transaction, so they are current rows.\<close>

lemma cas_keeps: "m \<in> set (jobs db) \<Longrightarrow> \<not> P m \<Longrightarrow> m \<in> set (jobs (fst (cas P f db)))"
  by (auto simp: cas_def table_simps)

lemma keeps_other_rows:
  assumes "m \<in> set (jobs db)" and "j_id m \<noteq> i"
  shows "m \<in> set (jobs (cancel_pending_row now i db))"
    and "m \<in> set (jobs (mark_pending_job_invalid_on J now i reason db))"
    and "j_id model = i \<Longrightarrow> m \<in> set (jobs (fst (claim_row J now owner lease_secs model db)))"
  using assms
  by (auto simp: cancel_pending_row_def mark_pending_job_invalid_on_def claim_row_def intro!: cas_keeps)

lemma claim_row_change:
  assumes "codec_ok J" and ok: "table_ok J b past (jobs db)"
    and m: "m \<in> set (jobs db)" "pending m" "j_cancel_requested m = 0"
  shows "table_change J b U (jobs db) (jobs (fst (claim_row J now owner lease_secs m db)))"
proof -
  have "evolves r (claim_update J now owner lease_secs m r)
      \<and> row_ok J b (claim_update J now owner lease_secs m r)"
    if r: "r \<in> set (jobs db)" "j_id r = j_id m \<and> pending r" "row_ok J b r" for r
  proof -
    have "r = m" using distinct_key_unique [OF table_okD(1) [OF ok] r(1) m(1)] r(2) by simp
    with r m show ?thesis by (auto simp: claim_update_def Let_def row_defs assms(1))
  qed
  then show ?thesis unfolding claim_row_def using ok by (blast intro: change_cas)
qed

lemma claim_loop_change:
  assumes "codec_ok J" and "j_id ` past \<subseteq> U"
    and "table_ok J b past (jobs db)" and "set models \<subseteq> set (jobs db)"
    and "distinct (map j_id models)" and "\<forall>m \<in> set models. pending m"
  shows "table_change J b U (jobs db) (jobs (fst (claim_loop J now owner lease_secs models db)))"
  using assms(3-)
proof (induction models arbitrary: db)
  case Nil
  then show ?case by (simp add: table_change.tc_refl)
next
  case (Cons m ms)
  note ok = Cons.prems(1)
  have rest: "x \<in> set (jobs db) \<and> j_id x \<noteq> j_id m" if "x \<in> set ms" for x
    using Cons.prems(2,3) that by (fastforce simp: image_iff)
  have continue: "table_change J b U (jobs db) (jobs (fst (claim_loop J now owner lease_secs ms db')))"
    if change: "table_change J b U (jobs db) (jobs db')" and keeps: "set ms \<subseteq> set (jobs db')" for db'
  proof (rule table_change_trans [OF _ change])
    show "table_change J b U (jobs db') (jobs (fst (claim_loop J now owner lease_secs ms db')))"
      using Cons.prems(3,4) keeps table_ok_change [OF change ok assms(2)] by (intro Cons.IH) auto
  qed
  have "table_change J b U (jobs db)
      (jobs (fst (claim_loop J now owner lease_secs ms (cancel_pending_row now (j_id m) db))))"
    using rest by (intro continue cancel_pending_change [OF ok]) (auto intro: keeps_other_rows)
  moreover have "table_change J b U (jobs db) (jobs (fst (claim_loop J now owner lease_secs ms
      (mark_pending_job_invalid_on J now (j_id m) reason db))))" for reason
    using rest by (intro continue pending_invalid_change [OF ok]) (auto intro: keeps_other_rows)
  moreover have change: "table_change J b U (jobs db) (jobs (fst (claim_row J now owner lease_secs m db)))"
    if "j_cancel_requested m = 0"
    using that Cons.prems(2,4) by (intro claim_row_change [OF assms(1) ok]) auto
  moreover have "table_change J b U (jobs db) (jobs (fst (claim_loop J now owner lease_secs ms
      (fst (claim_row J now owner lease_secs m db)))))" if "j_cancel_requested m = 0"
    using rest by (intro continue change that) (auto intro: keeps_other_rows)
  ultimately show ?case
    by (simp add: split_beta Let_def split: sum.split option.split)
qed

lemma mark_suspects_change:
  assumes "j_id ` past \<subseteq> U" and "table_ok J b past (jobs db)"
  shows "table_change J b U (jobs db) (jobs (mark_suspects J now ms db))"
  using assms(2)
proof (induction ms arbitrary: db)
  case Nil
  then show ?case by (simp add: table_change.tc_refl)
next
  case (Cons m ms)
  have "table_ok J b past (jobs (mark_pending_job_invalid_on J now i reason db))" for i reason
    by (rule table_ok_change [OF pending_invalid_change [OF Cons.prems] Cons.prems assms(1)])
  then show ?case
    by (simp add: table_change_trans [OF Cons.IH pending_invalid_change [OF Cons.prems]])
qed

lemma sanitize_change:
  assumes "j_id ` past \<subseteq> U" and "table_ok J b past (jobs db)"
  shows "table_change J b U (jobs db) (jobs (sanitize_unreadable_pending_on J now db))"
  unfolding sanitize_unreadable_pending_on_def using assms by (rule mark_suspects_change)

lemma claim_candidates_rows:
  assumes "distinct (map j_id (jobs db))"
  shows "set (claim_candidates now cls db) \<subseteq> {r \<in> set (jobs db). claim_ready now cls r}"
    and "distinct (map j_id (claim_candidates now cls db))"
proof -
  show "set (claim_candidates now cls db) \<subseteq> {r \<in> set (jobs db). claim_ready now cls r}"
    by (auto simp: claim_candidates_def order_by_def dest: in_set_takeD)
  have "distinct (map j_id (order_by claim_order (filter (claim_ready now cls) (jobs db))))"
    using assms by (simp add: distinct_map_filter)
  then show "distinct (map j_id (claim_candidates now cls db))"
    by (simp add: claim_candidates_def take_map [symmetric])
qed

lemma in_txn_change:
  assumes "table_change J b U (jobs db) (jobs (fst (body db)))"
  shows "table_change J b U (jobs db) (jobs (fst (in_txn body db)))"
  using assms by (auto simp: in_txn_def table_change.tc_refl split: prod.split sum.split)

lemma claim_change:
  assumes "codec_ok J" and U: "j_id ` past \<subseteq> U" and ok: "table_ok J b past (jobs db)"
  shows "table_change J b U (jobs db) (jobs (fst (claim_next_job J now cls owner lease_secs db)))"
proof -
  let ?db = "sanitize_unreadable_pending_on J now db"
  have change: "table_change J b U (jobs db) (jobs ?db)" using U ok by (rule sanitize_change)
  have ok': "table_ok J b past (jobs ?db)" using change ok U by (rule table_ok_change)
  have "table_change J b U (jobs ?db)
      (jobs (fst (claim_loop J now owner lease_secs (claim_candidates now cls ?db) ?db)))"
    using claim_candidates_rows [OF table_okD(1) [OF ok'], of now cls]
    by (intro claim_loop_change [OF assms(1) U ok']) (auto simp: claim_ready_def)
  with change show ?thesis
    unfolding claim_next_job_def
    by (intro in_txn_change) (auto simp: claim_next_job_on_def Let_def intro: table_change_trans)
qed

text \<open>Admission.\<close>

lemma insert_change:
  assumes "insert_job row db = Some db'" and "row_ok J b row" and "active row" and "j_id row \<notin> U"
  shows "table_change J b U (jobs db) (jobs db')"
proof -
  from assms(1,3) have "jobs db' = jobs db @ [row]" "j_id row \<notin> j_id ` set (jobs db)"
    and "\<forall>r \<in> set (jobs db). active r \<longrightarrow> j_dedup_key r \<noteq> j_dedup_key row"
    by (auto simp: insert_job_def split: if_splits)
  then show ?thesis
    using table_change.tc_insert [OF table_change.tc_refl assms(2,4)] by simp
qed

lemma new_job_row_ok [simp]:
  "row_ok J b (new_job_row J now i key spec)" "active (new_job_row J now i key spec)"
  "j_id (new_job_row J now i key spec) = i"
  by (auto simp: new_job_row_def row_defs)

lemma enqueue_on_change:
  assumes "JobKind_as_str (spec_kind spec) @ ''-'' @ uuid \<notin> U"
  shows "table_change J b U (jobs db) (jobs (fst (enqueue_job_on J now uuid spec db)))"
proof -
  have "table_change J b U (jobs db) (jobs db')"
    if "insert_job (new_job_row J now (JobKind_as_str (spec_kind spec) @ ''-'' @ uuid) key spec) db
        = Some db'" for key db'
    using assms by (intro insert_change [OF that]) simp_all
  then show ?thesis
    by (simp add: enqueue_job_on_def Let_def table_change.tc_refl split: sum.split option.split)
qed

lemma enqueue_change:
  assumes "JobKind_as_str (spec_kind spec) @ ''-'' @ uuid \<notin> U"
  shows "table_change J b U (jobs db) (jobs (fst (enqueue_job J now uuid spec db)))"
  unfolding enqueue_job_def by (rule in_txn_change [OF enqueue_on_change [OF assms]])

lemma plan_job_row_ok [simp]:
  "row_ok J b (plan_job_row now i kind payload_json priority max_attempts ra key)"
  "active (plan_job_row now i kind payload_json priority max_attempts ra key)"
  "j_id (plan_job_row now i kind payload_json priority max_attempts ra key) = i"
  by (auto simp: plan_job_row_def row_defs)

lemma plan_enqueue_change:
  assumes "plan_enqueue_job J uuid kind pj pr ma mp ra now db = Some (db', st, found)"
    and "kind @ ''-'' @ uuid \<notin> U"
  shows "table_change J b U (jobs db) (jobs db')"
proof -
  let ?row = "plan_job_row now (kind @ ''-'' @ uuid) kind pj pr ma
    (case ra of None \<Rightarrow> now | Some t \<Rightarrow> t) (plan_dedup_key J kind pj)"
  have "insert_job ?row db = Some db' \<or> db' = db"
    using assms(1) unfolding plan_enqueue_job_def Let_def by (simp split: if_splits) blast?
  then show ?thesis
  proof
    assume "insert_job ?row db = Some db'"
    then show ?thesis by (rule insert_change) (simp_all add: assms(2) [simplified])
  qed (simp add: table_change.tc_refl)
qed

lemma rpc_enqueue_change:
  assumes "JobKind_as_str (spec_kind spec) @ ''-'' @ uuid \<notin> U"
  shows "table_change J b U (jobs db) (jobs (fst (rpc_enqueue_job J now uuid spec db)))"
  using plan_enqueue_change [OF _ assms]
  by (auto simp: rpc_enqueue_job_def table_change.tc_refl split: option.split)

lemma plan_mark_change:
  "table_ok J b past (jobs db) \<Longrightarrow>
   table_change J b U (jobs db) (jobs (plan_mark_unreadable_pending_jobs J now db))"
  unfolding plan_mark_unreadable_pending_jobs_def
  by (erule change_cas) (auto simp: plan_unreadable_set_def row_defs)

text \<open>
  The batch counts an attempt on every claim, so only the lease part of the row invariant is
  preserved on this path.
\<close>

lemma plan_claim_update_change:
  assumes ok: "table_ok J Atomic past (jobs db)"
    and m: "m \<in> set (jobs db)" "j_cancel_requested m = 0"
  shows "table_change J Atomic U (jobs db) (jobs (plan_claim_update now owner lease_secs (j_id m) db))"
  unfolding plan_claim_update_def
proof (rule change_cas [OF ok], elim conjE)
  fix r assume r: "r \<in> set (jobs db)" "row_ok J Atomic r" "j_id r = j_id m" "pending r"
  have "r = m" using distinct_key_unique [OF table_okD(1) [OF ok] r(1) m(1)] r(3) by simp
  with m(2) r(2,4) show "evolves r (plan_claim_set now owner lease_secs r)
      \<and> row_ok J Atomic (plan_claim_set now owner lease_secs r)"
    by (auto simp: plan_claim_set_def row_defs)
qed

lemma rpc_claim_change:
  assumes U: "j_id ` past \<subseteq> U" and ok: "table_ok J Atomic past (jobs db)"
  shows "table_change J Atomic U (jobs db) (jobs (fst (rpc_claim_next_job J now cls owner lease_secs db)))"
proof -
  let ?db = "plan_mark_unreadable_pending_jobs J now db"
  have change: "table_change J Atomic U (jobs db) (jobs ?db)" using ok by (rule plan_mark_change)
  have ok': "table_ok J Atomic past (jobs ?db)" using change ok U by (rule table_ok_change)
  have "table_change J Atomic U (jobs db) (jobs (plan_claim_update now owner n (j_id m) ?db))"
    if "order_by claim_order (filter (plan_claim_ready J now k) (jobs ?db)) = m # ms" for n k m ms
  proof (rule table_change_trans [OF plan_claim_update_change [OF ok'] change])
    have "m \<in> set (order_by claim_order (filter (plan_claim_ready J now k) (jobs ?db)))"
      unfolding that by simp
    then show "m \<in> set (jobs ?db)" "j_cancel_requested m = 0"
      by (auto simp: table_simps plan_claim_ready_def)
  qed
  with change show ?thesis
    by (auto simp: rpc_claim_next_job_def plan_claim_next_job_def Let_def split: list.split)
qed

section \<open>The system\<close>

record 'j job_system =
  q_db :: "'j jobdb"
  q_past :: "'j job_row set"

definition commit :: "'j jobdb \<Rightarrow> 'j job_system \<Rightarrow> 'j job_system" where
  "commit db s = \<lparr>q_db = db, q_past = q_past s \<union> set (jobs db)\<rparr>"

definition empty_queue :: "'j job_system" where
  "empty_queue = \<lparr>q_db = \<lparr>jobs = [], job_temp_paths = [], job_temp_seq = 0\<rparr>, q_past = {}\<rparr>"

definition used_ids :: "'j job_system \<Rightarrow> string set" where
  "used_ids s = j_id ` q_past s"

inductive job_step :: "'j job_codec \<Rightarrow> backend \<Rightarrow> 'j job_system \<Rightarrow> 'j job_system \<Rightarrow> bool" for J b where
  step_enqueue: "b = Local \<Longrightarrow> JobKind_as_str (spec_kind spec) @ ''-'' @ uuid \<notin> used_ids s \<Longrightarrow>
    job_step J b s (commit (fst (enqueue_job J now uuid spec (q_db s))) s)"
| step_rpc_enqueue: "b = Atomic \<Longrightarrow> JobKind_as_str (spec_kind spec) @ ''-'' @ uuid \<notin> used_ids s \<Longrightarrow>
    job_step J b s (commit (fst (rpc_enqueue_job J now uuid spec (q_db s))) s)"
| step_claim: "b = Local \<Longrightarrow>
    job_step J b s (commit (fst (claim_next_job J now cls owner lease_secs (q_db s))) s)"
| step_rpc_claim: "b = Atomic \<Longrightarrow>
    job_step J b s (commit (fst (rpc_claim_next_job J now cls owner lease_secs (q_db s))) s)"
| step_heartbeat: "job_step J b s (commit (fst (heartbeat_job now f lease_secs progress (q_db s))) s)"
| step_progress: "job_step J b s (commit (fst (set_job_progress now f msg (q_db s))) s)"
| step_complete: "job_step J b s (commit (fst (complete_job now f progress (q_db s))) s)"
| step_suspend: "m \<in> q_past s \<Longrightarrow> j_id m = f_job_id f \<Longrightarrow>
    job_step J b s (commit (fst (suspend_job_from J now f c wake_at m (q_db s))) s)"
| step_checkpoint: "m \<in> q_past s \<Longrightarrow> j_id m = f_job_id f \<Longrightarrow>
    job_step J b s (commit (fst (checkpoint_running_job_from J now f c m (q_db s))) s)"
| step_fail: "m \<in> q_past s \<Longrightarrow> j_id m = f_job_id f \<Longrightarrow>
    job_step J b s (commit (fst (fail_job_from J now f ek em m (q_db s))) s)"
| step_cancel_pending: "job_step J b s (commit (fst (mark_job_cancelled_cas now i None
    ''cancelled'' ''cancelled by operator'' None (q_db s))) s)"
| step_cancel_flag: "job_step J b s (commit (fst (flag_cancel_requested now i (q_db s))) s)"
| step_reclaim: "m \<in> q_past s \<Longrightarrow> running m \<Longrightarrow>
    job_step J b s (commit (fst (reclaim_one now m (q_db s))) s)"
| step_mark_invalid: "m \<in> q_past s \<Longrightarrow> try_map_job J m = Inl reason \<Longrightarrow>
    job_step J b s (commit (mark_invalid_job J now (j_id m) reason (q_db s)) s)"
| step_prune: "job_step J b s (commit (fst (prune_terminal_jobs now retention_days (q_db s))) s)"
| step_reserve: "job_step J b s (commit (fst (reserve_job_temp_path now job_id path n quota (q_db s))) s)"
| step_rpc_reserve: "b = Atomic \<Longrightarrow>
    job_step J b s (commit (fst (rpc_reserve_job_temp_path now job_id path n quota (q_db s))) s)"
| step_unregister: "job_step J b s (commit (unregister_job_temp_path job_id path (q_db s)) s)"

inductive_cases job_stepE: "job_step J b s t"

definition system_ok :: "'j job_codec \<Rightarrow> backend \<Rightarrow> 'j job_system \<Rightarrow> bool" where
  "system_ok J b s \<longleftrightarrow> table_ok J b (q_past s) (jobs (q_db s)) \<and> set (jobs (q_db s)) \<subseteq> q_past s"

lemma jobs_reserve [simp]:
  "jobs (fst (reserve_job_temp_path now job_id path n quota db)) = jobs db"
  "jobs (fst (rpc_reserve_job_temp_path now job_id path n quota db)) = jobs db"
  by (auto simp: reserve_job_temp_path_def in_txn_def reserve_job_temp_path_on_def
      rpc_reserve_job_temp_path_def plan_reserve_job_temp_def Let_def
      split: prod.split sum.split option.split if_splits)

lemma jobs_unregister [simp]: "jobs (unregister_job_temp_path job_id path db) = jobs db"
  by (simp add: unregister_job_temp_path_def)

lemma job_step_change:
  assumes "codec_ok J" and "system_ok J b s" and "job_step J b s t"
  obtains db where "t = commit db s"
    and "table_change J b (used_ids s) (jobs (q_db s)) (jobs db)"
proof -
  have ok: "table_ok J b (q_past s) (jobs (q_db s))" using assms(2) by (simp add: system_ok_def)
  have U: "j_id ` q_past s \<subseteq> used_ids s" by (simp add: used_ids_def)
  have refl: "table_change J b (used_ids s) (jobs (q_db s)) (jobs db)" if "jobs db = jobs (q_db s)" for db
    using that by (simp add: table_change.tc_refl)
  note changes = enqueue_change rpc_enqueue_change claim_change [OF assms(1) U ok]
    heartbeat_change [OF ok] progress_change [OF ok] complete_change [OF ok]
    suspend_change [OF assms(1) ok] checkpoint_change [OF assms(1) ok]
    fail_change [OF assms(1) ok] cancelled_change [OF ok] flag_change [OF ok]
    reclaim_change [OF ok] invalid_change [OF ok] prune_change
  from assms(3) have "\<exists>db. t = commit db s
      \<and> table_change J b (used_ids s) (jobs (q_db s)) (jobs db)"
  proof cases
    case step_rpc_claim
    with rpc_claim_change U ok show ?thesis by blast
  qed (rule exI, rule conjI, assumption, ((rule changes; assumption) | (rule refl; simp)))+
  with that show thesis by blast
qed

section \<open>The invariant\<close>

lemma system_ok_empty [simp]: "system_ok J b empty_queue"
  by (simp add: system_ok_def table_ok_def empty_queue_def)

lemma snapshot_self: "snapshot_ok r r"
  by (simp add: snapshot_ok_def)

lemma table_ok_absorb:
  assumes "table_ok J b past T"
  shows "table_ok J b (past \<union> set T) T"
proof -
  have "snapshot_ok m r" if "m \<in> set T" "r \<in> set T" "j_id m = j_id r" for m r
    using distinct_key_unique [OF table_okD(1) [OF assms] that] by (simp add: snapshot_self)
  with assms show ?thesis unfolding table_ok_def by blast
qed

lemma system_ok_step:
  assumes "codec_ok J" and "system_ok J b s" and "job_step J b s t"
  shows "system_ok J b t"
proof -
  obtain db where t: "t = commit db s"
    and change: "table_change J b (used_ids s) (jobs (q_db s)) (jobs db)"
    using job_step_change [OF assms] .
  have "table_ok J b (q_past s) (jobs db)"
    using table_ok_change [OF change] assms(2) by (simp add: system_ok_def used_ids_def)
  with t show ?thesis by (simp add: system_ok_def commit_def table_ok_absorb)
qed

lemma system_ok_steps:
  assumes "codec_ok J" and "(job_step J b)\<^sup>*\<^sup>* s t" and "system_ok J b s"
  shows "system_ok J b t"
  using assms(2,3) by (induction rule: rtranclp_induct) (auto intro: system_ok_step [OF assms(1)])

lemma reachable_ok: "codec_ok J \<Longrightarrow> (job_step J b)\<^sup>*\<^sup>* empty_queue s \<Longrightarrow> system_ok J b s"
  using system_ok_steps system_ok_empty by blast

lemma used_ids_step:
  assumes "codec_ok J" and "system_ok J b s" and "job_step J b s t"
  shows "used_ids s \<subseteq> used_ids t"
proof -
  obtain db where "t = commit db s" using job_step_change [OF assms] .
  then show ?thesis by (auto simp: used_ids_def commit_def)
qed

lemma used_ids_row: "system_ok J b s \<Longrightarrow> r \<in> set (jobs (q_db s)) \<Longrightarrow> j_id r \<in> used_ids s"
  by (auto simp: system_ok_def used_ids_def)

lemma row_step:
  assumes "codec_ok J" and "system_ok J b s" and "job_step J b s t"
    and "r' \<in> set (jobs (q_db t))" and "j_id r' \<in> used_ids s"
  shows "\<exists>r \<in> set (jobs (q_db s)). evolves\<^sup>*\<^sup>* r r'"
proof -
  obtain db where "t = commit db s"
    and "table_change J b (used_ids s) (jobs (q_db s)) (jobs db)"
    using job_step_change [OF assms(1-3)] .
  with assms(4,5) show ?thesis by (auto simp: commit_def dest: table_change_rows)
qed

text \<open>What a sequence of row changes preserves.\<close>

lemma evolves_star_fixed:
  assumes "evolves\<^sup>*\<^sup>* r r'"
  shows "j_id r' = j_id r \<and> j_dedup_key r' = j_dedup_key r \<and> j_max_attempts r' = j_max_attempts r
    \<and> j_priority r' = j_priority r \<and> j_created_at r' = j_created_at r"
  using assms by (induction rule: rtranclp_induct) (simp_all add: evolves_def)

lemma evolves_star_generation:
  assumes "evolves\<^sup>*\<^sup>* r r'"
  shows "j_lease_generation r \<le> j_lease_generation r' \<and>
    (running r' \<longrightarrow> j_lease_generation r < j_lease_generation r' \<or>
      running r \<and> j_lease_owner r' = j_lease_owner r \<and> j_lease_generation r' = j_lease_generation r)"
  using assms
proof (induction rule: rtranclp_induct)
  case base
  then show ?case by simp
next
  case (step y z)
  then show ?case
    using evolves_generation_mono [OF step.hyps(2)] evolves_runningD [OF step.hyps(2)]
    by (cases "running z") auto
qed

lemma evolves_star_cancel:
  assumes "evolves\<^sup>*\<^sup>* r r'" and "j_cancel_requested r \<noteq> 0"
  shows "j_cancel_requested r' \<noteq> 0 \<and> j_lease_generation r' = j_lease_generation r"
  using assms by (induction rule: rtranclp_induct) (auto simp: evolves_def split: if_splits)

lemma evolves_star_terminal:
  assumes "evolves\<^sup>*\<^sup>* r r'" and "terminal r"
  shows "r' = r"
  using assms by (induction rule: rtranclp_induct) (auto simp: evolves_def)

lemma evolves_star_lifecycle:
  assumes "evolves\<^sup>*\<^sup>* r r'"
  shows "lifecycle\<^sup>*\<^sup>* (j_state r) (j_state r')"
  using assms
proof (induction rule: rtranclp_induct)
  case base
  then show ?case by simp
next
  case (step y z)
  from step.hyps(2) have "lifecycle (j_state y) (j_state z)" by (simp add: evolves_def)
  with step.IH show ?case by (rule rtranclp.rtrancl_into_rtrancl)
qed

text \<open>The queue's fences satisfy the lease contract.\<close>

interpretation job_lease: fenced_lease "\<lambda>s. set (jobs (q_db s))" used_ids j_id running j_lease_owner
  j_lease_generation "job_step J b" "\<lambda>s. codec_ok J \<and> system_ok J b s" for J :: "'j job_codec" and b
proof (unfold_locales, goal_cases)
  case (1 s t)
  then show ?case by (blast intro: system_ok_step)
next
  case (2 s r r')
  then show ?case by (auto simp: system_ok_def dest: table_okD(1) distinct_key_unique)
next
  case (3 s r)
  then show ?case by (blast intro: used_ids_row)
next
  case (4 s t)
  then show ?case by (meson used_ids_step)
next
  case (5 s t r')
  then obtain r where "r \<in> set (jobs (q_db s))" and "evolves\<^sup>*\<^sup>* r r'"
    using row_step by blast
  then show ?case using evolves_star_fixed evolves_star_generation by metis
qed

lemma live_fence_iff:
  "job_lease.live s (f_job_id f) (f_owner f) (f_generation f) \<longleftrightarrow> (\<exists>r \<in> set (jobs (q_db s)). fenced f r)"
  by (auto simp: job_lease.live_def fenced_def holds_fence_def)

end
