(* ===== verification/Job_Safety.thy ===== *)
theory Job_Safety
  imports Job_Steps
begin

text \<open>
  What holds of the job queue under every interleaving of its operations, stale readings
  included: the table invariant, the attempt bound, deduplication, fencing, cancellation and the
  finality of terminal states. A small run (\<open>demo_*\<close>) instantiates the statements.
\<close>

section \<open>A small run\<close>

definition demo_spec :: EnqueueJobSpec where
  "demo_spec =
     \<lparr>spec_kind = Scan, spec_payload = JobPayload_default, spec_priority = 0, spec_max_attempts = 3,
      spec_max_pending = 10, spec_run_after = None\<rparr>"

definition demo_fence :: JobFence where
  "demo_fence = \<lparr>f_job_id = ''scan-u'', f_owner = ''w'', f_generation = 1\<rparr>"

definition demo_enqueued :: "plain_text job_system" where
  "demo_enqueued = commit (fst (enqueue_job plain_codec 0 ''u'' demo_spec (q_db empty_queue))) empty_queue"

definition demo_claimed :: "plain_text job_system" where
  "demo_claimed =
     commit (fst (claim_next_job plain_codec 5 Network ''w'' 60 (q_db demo_enqueued))) demo_enqueued"

definition demo_flagged :: "plain_text job_system" where
  "demo_flagged = commit (fst (flag_cancel_requested 6 ''scan-u'' (q_db demo_claimed))) demo_claimed"

definition demo_done :: "plain_text job_system" where
  "demo_done = commit (fst (complete_job 7 demo_fence None (q_db demo_claimed))) demo_claimed"

definition demo_flagged_done :: "plain_text job_system" where
  "demo_flagged_done = commit (fst (complete_job 7 demo_fence None (q_db demo_flagged))) demo_flagged"

definition demo_row :: "plain_text job_row" where
  "demo_row = new_job_row plain_codec 0 ''scan-u'' ''scan:account=all'' demo_spec"

lemma demo_jobs_enqueued: "jobs (q_db demo_enqueued) = [demo_row]"
  by (simp add: demo_enqueued_def commit_def enqueue_job_def in_txn_def enqueue_job_on_def demo_spec_def
      JobPayload_default_def JOB_PAYLOAD_VERSION_def find_active_job_by_dedup_on_def empty_queue_def
      order_by_def count_active_jobs_on_def rows_affected_def insert_job_def demo_row_def
      or_default_def Let_def)

lemma demo_jobs_claimed:
  "jobs (q_db demo_claimed) =
     [demo_row\<lparr>j_state := ''running'', j_attempt_count := 1, j_lease_owner := Some ''w'',
        j_lease_expires_at := Some 60000000005, j_lease_generation := 1,
        j_started_at := Some 5, j_updated_at := 5\<rparr>]"
  by (simp add: demo_claimed_def commit_def claim_next_job_def in_txn_def claim_next_job_on_def
      sanitize_unreadable_pending_on_def demo_jobs_enqueued demo_row_def new_job_row_def demo_spec_def
      pending_def JobResourceClass_ALL_def resource_class_def claim_candidates_def claim_ready_def
      order_by_def try_map_job_def JobKind_parse_def JobState_parse_def JobResourceClass_parse_def
      JobTrigger_parse_def plain_codec_def JobPayload_default_def JOB_PAYLOAD_VERSION_def claim_row_def
      cas_def claim_update_def payload_or_default_def update_many_def rows_affected_def find_by_def
      lease_until_def seconds_def i64_or_def I64_MAX_def Let_def)

lemma demo_jobs_flagged:
  "jobs (q_db demo_flagged) =
     [demo_row\<lparr>j_state := ''running'', j_attempt_count := 1, j_lease_owner := Some ''w'',
        j_lease_expires_at := Some 60000000005, j_lease_generation := 1,
        j_started_at := Some 5, j_updated_at := 6, j_cancel_requested := 1\<rparr>]"
  by (simp add: demo_flagged_def commit_def flag_cancel_requested_def cas_def update_many_def
      demo_jobs_claimed running_def demo_row_def new_job_row_def)

lemma demo_jobs_done:
  "jobs (q_db demo_done) =
     [demo_row\<lparr>j_state := ''succeeded'', j_attempt_count := 1, j_lease_generation := 1,
        j_started_at := Some 5, j_updated_at := 7, j_finished_at := Some 7\<rparr>]"
  by (simp add: demo_done_def commit_def complete_job_def cas_def update_many_def fenced_def
      holds_fence_def demo_fence_def demo_jobs_claimed running_def demo_row_def new_job_row_def
      set_progress_opt_def)

lemma demo_jobs_flagged_done:
  "jobs (q_db demo_flagged_done) =
     [demo_row\<lparr>j_state := ''succeeded'', j_attempt_count := 1, j_lease_generation := 1,
        j_started_at := Some 5, j_updated_at := 7, j_finished_at := Some 7, j_cancel_requested := 1\<rparr>]"
  by (simp add: demo_flagged_done_def commit_def complete_job_def cas_def update_many_def fenced_def
      holds_fence_def demo_fence_def demo_jobs_flagged running_def demo_row_def new_job_row_def
      set_progress_opt_def)

lemma demo_step_claimed: "job_step plain_codec Local demo_enqueued demo_claimed"
  unfolding demo_claimed_def by (rule job_step.step_claim) simp

lemma demo_step_done: "job_step plain_codec Local demo_claimed demo_done"
  unfolding demo_done_def by (rule job_step.step_complete)

lemma demo_step_flagged: "job_step plain_codec Local demo_claimed demo_flagged"
  unfolding demo_flagged_def by (rule job_step.step_cancel_flag)

lemma demo_reach_claimed: "(job_step plain_codec Local)\<^sup>*\<^sup>* empty_queue demo_claimed"
proof -
  have "job_step plain_codec Local empty_queue demo_enqueued"
    unfolding demo_enqueued_def by (rule job_step.step_enqueue) (simp_all add: used_ids_def empty_queue_def)
  then show ?thesis using demo_step_claimed by auto
qed

lemma demo_reach_done: "(job_step plain_codec Local)\<^sup>*\<^sup>* demo_claimed demo_done"
  using demo_step_done by auto

section \<open>Invariants of reachable states\<close>

text \<open>C2: In every reachable state job ids are distinct and every row is well formed: exactly the
  running rows carry a lease (owner, expiry, start), the state is one of the five, exactly the
  terminal rows have a finish time, and the counters are non-negative.\<close>

theorem job_table_invariant:
  assumes "codec_ok J" and "(job_step J b)\<^sup>*\<^sup>* empty_queue s"
  shows "distinct (map j_id (jobs (q_db s))) \<and> (\<forall>r \<in> set (jobs (q_db s)). lease_ok r)"
  using reachable_ok [OF assms] by (auto simp: system_ok_def row_ok_def dest: table_okD)

theorem job_table_invariant_witness:
  "distinct (map j_id (jobs (q_db demo_claimed))) \<and> lease_ok (hd (jobs (q_db demo_claimed)))
   \<and> running (hd (jobs (q_db demo_claimed)))"
  using job_table_invariant [OF codec_ok_plain demo_reach_claimed]
  by (simp add: demo_jobs_claimed running_def)

text \<open>C3: With the library's own claim code no job ever counts more attempts than its maximum, a
  running job has counted at least one, and a pending job that is not resuming has one left.\<close>

theorem job_attempts_bounded:
  assumes "codec_ok J" and "(job_step J Local)\<^sup>*\<^sup>* empty_queue s" and "r \<in> set (jobs (q_db s))"
  shows "j_attempt_count r \<le> j_max_attempts r \<and> (running r \<longrightarrow> 1 \<le> j_attempt_count r)
    \<and> (pending r \<and> \<not> resumes J r \<longrightarrow> j_attempt_count r < j_max_attempts r)"
  using reachable_ok [OF assms(1,2)] assms(3)
  by (auto simp: system_ok_def row_ok_def attempts_ok_def dest: table_okD(2))

theorem job_attempts_bounded_witness:
  "\<exists>r \<in> set (jobs (q_db demo_claimed)). j_attempt_count r \<le> j_max_attempts r \<and> running r
     \<and> 1 \<le> j_attempt_count r"
  using job_attempts_bounded [OF codec_ok_plain demo_reach_claimed]
  by (simp add: demo_jobs_claimed running_def)

text \<open>C8: On both backends at most one job per deduplication key is pending or running.\<close>

theorem job_dedup_unique:
  assumes "codec_ok J" and "(job_step J b)\<^sup>*\<^sup>* empty_queue s"
    and "r \<in> set (jobs (q_db s))" and "r' \<in> set (jobs (q_db s))"
    and "active r" and "active r'" and "j_dedup_key r = j_dedup_key r'"
  shows "r = r'"
  using reachable_ok [OF assms(1,2)] assms(3-) table_okD(5) unfolding system_ok_def by blast

theorem job_dedup_unique_witness:
  "active (hd (jobs (q_db demo_claimed))) \<and> hd (jobs (q_db demo_claimed)) = last (jobs (q_db demo_claimed))"
  using job_dedup_unique [OF codec_ok_plain demo_reach_claimed,
      of "hd (jobs (q_db demo_claimed))" "last (jobs (q_db demo_claimed))"]
  by (simp add: demo_jobs_claimed active_def)

section \<open>Fencing\<close>

text \<open>Two workers never hold live fences on the same job: fences of one job that are both live
  in a reachable state are equal.\<close>

theorem live_fence_unique:
  assumes "codec_ok J" and "(job_step J b)\<^sup>*\<^sup>* empty_queue s" and "f_job_id f = f_job_id g"
    and "\<exists>r \<in> set (jobs (q_db s)). fenced f r" and "\<exists>r \<in> set (jobs (q_db s)). fenced g r"
  shows "f = g"
proof -
  have "codec_ok J \<and> system_ok J b s" using assms(1) reachable_ok [OF assms(1,2)] by simp
  moreover have "job_lease.live s (f_job_id f) (f_owner f) (f_generation f)"
    and "job_lease.live s (f_job_id f) (f_owner g) (f_generation g)"
    using assms(3-) live_fence_iff [of s f] live_fence_iff [of s g] by simp_all
  ultimately have "f_owner f = f_owner g \<and> f_generation f = f_generation g"
    by (rule job_lease.live_unique)
  with assms(3) show ?thesis by simp
qed

lemma demo_fence_live: "\<exists>r \<in> set (jobs (q_db demo_claimed)). fenced demo_fence r"
  by (simp add: demo_jobs_claimed fenced_def holds_fence_def demo_fence_def running_def demo_row_def
      new_job_row_def)

lemma demo_fence_lost: "\<not> (\<exists>r \<in> set (jobs (q_db demo_done)). fenced demo_fence r)"
  by (simp add: demo_jobs_done fenced_def holds_fence_def demo_fence_def running_def)

theorem live_fence_unique_witness:
  "(\<exists>r \<in> set (jobs (q_db demo_claimed)). fenced demo_fence r)
   \<and> demo_fence = \<lparr>f_job_id = ''scan-u'', f_owner = ''w'', f_generation = 1\<rparr>"
proof -
  let ?g = "\<lparr>f_job_id = ''scan-u'', f_owner = ''w'', f_generation = 1\<rparr>"
  have "f_job_id demo_fence = f_job_id ?g" by (simp add: demo_fence_def)
  moreover have "\<exists>r \<in> set (jobs (q_db demo_claimed)). fenced ?g r"
    using demo_fence_live by (simp add: demo_fence_def)
  ultimately have "demo_fence = ?g"
    using live_fence_unique [OF codec_ok_plain demo_reach_claimed _ demo_fence_live] by blast
  with demo_fence_live show ?thesis by simp
qed

lemma cas_no_row:
  assumes "\<And>r. r \<in> set (jobs db) \<Longrightarrow> \<not> P r"
  shows "cas P f db = (db, False)"
proof -
  have "rows_affected P (jobs db) = 0" using assms by (simp add: rows_affected_0_iff)
  then show ?thesis by (simp add: cas_def rows_affected_0_update_many)
qed

lemma dead_fence_no_effect:
  assumes "\<not> (\<exists>r \<in> set (jobs db). fenced f r)"
  shows "heartbeat_job now f lease_secs progress db = (db, False)"
    and "set_job_progress now f msg db = (db, False)"
    and "complete_job now f progress db = (db, False)"
    and "fst (suspend_job_from J now f c wake_at m db) = db"
    and "fst (checkpoint_running_job_from J now f c m db) = db"
    and "fst (fail_job_from J now f ek em m db) = db"
proof -
  have none: "cas (fenced f) g db = (db, False)" for g by (rule cas_no_row) (use assms in blast)
  then show "heartbeat_job now f lease_secs progress db = (db, False)"
    and "set_job_progress now f msg db = (db, False)"
    and "complete_job now f progress db = (db, False)"
    and "fst (suspend_job_from J now f c wake_at m db) = db"
    and "fst (checkpoint_running_job_from J now f c m db) = db"
    by (simp_all add: heartbeat_job_def set_job_progress_def complete_job_def suspend_job_from_def
        checkpoint_running_job_from_def split: sum.split)
  have "mark_job_cancelled_cas now (f_job_id f) (Some f) k e None db = (db, False)" for k e
    unfolding mark_job_cancelled_cas_def by (rule cas_no_row) (use assms in \<open>auto simp: fenced_def\<close>)
  with none show "fst (fail_job_from J now f ek em m db) = db" by (simp add: fail_job_from_def)
qed

text \<open>C1: A worker whose fence was live and has since been lost (its lease was reclaimed, the job
  was finished, cancelled or claimed again) can never again change the database through it: in
  every later state heartbeat, progress and completion report \<open>false\<close>, and suspension,
  checkpoint and failure, whatever earlier reading of the row they act on, change nothing.\<close>

theorem lost_fence_is_inert:
  assumes "codec_ok J" and "(job_step J b)\<^sup>*\<^sup>* empty_queue s"
    and "\<exists>r \<in> set (jobs (q_db s)). fenced f r"
    and "(job_step J b)\<^sup>*\<^sup>* s t" and "\<not> (\<exists>r \<in> set (jobs (q_db t)). fenced f r)"
    and "(job_step J b)\<^sup>*\<^sup>* t u"
  shows "heartbeat_job now f lease_secs progress (q_db u) = (q_db u, False)
    \<and> set_job_progress now f msg (q_db u) = (q_db u, False)
    \<and> complete_job now f progress (q_db u) = (q_db u, False)
    \<and> fst (suspend_job_from J now f c wake_at m (q_db u)) = q_db u
    \<and> fst (checkpoint_running_job_from J now f c m (q_db u)) = q_db u
    \<and> fst (fail_job_from J now f ek em m (q_db u)) = q_db u"
proof -
  have "codec_ok J \<and> system_ok J b s" using assms(1) reachable_ok [OF assms(1,2)] by simp
  then have "\<not> (\<exists>r \<in> set (jobs (q_db u)). fenced f r)"
    using job_lease.lost_fence_stays_lost [of J b s "f_job_id f" "f_owner f" "f_generation f" t u]
      assms(3-) by (simp add: live_fence_iff)
  from dead_fence_no_effect [OF this] show ?thesis by simp
qed

theorem lost_fence_is_inert_witness:
  "complete_job 9 demo_fence None (q_db demo_done) = (q_db demo_done, False)
   \<and> fst (complete_job 7 demo_fence None (q_db demo_claimed)) \<noteq> q_db demo_claimed"
proof -
  have "complete_job 9 demo_fence None (q_db demo_done) = (q_db demo_done, False)"
    using lost_fence_is_inert [OF codec_ok_plain demo_reach_claimed demo_fence_live demo_reach_done
        demo_fence_lost rtranclp.rtrancl_refl] by blast
  moreover have "q_db demo_done \<noteq> q_db demo_claimed" using demo_fence_live demo_fence_lost by auto
  ultimately show ?thesis by (simp add: demo_done_def commit_def)
qed

section \<open>Cancellation and final states\<close>

lemma row_steps:
  assumes J: "codec_ok J" and "(job_step J b)\<^sup>*\<^sup>* s t" and "system_ok J b s"
    and "r' \<in> set (jobs (q_db t))" and "j_id r' \<in> used_ids s"
  shows "\<exists>r \<in> set (jobs (q_db s)). evolves\<^sup>*\<^sup>* r r'"
  using assms(2-)
proof (induction arbitrary: r' rule: rtranclp_induct)
  case base
  then show ?case by blast
next
  case (step t u)
  have ok: "codec_ok J \<and> system_ok J b t"
    using J system_ok_steps [OF J step.hyps(1) step.prems(1)] by simp
  have "used_ids s \<subseteq> used_ids t"
    using step.hyps(1) step.prems(1)
    by (induction rule: rtranclp_induct) (use J system_ok_steps used_ids_step in blast)+
  then obtain q where q: "q \<in> set (jobs (q_db t))" "evolves\<^sup>*\<^sup>* q r'"
    using row_step [OF J _ step.hyps(2) step.prems(2)] ok step.prems(3) by blast
  with step.prems(3) have "j_id q \<in> used_ids s" using evolves_star_fixed by metis
  with step.IH [OF step.prems(1) q(1)] q(2) show ?case by (meson rtranclp_trans)
qed

lemma same_row_steps:
  assumes J: "codec_ok J" and "(job_step J b)\<^sup>*\<^sup>* empty_queue s" and st: "(job_step J b)\<^sup>*\<^sup>* s t"
    and r: "r \<in> set (jobs (q_db s))" "r' \<in> set (jobs (q_db t))" "j_id r' = j_id r"
  shows "evolves\<^sup>*\<^sup>* r r'"
proof -
  have ok: "system_ok J b s" using reachable_ok [OF assms(1,2)] .
  obtain q where q: "q \<in> set (jobs (q_db s))" "evolves\<^sup>*\<^sup>* q r'"
    using row_steps [OF J st ok r(2)] used_ids_row [OF ok r(1)] r(3) by auto
  then have "j_id q = j_id r" using evolves_star_fixed [OF q(2)] r(3) by simp
  then have "q = r"
    using ok q(1) r(1) by (auto simp: system_ok_def dest: table_okD(1) distinct_key_unique)
  with q(2) show ?thesis by simp
qed

text \<open>C17: A cancel request is never lost. Once a job's flag is set it stays set for as long as the
  row exists, and the job is never claimed again: its lease generation does not change any
  more.\<close>

theorem cancel_request_sticks:
  assumes "codec_ok J" and "(job_step J b)\<^sup>*\<^sup>* empty_queue s" and "(job_step J b)\<^sup>*\<^sup>* s t"
    and "r \<in> set (jobs (q_db s))" and "j_cancel_requested r \<noteq> 0"
    and "r' \<in> set (jobs (q_db t))" and "j_id r' = j_id r"
  shows "j_cancel_requested r' \<noteq> 0 \<and> j_lease_generation r' = j_lease_generation r"
  using evolves_star_cancel [OF same_row_steps [OF assms(1-4) assms(6,7)] assms(5)] .

theorem cancel_request_sticks_witness:
  "j_cancel_requested (hd (jobs (q_db demo_flagged_done))) \<noteq> 0
   \<and> terminal (hd (jobs (q_db demo_flagged_done)))"
proof -
  have "(job_step plain_codec Local)\<^sup>*\<^sup>* demo_flagged demo_flagged_done"
    unfolding demo_flagged_done_def using job_step.step_complete by blast
  then show ?thesis
    using cancel_request_sticks [OF codec_ok_plain
        rtranclp.rtrancl_into_rtrancl [OF demo_reach_claimed demo_step_flagged],
        of demo_flagged_done "hd (jobs (q_db demo_flagged))" "hd (jobs (q_db demo_flagged_done))"]
    by (simp add: demo_jobs_flagged demo_jobs_flagged_done terminal_def)
qed

text \<open>Succeeded, failed and cancelled are final: from then on no operation changes any column
  of the row; it can only be deleted.\<close>

theorem terminal_rows_are_final:
  assumes "codec_ok J" and "(job_step J b)\<^sup>*\<^sup>* empty_queue s" and "(job_step J b)\<^sup>*\<^sup>* s t"
    and "r \<in> set (jobs (q_db s))" and "terminal r"
    and "r' \<in> set (jobs (q_db t))" and "j_id r' = j_id r"
  shows "r' = r"
  using evolves_star_terminal [OF same_row_steps [OF assms(1-4) assms(6,7)] assms(5)] .

theorem terminal_rows_are_final_witness:
  "terminal (hd (jobs (q_db demo_done)))
   \<and> jobs (fst (flag_cancel_requested 9 ''scan-u'' (q_db demo_done))) = jobs (q_db demo_done)"
proof -
  let ?t = "commit (fst (flag_cancel_requested 9 ''scan-u'' (q_db demo_done))) demo_done"
  have "(job_step plain_codec Local)\<^sup>*\<^sup>* demo_done ?t" using job_step.step_cancel_flag by blast
  moreover obtain r' where r': "jobs (q_db ?t) = [r']" "j_id r' = ''scan-u''"
    by (simp add: commit_def flag_cancel_requested_def cas_def update_many_def demo_jobs_done running_def
        demo_row_def new_job_row_def)
  moreover have "j_id demo_row = ''scan-u''" by (simp add: demo_row_def)
  ultimately have "r' = hd (jobs (q_db demo_done))"
    using terminal_rows_are_final [OF codec_ok_plain rtranclp_trans [OF demo_reach_claimed demo_reach_done],
        of ?t "hd (jobs (q_db demo_done))" r']
    by (simp add: demo_jobs_done terminal_def)
  with r' show ?thesis by (simp add: commit_def demo_jobs_done terminal_def)
qed

text \<open>Between any two states the row of a job moves only along the lifecycle
  (pending to running, failed or cancelled; running to pending or a terminal state) and keeps its
  deduplication key, priority, creation time and attempt limit.\<close>

theorem job_lifecycle:
  assumes "codec_ok J" and "(job_step J b)\<^sup>*\<^sup>* empty_queue s" and "(job_step J b)\<^sup>*\<^sup>* s t"
    and "r \<in> set (jobs (q_db s))" and "r' \<in> set (jobs (q_db t))" and "j_id r' = j_id r"
  shows "lifecycle\<^sup>*\<^sup>* (j_state r) (j_state r') \<and> j_dedup_key r' = j_dedup_key r
    \<and> j_priority r' = j_priority r \<and> j_created_at r' = j_created_at r
    \<and> j_max_attempts r' = j_max_attempts r"
  using evolves_star_lifecycle evolves_star_fixed same_row_steps [OF assms] by blast

theorem job_lifecycle_witness:
  "lifecycle\<^sup>*\<^sup>* ''running'' ''succeeded''"
  using job_lifecycle [OF codec_ok_plain demo_reach_claimed demo_reach_done]
  by (simp add: demo_jobs_claimed demo_jobs_done)

section \<open>Whole operations are runs of steps\<close>

text \<open>
  \<open>runs_to J b s db\<close>: some sequence of steps leads from \<open>s\<close> to a state with database \<open>db\<close>. An
  operation that reads and then writes, or that loops, is such a sequence when nothing else runs
  in between, so the theorems above cover it.
\<close>

definition runs_to :: "'j job_codec \<Rightarrow> backend \<Rightarrow> 'j job_system \<Rightarrow> 'j jobdb \<Rightarrow> bool" where
  "runs_to J b s db \<longleftrightarrow>
     (\<exists>t. (job_step J b)\<^sup>*\<^sup>* s t \<and> q_db t = db \<and> q_past s \<subseteq> q_past t \<and> set (jobs db) \<subseteq> q_past t)"

lemma runs_to_refl: "set (jobs (q_db s)) \<subseteq> q_past s \<Longrightarrow> runs_to J b s (q_db s)"
  by (auto simp: runs_to_def)

lemma runs_to_step: "job_step J b s (commit db s) \<Longrightarrow> runs_to J b s db"
  unfolding runs_to_def by (intro exI [of _ "commit db s"]) (auto simp: commit_def)

lemma runs_to_trans:
  assumes "runs_to J b s db1"
    and "\<And>t. q_db t = db1 \<Longrightarrow> q_past s \<subseteq> q_past t \<Longrightarrow> set (jobs db1) \<subseteq> q_past t \<Longrightarrow> runs_to J b t db2"
  shows "runs_to J b s db2"
proof -
  from assms(1) obtain t where t: "(job_step J b)\<^sup>*\<^sup>* s t" "q_db t = db1" "q_past s \<subseteq> q_past t"
    "set (jobs db1) \<subseteq> q_past t" by (auto simp: runs_to_def)
  with assms(2) obtain u where "(job_step J b)\<^sup>*\<^sup>* t u" "q_db u = db2" "q_past t \<subseteq> q_past u"
    "set (jobs db2) \<subseteq> q_past u" unfolding runs_to_def by blast
  with t show ?thesis
    unfolding runs_to_def by (intro exI [of _ u]) (auto intro: rtranclp_trans [of "job_step J b" s t u])
qed

lemma find_by_past:
  assumes "set (jobs (q_db s)) \<subseteq> q_past s" and "find_by j_id i (jobs (q_db s)) = Some m"
  shows "m \<in> q_past s" and "j_id m = i"
  using assms by (auto dest: find_by_SomeD)

lemma runs_to_get_job:
  assumes "set (jobs (q_db s)) \<subseteq> q_past s"
  shows "runs_to J b s (fst (get_job J now i (q_db s)))"
proof -
  have "runs_to J b s (mark_invalid_job J now i reason (q_db s))"
    if "find_by j_id i (jobs (q_db s)) = Some m" "try_map_job J m = Inl reason" for m reason
    using runs_to_step [OF job_step.step_mark_invalid [of m s J reason b now]] find_by_past [OF assms that(1)]
      that(2) by simp
  with runs_to_refl [OF assms] show ?thesis
    by (auto simp: get_job_def Let_def split: option.split sum.split)
qed

lemma runs_to_list_jobs_loop:
  assumes "set (jobs (q_db s)) \<subseteq> q_past s" and "set rows \<subseteq> q_past s"
  shows "runs_to J b s (fst (list_jobs_loop J now rows (q_db s)))"
  using assms
proof (induction rows arbitrary: s)
  case Nil
  then show ?case by (simp add: runs_to_refl)
next
  case (Cons row rows)
  show ?case
  proof (cases "try_map_job J row")
    case (Inr job)
    with Cons show ?thesis by (simp add: split_beta)
  next
    case (Inl reason)
    let ?db1 = "mark_invalid_job J now (j_id row) reason (q_db s)"
    have "runs_to J b s ?db1"
      using Cons.prems(2) Inl by (intro runs_to_step job_step.step_mark_invalid) auto
    then have "runs_to J b s (fst (get_job J now (j_id row) ?db1))"
      by (rule runs_to_trans) (metis runs_to_get_job)
    then have "runs_to J b s (fst (list_jobs_loop J now rows (fst (get_job J now (j_id row) ?db1))))"
    proof (rule runs_to_trans)
      fix t :: "'a job_system" assume t: "q_db t = fst (get_job J now (j_id row) ?db1)" "q_past s \<subseteq> q_past t"
        "set (jobs (fst (get_job J now (j_id row) ?db1))) \<subseteq> q_past t"
      then show "runs_to J b t (fst (list_jobs_loop J now rows (fst (get_job J now (j_id row) ?db1))))"
        using Cons.IH [of t] Cons.prems(2) by auto
    qed
    with Inl show ?thesis by (simp add: split_beta Let_def)
  qed
qed

lemma runs_to_reclaim_loop:
  assumes "set (jobs (q_db s)) \<subseteq> q_past s" and "set ms \<subseteq> q_past s" and "\<forall>m \<in> set ms. running m"
  shows "runs_to J b s (fst (reclaim_loop now ms (q_db s)))"
  using assms
proof (induction ms arbitrary: s)
  case Nil
  then show ?case by (simp add: runs_to_refl)
next
  case (Cons m ms)
  have "runs_to J b s (fst (reclaim_one now m (q_db s)))"
    using Cons.prems by (intro runs_to_step job_step.step_reclaim) auto
  then have "runs_to J b s (fst (reclaim_loop now ms (fst (reclaim_one now m (q_db s)))))"
  proof (rule runs_to_trans)
    fix t :: "'a job_system" assume t: "q_db t = fst (reclaim_one now m (q_db s))" "q_past s \<subseteq> q_past t"
      "set (jobs (fst (reclaim_one now m (q_db s)))) \<subseteq> q_past t"
    then show "runs_to J b t (fst (reclaim_loop now ms (fst (reclaim_one now m (q_db s)))))"
      using Cons.IH [of t] Cons.prems(2,3) by auto
  qed
  then show ?case by (simp add: split_beta Let_def)
qed

lemma runs_to_cancel_iter:
  assumes "set (jobs (q_db s)) \<subseteq> q_past s"
  shows "runs_to J b s (case request_job_cancel_iter J now i (q_db s) of Inl db \<Rightarrow> db | Inr res \<Rightarrow> fst res)"
proof -
  have pend: "runs_to J b s (fst (mark_job_cancelled_cas now i None ''cancelled'' ''cancelled by operator'' None (q_db s)))"
    by (intro runs_to_step job_step.step_cancel_pending)
  have flag: "runs_to J b s (fst (flag_cancel_requested now i (q_db s)))"
    by (intro runs_to_step job_step.step_cancel_flag)
  have get: "runs_to J b s (fst (get_job J now i db))" if "runs_to J b s db" for db
    using that by (rule runs_to_trans) (metis runs_to_get_job)
  have inv: "runs_to J b s (mark_invalid_job J now i reason (q_db s))"
    if "find_by j_id i (jobs (q_db s)) = Some m" "try_map_job J m = Inl reason" for m reason
    using runs_to_step [OF job_step.step_mark_invalid [of m s J reason b now]] find_by_past [OF assms that(1)]
      that(2) by simp
  have "runs_to J b s db'" if "find_by j_id i (jobs (q_db s)) = Some m" "try_map_job J m = Inl reason"
    "get_job J now i (mark_invalid_job J now i reason (q_db s)) = (db', res)" for m reason db' res
    using get [OF inv [OF that(1,2)]] that(3) by simp
  with runs_to_refl [OF assms] pend flag get [OF pend] get [OF flag] show ?thesis
    by (simp add: request_job_cancel_iter_def Let_def split_beta split: option.split sum.split) blast
qed

lemma runs_to_cancel_loop:
  assumes "set (jobs (q_db s)) \<subseteq> q_past s"
  shows "runs_to J b s (fst (request_job_cancel_loop n J now i (q_db s)))"
  using assms
proof (induction n arbitrary: s)
  case 0
  then show ?case by (simp add: runs_to_get_job)
next
  case (Suc n)
  show ?case
  proof (cases "request_job_cancel_iter J now i (q_db s)")
    case (Inl db)
    with runs_to_cancel_iter [OF Suc.prems] have "runs_to J b s db" by (metis old.sum.simps(5))
    then have "runs_to J b s (fst (request_job_cancel_loop n J now i db))"
      by (rule runs_to_trans) (metis Suc.IH)
    with Inl show ?thesis by simp
  next
    case (Inr res)
    with runs_to_cancel_iter [OF Suc.prems] show ?thesis by (metis old.sum.simps(6) request_job_cancel_loop.simps(2))
  qed
qed



end
