(* ===== verification/Job_Ops.thy ===== *)
theory Job_Ops
  imports Job_Steps
begin

text \<open>
  What the single operations of the job queue compute: the backoff schedule, deduplication keys,
  admission, the choice made by a claim, suspension and resumption, operator cancellation,
  reclaiming of expired leases, and scratch quotas.
\<close>

section \<open>Backoff\<close>

text \<open>The retry delay is five seconds after the first attempt and doubles with every further
  attempt up to the cap of fifteen minutes; it is never outside these bounds.\<close>

theorem job_backoff_doubles:
  "job_backoff_secs 1 = 5 \<and> (\<forall>n \<ge> 1. job_backoff_secs (n + 1) = min 900 (2 * job_backoff_secs n))
   \<and> (\<forall>n. 5 \<le> job_backoff_secs n \<and> job_backoff_secs n \<le> 900)"
proof (intro conjI allI impI)
  show "job_backoff_secs 1 = 5" by (simp add: job_backoff_secs_def)
next
  fix n :: int assume "1 \<le> n"
  show "job_backoff_secs (n + 1) = min 900 (2 * job_backoff_secs n)"
  proof (cases "n \<le> 8")
    case True
    with \<open>1 \<le> n\<close> have "n \<in> {1..8}" by simp
    then have "n \<in> {1, 2, 3, 4, 5, 6, 7, 8}" by auto
    then show ?thesis by (auto simp: job_backoff_secs_def Let_def)
  next
    case False
    then show ?thesis by (simp add: job_backoff_secs_def Let_def)
  qed
next
  fix n :: int
  show "5 \<le> job_backoff_secs n" by (simp add: job_backoff_secs_def Let_def)
  show "job_backoff_secs n \<le> 900" by (simp add: job_backoff_secs_def Let_def)
qed

theorem job_backoff_doubles_witness:
  "job_backoff_secs (3 + 1) = 40 \<and> job_backoff_secs (9 + 1) = 900"
  using job_backoff_doubles by (simp add: job_backoff_secs_def)

section \<open>Deduplication keys\<close>

text \<open>Jobs of different kinds never share a deduplication key.\<close>

theorem dedup_key_kind:
  assumes "dedup_key k p = dedup_key k' p'"
  shows "k = k'"
  using assms by (cases k; cases k') auto

theorem dedup_key_kind_witness:
  "dedup_key Scan JobPayload_default = dedup_key Scan (JobPayload_default\<lparr>p_title := Some ''t''\<rparr>)
   \<and> Scan = Scan"
  using dedup_key_kind [of Scan JobPayload_default Scan "JobPayload_default\<lparr>p_title := Some ''t''\<rparr>"]
  by (simp add: JobPayload_default_def)

text \<open>The key of an acquire job does not determine its title and account.\<close>

lemma acquire_dedup_collision:
  "dedup_key Acquire (JobPayload_default\<lparr>p_title := Some ''x:account=y'', p_account := Some ''z''\<rparr>)
   = dedup_key Acquire (JobPayload_default\<lparr>p_title := Some ''x'', p_account := Some ''y:account=z''\<rparr>)"
  by (simp add: or_default_def)

section \<open>Claiming\<close>

definition claimable :: "'j job_codec \<Rightarrow> 'j job_row \<Rightarrow> bool" where
  "claimable J r \<longleftrightarrow> j_cancel_requested r = 0 \<and> (\<exists>job. try_map_job J r = Inr job)"

lemma try_map_job_Inr_iff:
  "try_map_job J m = Inr job \<longleftrightarrow>
     (\<exists>k st c p. JobKind_parse (j_kind m) = Some k \<and> JobState_parse (j_state m) = Some st
        \<and> JobResourceClass_parse (j_resource_class m) = Some c \<and> from_str J (j_payload m) = Inr p
        \<and> p_v p = JOB_PAYLOAD_VERSION \<and> job = job_record m k st c p)"
  by (auto simp: try_map_job_def split: option.split sum.split)

lemma try_map_claim_update:
  assumes "codec_ok J" and "try_map_job J m = Inr job"
  shows "\<exists>job'. try_map_job J (claim_update J now owner lease_secs m m) = Inr job'
    \<and> fence job' = Some \<lparr>f_job_id = j_id m, f_owner = owner, f_generation = j_lease_generation m + 1\<rparr>
    \<and> rec_state job' = Running \<and> rec_kind job' = rec_kind job
    \<and> rec_payload job' = (rec_payload job)\<lparr>p_resume_pending := False\<rparr>"
proof -
  from assms(2) obtain k st c p where m: "JobKind_parse (j_kind m) = Some k"
    "JobState_parse (j_state m) = Some st" "JobResourceClass_parse (j_resource_class m) = Some c"
    "from_str J (j_payload m) = Inr p" "p_v p = JOB_PAYLOAD_VERSION" "job = job_record m k st c p"
    by (auto simp: try_map_job_Inr_iff)
  have "JobState_parse ''running'' = Some Running" by (simp add: JobState_parse_def)
  with m assms(1) show ?thesis
    by (cases "p_resume_pending p")
      (auto simp: try_map_job_Inr_iff claim_update_def payload_or_default_def job_record_def fence_def
        codec_okD Let_def)
qed

lemma claim_row_hit:
  assumes "distinct (map j_id (jobs db))" and "m \<in> set (jobs db)" and "pending m"
  shows "snd (claim_row J now owner lease_secs m db)"
    and "find_by j_id (j_id m) (jobs (fst (claim_row J now owner lease_secs m db)))
         = Some (claim_update J now owner lease_secs m m)"
proof -
  have hit: "\<exists>r \<in> set (jobs db). j_id r = j_id m \<and> pending r" using assms(2,3) by blast
  show "snd (claim_row J now owner lease_secs m db)"
    using rows_affected_key_eq_1_iff [OF assms(1), of "\<lambda>r. j_id r = j_id m \<and> pending r"] hit
    by (simp add: claim_row_def cas_def)
  have ids: "map j_id (jobs (fst (claim_row J now owner lease_secs m db))) = map j_id (jobs db)"
    unfolding claim_row_def cas_def
    by (simp, intro map_update_many_key) (simp add: claim_update_def Let_def)
  have "claim_update J now owner lease_secs m m \<in> set (jobs (fst (claim_row J now owner lease_secs m db)))"
    using assms(2,3) by (auto simp: claim_row_def cas_def table_simps)
  moreover have "j_id (claim_update J now owner lease_secs m m) = j_id m"
    by (simp add: claim_update_def Let_def)
  ultimately show "find_by j_id (j_id m) (jobs (fst (claim_row J now owner lease_secs m db)))
         = Some (claim_update J now owner lease_secs m m)"
    using assms(1) ids by (intro find_by_eq_Some) simp_all
qed

lemma ids_cas:
  assumes "\<And>r. j_id (f r) = j_id r"
  shows "map j_id (jobs (fst (cas P f db))) = map j_id (jobs db)"
  using assms by (simp add: cas_def map_update_many_key)

lemma ids_retire [simp]:
  "map j_id (jobs (cancel_pending_row now i db)) = map j_id (jobs db)"
  "map j_id (jobs (mark_pending_job_invalid_on J now i reason db)) = map j_id (jobs db)"
  unfolding cancel_pending_row_def mark_pending_job_invalid_on_def by (simp_all add: ids_cas)

lemma claim_loop_picks:
  assumes "codec_ok J" and "distinct (map j_id (jobs db))" and "set models \<subseteq> set (jobs db)"
    and "distinct (map j_id models)" and "\<forall>m \<in> set models. pending m"
  shows "case find (claimable J) models of
      None \<Rightarrow> snd (claim_loop J now owner lease_secs models db) = Inr None
    | Some m \<Rightarrow> \<exists>job. snd (claim_loop J now owner lease_secs models db) = Inr (Some job)
        \<and> try_map_job J (claim_update J now owner lease_secs m m) = Inr job
        \<and> claim_update J now owner lease_secs m m
          \<in> set (jobs (fst (claim_loop J now owner lease_secs models db)))"
  using assms(2-)
proof (induction models arbitrary: db)
  case Nil
  then show ?case by simp
next
  case (Cons m ms)
  have rest: "x \<in> set (jobs db) \<and> j_id x \<noteq> j_id m" if "x \<in> set ms" for x
    using Cons.prems(2,3) that by (fastforce simp: image_iff)
  have m: "m \<in> set (jobs db)" "pending m" using Cons.prems by auto
  show ?case
  proof (cases "claimable J m")
    case True
    then obtain job where job: "j_cancel_requested m = 0" "try_map_job J m = Inr job"
      by (auto simp: claimable_def)
    obtain job' where "try_map_job J (claim_update J now owner lease_secs m m) = Inr job'"
      using try_map_claim_update [OF assms(1) job(2)] by blast
    with True job claim_row_hit [OF Cons.prems(1) m, of J now owner lease_secs] show ?thesis
      by (auto simp: split_beta Let_def dest: find_by_SomeD)
  next
    case False
    define db' where "db' = (if j_cancel_requested m \<noteq> 0 then cancel_pending_row now (j_id m) db
       else case try_map_job J m of Inl e \<Rightarrow> mark_pending_job_invalid_on J now (j_id m) e db | Inr _ \<Rightarrow> db)"
    have next_db: "claim_loop J now owner lease_secs (m # ms) db = claim_loop J now owner lease_secs ms db'"
      using False by (auto simp: db'_def claimable_def split: sum.split)
    have "distinct (map j_id (jobs db'))" and "set ms \<subseteq> set (jobs db')"
      using Cons.prems(1) rest by (auto simp: db'_def intro: keeps_other_rows split: sum.split)
    with Cons.IH [of db'] Cons.prems(3,4) False show ?thesis unfolding next_db by simp
  qed
qed

lemma sanitize_keeps_ready:
  assumes "distinct (map j_id (jobs db))"
  shows "filter (claim_ready now cls) (jobs (sanitize_unreadable_pending_on J now' db))
       = filter (claim_ready now cls) (jobs db)"
    and "map j_id (jobs (sanitize_unreadable_pending_on J now' db)) = map j_id (jobs db)"
proof -
  have loop: "filter (claim_ready now cls) (jobs (mark_suspects J now' ms db))
        = filter (claim_ready now cls) (jobs db)
      \<and> map j_id (jobs (mark_suspects J now' ms db)) = map j_id (jobs db)"
    if "\<forall>m \<in> set ms. \<forall>r \<in> set (jobs db). j_id r = j_id m \<longrightarrow> \<not> claim_ready now cls r" for ms db
    using that
  proof (induction ms arbitrary: db)
    case Nil
    then show ?case by simp
  next
    case (Cons m ms)
    let ?db = "mark_pending_job_invalid_on J now' (j_id m)
      (''unknown job resource class '' @ quoted (j_resource_class m)) db"
    have same: "filter (claim_ready now cls) (jobs ?db) = filter (claim_ready now cls) (jobs db)"
      unfolding mark_pending_job_invalid_on_def cas_def using Cons.prems
      by (simp, intro filter_update_many) (auto simp: claim_ready_def pending_def)
    have "\<forall>x \<in> set ms. \<forall>r \<in> set (jobs ?db). j_id r = j_id x \<longrightarrow> \<not> claim_ready now cls r"
      using Cons.prems arg_cong [OF same, of set] by auto
    from Cons.IH [OF this] same show ?case by simp
  qed
  let ?sus = "take 32 (filter (\<lambda>r. pending r \<and> j_resource_class r \<notin> set JobResourceClass_ALL) (jobs db))"
  have "\<not> claim_ready now cls r" if "m \<in> set ?sus" "r \<in> set (jobs db)" "j_id r = j_id m" for m r
  proof -
    have "m \<in> set (jobs db)" "j_resource_class m \<notin> set JobResourceClass_ALL"
      using that(1) by (auto dest: in_set_takeD)
    with that distinct_key_unique [OF assms] show ?thesis
      by (cases cls) (auto simp: claim_ready_def JobResourceClass_ALL_def)
  qed
  then show "filter (claim_ready now cls) (jobs (sanitize_unreadable_pending_on J now' db))
       = filter (claim_ready now cls) (jobs db)"
    and "map j_id (jobs (sanitize_unreadable_pending_on J now' db)) = map j_id (jobs db)"
    unfolding sanitize_unreadable_pending_on_def using loop by blast+
qed

lemma claim_next_job_choice:
  assumes "codec_ok J" and "distinct (map j_id (jobs db))"
  shows "case find (claimable J) (claim_candidates now cls db) of
      None \<Rightarrow> snd (claim_next_job J now cls owner lease_secs db) = Inr None
    | Some m \<Rightarrow> \<exists>old job. snd (claim_next_job J now cls owner lease_secs db) = Inr (Some job)
        \<and> try_map_job J m = Inr old
        \<and> try_map_job J (claim_update J now owner lease_secs m m) = Inr job
        \<and> claim_update J now owner lease_secs m m
            \<in> set (jobs (fst (claim_next_job J now cls owner lease_secs db)))
        \<and> fence job = Some \<lparr>f_job_id = j_id m, f_owner = owner, f_generation = j_lease_generation m + 1\<rparr>
        \<and> rec_state job = Running \<and> rec_payload job = (rec_payload old)\<lparr>p_resume_pending := False\<rparr>"
proof -
  let ?db = "sanitize_unreadable_pending_on J now db"
  have ids: "distinct (map j_id (jobs ?db))" using sanitize_keeps_ready(2) [OF assms(2)] assms(2) by simp
  have cand: "claim_candidates now cls ?db = claim_candidates now cls db"
    by (simp add: claim_candidates_def sanitize_keeps_ready(1) [OF assms(2)])
  have "set (claim_candidates now cls db) \<subseteq> set (jobs ?db)"
    and "\<forall>m \<in> set (claim_candidates now cls db). pending m"
    and "distinct (map j_id (claim_candidates now cls db))"
    using claim_candidates_rows [OF ids, of now cls] by (auto simp: cand claim_ready_def)
  note loop_facts = claim_loop_picks [OF assms(1) ids this(1,3,2)]
  have loop: "case find (claimable J) (claim_candidates now cls db) of
      None \<Rightarrow> snd (claim_next_job_on J now cls owner lease_secs db) = Inr None
    | Some m \<Rightarrow> \<exists>job. snd (claim_next_job_on J now cls owner lease_secs db) = Inr (Some job)
        \<and> try_map_job J (claim_update J now owner lease_secs m m) = Inr job
        \<and> claim_update J now owner lease_secs m m
          \<in> set (jobs (fst (claim_next_job_on J now cls owner lease_secs db)))"
    unfolding claim_next_job_on_def Let_def cand by (rule loop_facts)
  show ?thesis
  proof (cases "find (claimable J) (claim_candidates now cls db)")
    case None
    with loop show ?thesis by (auto simp: claim_next_job_def in_txn_def split: prod.split sum.split)
  next
    case (Some m)
    then obtain old where "try_map_job J m = Inr old" by (auto simp: find_Some_iff claimable_def)
    with try_map_claim_update [OF assms(1) this, of now owner lease_secs] loop Some show ?thesis
      by (auto simp: claim_next_job_def in_txn_def split_beta split: sum.split)
  qed
qed

lemma claim_candidates_find:
  assumes "find P (claim_candidates now cls db) = Some m"
  shows "m \<in> set (jobs db)" and "claim_ready now cls m" and "P m"
    and "r \<in> set (jobs db) \<Longrightarrow> claim_ready now cls r \<Longrightarrow> claim_order r < claim_order m \<Longrightarrow> \<not> P r"
proof -
  have "m \<in> set (claim_candidates now cls db)" using assms by (auto simp: find_Some_iff)
  then show "m \<in> set (jobs db)" and "claim_ready now cls m"
    by (auto simp: claim_candidates_def table_simps dest: in_set_takeD)
  show "P m" using assms by (auto simp: find_Some_iff)
  assume "r \<in> set (jobs db)" and "claim_ready now cls r" and "claim_order r < claim_order m"
  with find_take_order_by_least [OF assms [unfolded claim_candidates_def], of r] show "\<not> P r" by simp
qed

text \<open>C9: A claim takes exactly the first candidate, in order of priority and age among the first
  eight due rows of the class, that is neither flagged for cancellation nor unreadable. The job it
  returns is the stored row after the claim, running under a fence of the caller with the next
  generation, its payload unchanged but for the cleared resume flag. If there is no such
  candidate it returns nothing. It never fails.\<close>

theorem claim_next_job_picks:
  assumes "codec_ok J" and "distinct (map j_id (jobs db))"
  shows "case find (claimable J) (claim_candidates now cls db) of
      None \<Rightarrow> snd (claim_next_job J now cls owner lease_secs db) = Inr None
    | Some m \<Rightarrow> \<exists>old job. snd (claim_next_job J now cls owner lease_secs db) = Inr (Some job)
        \<and> try_map_job J m = Inr old
        \<and> try_map_job J (claim_update J now owner lease_secs m m) = Inr job
        \<and> claim_update J now owner lease_secs m m
            \<in> set (jobs (fst (claim_next_job J now cls owner lease_secs db)))
        \<and> fence job = Some \<lparr>f_job_id = j_id m, f_owner = owner, f_generation = j_lease_generation m + 1\<rparr>
        \<and> rec_state job = Running \<and> rec_payload job = (rec_payload old)\<lparr>p_resume_pending := False\<rparr>"
  using assms by (rule claim_next_job_choice)

definition demo_job :: "string \<Rightarrow> int \<Rightarrow> plain_text job_row" where
  "demo_job i priority =
     new_job_row plain_codec 0 i ''k''
       \<lparr>spec_kind = Scan, spec_payload = JobPayload_default, spec_priority = priority,
        spec_max_attempts = 3, spec_max_pending = 10, spec_run_after = None\<rparr>"

definition demo_db :: "plain_text jobdb" where
  "demo_db = \<lparr>jobs = [demo_job ''a'' 0, (demo_job ''b'' 9)\<lparr>j_cancel_requested := 1\<rparr>, demo_job ''c'' 5],
     job_temp_paths = [], job_temp_seq = 0\<rparr>"

lemma demo_db_distinct: "distinct (map j_id (jobs demo_db))"
  by (simp add: demo_db_def demo_job_def new_job_row_def)

lemma demo_db_find: "find (claimable plain_codec) (claim_candidates 5 Network demo_db) = Some (demo_job ''c'' 5)"
  by (simp add: claim_candidates_def order_by_def demo_db_def demo_job_def new_job_row_def claim_ready_def
      resource_class_def pending_def claim_order_def claimable_def try_map_job_def plain_codec_def
      JobKind_parse_def JobState_parse_def JobResourceClass_parse_def JobTrigger_parse_def
      JobPayload_default_def JOB_PAYLOAD_VERSION_def)

theorem claim_next_job_picks_witness:
  "\<exists>job. snd (claim_next_job plain_codec 5 Network ''w'' 60 demo_db) = Inr (Some job)
     \<and> fence job = Some \<lparr>f_job_id = ''c'', f_owner = ''w'', f_generation = 1\<rparr>"
  using claim_next_job_picks [OF codec_ok_plain demo_db_distinct, of 5 Network "''w''" 60]
  by (auto simp: demo_db_find) (auto simp: demo_job_def new_job_row_def)

text \<open>No job overtakes: every due job of the class that comes before the claimed one in the
  order of priority (descending) and creation time was not claimable, because it is flagged for
  cancellation or unreadable. The claimed job itself was due, not flagged and readable.\<close>

theorem claim_respects_priority:
  assumes "codec_ok J" and "distinct (map j_id (jobs db))"
    and "snd (claim_next_job J now cls owner lease_secs db) = Inr (Some job)"
  shows "\<exists>m \<in> set (jobs db). rec_id job = j_id m \<and> claim_ready now cls m \<and> claimable J m
    \<and> (\<forall>r \<in> set (jobs db). claim_ready now cls r \<and> claim_order r < claim_order m \<longrightarrow> \<not> claimable J r)"
proof -
  from claim_next_job_choice [OF assms(1,2), of now cls owner lease_secs] assms(3)
  obtain m where m: "find (claimable J) (claim_candidates now cls db) = Some m"
    and "fence job = Some \<lparr>f_job_id = j_id m, f_owner = owner, f_generation = j_lease_generation m + 1\<rparr>"
    by (auto split: option.splits)
  then have "rec_id job = j_id m" by (auto simp: fence_def)
  with claim_candidates_find [OF m] show ?thesis by blast
qed

theorem claim_respects_priority_witness:
  "\<exists>job. snd (claim_next_job plain_codec 5 Network ''w'' 60 demo_db) = Inr (Some job)
     \<and> (\<exists>m \<in> set (jobs demo_db). rec_id job = j_id m \<and> claimable plain_codec m)"
proof -
  obtain job where "snd (claim_next_job plain_codec 5 Network ''w'' 60 demo_db) = Inr (Some job)"
    using claim_next_job_choice [OF codec_ok_plain demo_db_distinct, of 5 Network "''w''" 60]
    by (auto simp: demo_db_find)
  with claim_respects_priority [OF codec_ok_plain demo_db_distinct this] show ?thesis by blast
qed

section \<open>Reclaiming expired leases\<close>

text \<open>What becomes of a running row whose lease has expired.\<close>

definition reclaimed_row :: "timestamp \<Rightarrow> 'j job_row \<Rightarrow> 'j job_row" where
  "reclaimed_row now r =
     (if j_cancel_requested r \<noteq> 0 then cancelled_update now ''cancelled'' ''cancelled by operator'' r
      else reclaim_update now r r)"

lemma j_id_reclaimed [simp]: "j_id (reclaimed_row now r) = j_id r"
  by (simp add: reclaimed_row_def cancelled_update_def reclaim_update_def Let_def)

lemma reclaim_one_current:
  assumes ids: "distinct (map j_id (jobs db))" and m: "m \<in> set (jobs db)" "running m" "lease_ok m"
  shows "reclaim_one now m db =
    (db\<lparr>jobs := update_many (\<lambda>r. r = m \<and> lease_expired now r) (reclaimed_row now) (jobs db)\<rparr>,
     lease_expired now m)"
proof (cases "lease_expired now m")
  case False
  then have "update_many (\<lambda>r. r = m \<and> lease_expired now r) (reclaimed_row now) (jobs db) = jobs db"
    by (intro update_many_id) auto
  with False show ?thesis by (simp add: reclaim_one_def)
next
  case True
  have only_m: "cas P f db = (db\<lparr>jobs := update_many (\<lambda>r. r = m \<and> lease_expired now r)
      (reclaimed_row now) (jobs db)\<rparr>, True)"
    if P: "\<And>r. P r \<Longrightarrow> j_id r = j_id m" "P m" and f: "f m = reclaimed_row now m" for P f
  proof -
    have "P r \<longleftrightarrow> r = m" if "r \<in> set (jobs db)" for r
      using P distinct_key_unique [OF ids that m(1)] by blast
    then have "update_many P f (jobs db)
        = update_many (\<lambda>r. r = m \<and> lease_expired now r) (reclaimed_row now) (jobs db)"
      using True f by (intro update_many_cong) auto
    moreover have "rows_affected P (jobs db) = 1"
      using rows_affected_key_eq_1_iff [OF ids, of P] P m(1) by blast
    ultimately show ?thesis by (simp add: cas_def)
  qed
  obtain w where w: "j_lease_owner m = Some w" using m by (auto simp: lease_ok_def)
  show ?thesis
    using True m(2) w unfolding reclaim_one_def mark_job_cancelled_cas_def
    by (auto intro!: only_m simp: reclaimed_row_def holds_fence_def)
qed

lemma reclaim_loop_current:
  assumes "distinct (map j_id (jobs db))" and "set ms \<subseteq> set (jobs db)" and "distinct (map j_id ms)"
    and "\<forall>m \<in> set ms. running m \<and> lease_ok m"
  shows "reclaim_loop now ms db =
    (db\<lparr>jobs := update_many (\<lambda>r. r \<in> set ms \<and> lease_expired now r) (reclaimed_row now) (jobs db)\<rparr>,
     length (filter (lease_expired now) ms))"
  using assms
proof (induction ms arbitrary: db)
  case Nil
  then show ?case by (simp add: update_many_id)
next
  case (Cons m ms)
  let ?db = "db\<lparr>jobs := update_many (\<lambda>r. r = m \<and> lease_expired now r) (reclaimed_row now) (jobs db)\<rparr>"
  have one: "reclaim_one now m db = (?db, lease_expired now m)"
    using Cons.prems by (intro reclaim_one_current) auto
  have other: "x \<noteq> m \<and> x \<noteq> reclaimed_row now m" if "x \<in> set ms" for x
    using Cons.prems(3) that by (auto simp: image_iff)
  have "map j_id (jobs ?db) = map j_id (jobs db)" by (simp add: map_update_many_key)
  moreover have "set ms \<subseteq> set (jobs ?db)"
    using Cons.prems(2) other by (auto simp: table_simps)
  ultimately have "reclaim_loop now ms ?db = (?db\<lparr>jobs :=
      update_many (\<lambda>r. r \<in> set ms \<and> lease_expired now r) (reclaimed_row now) (jobs ?db)\<rparr>,
      length (filter (lease_expired now) ms))"
    using Cons.prems by (intro Cons.IH) auto
  moreover have "update_many (\<lambda>r. r \<in> set ms \<and> lease_expired now r) (reclaimed_row now) (jobs ?db)
      = update_many (\<lambda>r. r \<in> set (m # ms) \<and> lease_expired now r) (reclaimed_row now) (jobs db)"
    using other by (auto simp: update_many_def)
  ultimately show ?case by (simp add: one Let_def)
qed

text \<open>Reclaiming visits every running row exactly once: the loop over a snapshot with its
  guarded updates equals one pass that rewrites the running rows whose lease has expired and
  leaves every other row, in particular every live lease, untouched. An expired job that was
  flagged is cancelled, one with attempts left becomes pending and due at once, any other fails.
  The result counts the rewritten rows.\<close>

theorem reclaim_expired_leases_exact:
  assumes "distinct (map j_id (jobs db))" and "\<forall>r \<in> set (jobs db). lease_ok r"
  shows "reclaim_expired_leases now db =
    (db\<lparr>jobs := update_many (\<lambda>r. running r \<and> lease_expired now r) (reclaimed_row now) (jobs db)\<rparr>,
     rows_affected (\<lambda>r. running r \<and> lease_expired now r) (jobs db))"
proof -
  let ?ms = "filter running (jobs db)"
  have "reclaim_loop now ?ms db =
    (db\<lparr>jobs := update_many (\<lambda>r. r \<in> set ?ms \<and> lease_expired now r) (reclaimed_row now) (jobs db)\<rparr>,
     length (filter (lease_expired now) ?ms))"
    using assms by (intro reclaim_loop_current) (auto simp: distinct_map_filter)
  moreover have "update_many (\<lambda>r. r \<in> set ?ms \<and> lease_expired now r) (reclaimed_row now) (jobs db)
      = update_many (\<lambda>r. running r \<and> lease_expired now r) (reclaimed_row now) (jobs db)"
    by (intro update_many_cong) auto
  ultimately show ?thesis
    by (simp add: reclaim_expired_leases_def rows_affected_def conj_commute)
qed

definition demo_expired :: "plain_text jobdb" where
  "demo_expired = \<lparr>jobs = [claim_update plain_codec 0 ''w'' 60 (demo_job ''a'' 0) (demo_job ''a'' 0)],
     job_temp_paths = [], job_temp_seq = 0\<rparr>"

theorem reclaim_expired_leases_exact_witness:
  "snd (reclaim_expired_leases 60000000000 demo_expired) = 1
   \<and> snd (reclaim_expired_leases 59999999999 demo_expired) = 0"
proof -
  have "distinct (map j_id (jobs demo_expired))" and "\<forall>r \<in> set (jobs demo_expired). lease_ok r"
    by (simp_all add: demo_expired_def claim_update_def demo_job_def new_job_row_def lease_ok_def
        row_state_defs Let_def)
  from reclaim_expired_leases_exact [OF this] show ?thesis
    by (simp add: demo_expired_def claim_update_def demo_job_def new_job_row_def running_def
        lease_expired_def lease_until_def seconds_def i64_or_def I64_MAX_def rows_affected_def Let_def)
qed

text \<open>Even with an arbitrarily stale reading of the row, one reclaim step changes only rows
  that are running with a lease that has expired: a lease renewed in the meantime is safe.\<close>

theorem reclaim_never_steals:
  assumes "r \<in> set (jobs db)" and "\<not> (running r \<and> lease_expired now r)"
  shows "r \<in> set (jobs (fst (reclaim_one now m db)))"
  using assms
  by (auto simp: reclaim_one_def mark_job_cancelled_cas_def holds_fence_def intro!: cas_keeps)

theorem reclaim_never_steals_witness:
  "\<exists>r \<in> set (jobs demo_expired). running r \<and>
     r \<in> set (jobs (fst (reclaim_one 5 (r\<lparr>j_lease_expires_at := Some 1\<rparr>) demo_expired)))"
proof -
  let ?r = "claim_update plain_codec 0 ''w'' 60 (demo_job ''a'' 0) (demo_job ''a'' 0)"
  have "?r \<in> set (jobs demo_expired)" by (simp add: demo_expired_def)
  moreover have "running ?r" and "\<not> lease_expired 5 ?r"
    by (simp_all add: running_def claim_update_def lease_expired_def lease_until_def seconds_def
        i64_or_def I64_MAX_def Let_def)
  ultimately show ?thesis using reclaim_never_steals [of ?r demo_expired 5] by blast
qed

section \<open>Suspension and resumption\<close>

lemma fenced_cas_hit:
  assumes ids: "distinct (map j_id (jobs db))" and r: "r \<in> set (jobs db)" "fenced f r"
  shows "cas (fenced f) g db = (db\<lparr>jobs := update_many (\<lambda>x. x = r) g (jobs db)\<rparr>, True)"
proof -
  have "fenced f x \<longleftrightarrow> x = r" if "x \<in> set (jobs db)" for x
    using distinct_key_unique [OF ids that r(1)] r(2) by (auto simp: fenced_def)
  then have "update_many (fenced f) g (jobs db) = update_many (\<lambda>x. x = r) g (jobs db)"
    by (intro update_many_cong) simp
  moreover have "rows_affected (fenced f) (jobs db) = 1"
    using rows_affected_key_eq_1_iff [OF ids, of "fenced f" "f_job_id f"] r by (auto simp: fenced_def)
  ultimately show ?thesis by (simp add: cas_def)
qed

lemma suspend_job_hit:
  assumes "distinct (map j_id (jobs db))" and "r \<in> set (jobs db)" and "fenced f r"
    and "from_str J (j_payload r) = Inr p" and "length (cp_json c) \<le> MAX_CHECKPOINT_BYTES"
  shows "suspend_job J now f c wake_at db =
    (db\<lparr>jobs := update_many (\<lambda>x. x = r) (suspend_update J now c wake_at p) (jobs db)\<rparr>, Inr True)"
proof -
  have "find_by j_id (f_job_id f) (jobs db) = Some r"
    using assms(1-3) by (intro find_by_eq_Some) (auto simp: fenced_def)
  with assms fenced_cas_hit [OF assms(1-3)] show ?thesis
    by (simp add: suspend_job_def suspend_job_from_def fenced_def)
qed

text \<open>A suspended job resumes where it stopped. Suspending under a live fence succeeds and
  leaves the row pending until \<open>wake_at\<close>; when the library's claim takes that row, the new
  invocation sees the stored checkpoint, the next invocation sequence number and a cleared resume
  flag, its fence has the next generation, and no attempt is charged.\<close>

theorem suspend_then_claim_keeps_attempts:
  assumes "codec_ok J" and "distinct (map j_id (jobs db))" and "r \<in> set (jobs db)" and "fenced f r"
    and "from_str J (j_payload r) = Inr p" and "length (cp_json c) \<le> MAX_CHECKPOINT_BYTES"
    and "1 \<le> j_attempt_count r"
  shows "\<exists>m. m \<in> set (jobs (fst (suspend_job J now f c wake_at db)))
    \<and> snd (suspend_job J now f c wake_at db) = Inr True
    \<and> j_id m = j_id r \<and> pending m \<and> j_run_after m = wake_at
    \<and> (let m' = claim_update J now' owner lease_secs m m in
         j_attempt_count m' = j_attempt_count r
         \<and> j_lease_generation m' = j_lease_generation r + 1
         \<and> from_str J (j_payload m') = Inr (p\<lparr>p_checkpoint := Some c, p_resume_pending := False,
             p_invocation_sequence :=
               Some (u32_saturating_add (case p_invocation_sequence p of None \<Rightarrow> 1 | Some n \<Rightarrow> n) 1)\<rparr>))"
proof (intro exI conjI)
  show "suspend_update J now c wake_at p r \<in> set (jobs (fst (suspend_job J now f c wake_at db)))"
    using suspend_job_hit [OF assms(2-6)] assms(3) by (auto simp: table_simps)
  show "snd (suspend_job J now f c wake_at db) = Inr True"
    using suspend_job_hit [OF assms(2-6)] by simp
qed (use assms(1,7) in \<open>simp_all add: suspend_update_def suspended_payload_def claim_update_def
      payload_or_default_def codec_okD pending_def Let_def\<close>)

definition demo_running :: "plain_text job_row" where
  "demo_running = claim_update plain_codec 0 ''w'' 60 (demo_job ''a'' 0) (demo_job ''a'' 0)"

definition demo_running_db :: "plain_text jobdb" where
  "demo_running_db = \<lparr>jobs = [demo_running, demo_job ''b'' 1], job_temp_paths = [], job_temp_seq = 0\<rparr>"

definition demo_a_fence :: JobFence where
  "demo_a_fence = \<lparr>f_job_id = ''a'', f_owner = ''w'', f_generation = 1\<rparr>"

definition demo_checkpoint :: JobCheckpoint where
  "demo_checkpoint = \<lparr>cp_schema_version = 1, cp_json = ''7''\<rparr>"

lemma demo_running_facts:
  "distinct (map j_id (jobs demo_running_db))" "demo_running \<in> set (jobs demo_running_db)"
  "fenced demo_a_fence demo_running" "from_str plain_codec (j_payload demo_running) = Inr JobPayload_default"
  "length (cp_json demo_checkpoint) \<le> MAX_CHECKPOINT_BYTES" "j_attempt_count demo_running = 1"
  "j_cancel_requested demo_running = 0" "j_kind demo_running \<in> set PLAN_KINDS"
  "j_resource_class demo_running = JobResourceClass_as_str Network" "p_v JobPayload_default = 1"
  by (simp_all add: PLAN_KINDS_def resource_class_def JOB_PAYLOAD_VERSION_def demo_running_db_def demo_running_def demo_job_def new_job_row_def claim_update_def
      fenced_def holds_fence_def demo_a_fence_def demo_checkpoint_def running_def pending_def
      MAX_CHECKPOINT_BYTES_def payload_or_default_def plain_codec_def JobPayload_default_def Let_def)

theorem suspend_then_claim_keeps_attempts_witness:
  "snd (suspend_job plain_codec 3 demo_a_fence demo_checkpoint 9 demo_running_db) = Inr True
   \<and> (\<exists>m \<in> set (jobs (fst (suspend_job plain_codec 3 demo_a_fence demo_checkpoint 9 demo_running_db))).
        j_attempt_count (claim_update plain_codec 9 ''v'' 60 m m) = 1)"
  using suspend_then_claim_keeps_attempts [OF codec_ok_plain demo_running_facts(1-5),
      of 3 9 9 "''v''" 60] demo_running_facts(6) by (auto simp: Let_def)

text \<open>The batch a database plugin executes charges an attempt for the same resumption and
  leaves the resume flag set, although the payload documents that a resumed claim must not burn an
  attempt: a queue whose only job is suspended and claimed again holds it running with one attempt
  more than before, beyond its maximum if it was suspended on its last attempt.\<close>

theorem plan_claim_charges_resumed_jobs:
  assumes "codec_ok J" and "jobs db = [r]" and "fenced f r" and "j_cancel_requested r = 0"
    and "from_str J (j_payload r) = Inr p" and "p_v p = 1" and "j_kind r \<in> set PLAN_KINDS"
    and "j_resource_class r = JobResourceClass_as_str cls"
    and "length (cp_json c) \<le> MAX_CHECKPOINT_BYTES" and "wake_at \<le> now'"
  shows "\<exists>r'. jobs (fst (rpc_claim_next_job J now' cls owner lease_secs
                 (fst (suspend_job J now f c wake_at db)))) = [r']
    \<and> running r' \<and> j_attempt_count r' = j_attempt_count r + 1
    \<and> j_max_attempts r' = j_max_attempts r \<and> resumes J r'"
proof -
  let ?m = "suspend_update J now c wake_at p r"
  have susp: "jobs (fst (suspend_job J now f c wake_at db)) = [?m]"
    using suspend_job_hit [of db r f J p c now wake_at] assms by (simp add: update_many_def)
  have cls: "JobResourceClass_as_str cls \<in> set JobResourceClass_ALL"
    by (cases cls) (simp_all add: JobResourceClass_ALL_def)
  have read: "plan_readable J ?m"
    using assms cls by (simp add: plan_readable_def suspend_update_def suspended_payload_def codec_okD)
  have mark: "jobs (plan_mark_unreadable_pending_jobs J now' (fst (suspend_job J now f c wake_at db))) = [?m]"
    using read by (simp add: plan_mark_unreadable_pending_jobs_def cas_def update_many_def susp)
  have ready: "plan_claim_ready J now' (JobResourceClass_as_str cls) ?m"
    using read assms by (simp add: plan_claim_ready_def suspend_update_def pending_def)
  have "jobs (fst (rpc_claim_next_job J now' cls owner lease_secs (fst (suspend_job J now f c wake_at db))))
      = [plan_claim_set now' owner (i64_or 60 lease_secs) ?m]"
    using ready
    by (simp add: rpc_claim_next_job_def plan_claim_next_job_def mark order_by_def plan_claim_update_def
        cas_def update_many_def plan_claim_ready_def Let_def)
  then show ?thesis
    using assms(1) by (simp add: plan_claim_set_def suspend_update_def suspended_payload_def
        resumes_def running_def)
qed

theorem plan_claim_charges_resumed_jobs_witness:
  "\<exists>r'. jobs (fst (rpc_claim_next_job plain_codec 9 Network ''v'' 60
           (fst (suspend_job plain_codec 3 demo_a_fence demo_checkpoint 9
              \<lparr>jobs = [demo_running], job_temp_paths = [], job_temp_seq = 0\<rparr>)))) = [r']
     \<and> running r' \<and> j_attempt_count r' = 2"
  using plan_claim_charges_resumed_jobs [OF codec_ok_plain _ demo_running_facts(3,7,4,10,8,9,5),
      of "\<lparr>jobs = [demo_running], job_temp_paths = [], job_temp_seq = 0\<rparr>" 9 9 "''v''" 60 3]
    demo_running_facts(6) by simp blast

end
