(* ===== verification/Job_Admission.thy ===== *)
theory Job_Admission
  imports Job_Ops
begin

text \<open>
  Admission to the job queue: the outcomes of an enqueue, the queue limit, the agreement of the
  library's transaction with the batch of a database plugin and the kinds on which they differ;
  operator cancellation; scratch quotas.
\<close>

section \<open>Enqueue\<close>

definition same_key_active :: "string \<Rightarrow> 'j job_row \<Rightarrow> bool" where
  "same_key_active key r \<longleftrightarrow> j_dedup_key r = key \<and> active r"

definition valid_spec :: "EnqueueJobSpec \<Rightarrow> bool" where
  "valid_spec spec \<longleftrightarrow> spec_kind spec \<noteq> Invalid \<and> p_v (spec_payload spec) = JOB_PAYLOAD_VERSION"

definition spec_key :: "EnqueueJobSpec \<Rightarrow> string" where
  "spec_key spec = dedup_key (spec_kind spec) (spec_payload spec)"

definition spec_id :: "EnqueueJobSpec \<Rightarrow> string \<Rightarrow> string" where
  "spec_id spec uuid = JobKind_as_str (spec_kind spec) @ ''-'' @ uuid"

lemma order_by_Nil_iff: "order_by key t = [] \<longleftrightarrow> t = []"
  by (metis list.set(1) set_empty set_order_by)

lemma order_by_Cons_least:
  assumes "order_by key t = m # ms"
  shows "m \<in> set t" and "r \<in> set t \<Longrightarrow> key m \<le> key r"
proof -
  show "m \<in> set t" using assms set_order_by [of key t] by (metis list.set_intros(1))
  assume "r \<in> set t"
  then have "r \<in> set (m # ms)" using assms set_order_by [of key t] by simp
  moreover have "sorted (map key (m # ms))" using sorted_order_by [of key t] assms by simp
  ultimately show "key m \<le> key r" by auto
qed

lemma find_active_None_iff:
  "find_active_job_by_dedup_on J key db = Inr None \<longleftrightarrow> (\<forall>r \<in> set (jobs db). \<not> same_key_active key r)"
  by (auto simp: find_active_job_by_dedup_on_def same_key_active_def order_by_Nil_iff filter_empty_conv
      split: list.split sum.split dest!: order_by_Cons_least(1))

lemma find_active_SomeD:
  assumes "find_active_job_by_dedup_on J key db = Inr (Some job)"
  shows "\<exists>r \<in> set (jobs db). same_key_active key r \<and> try_map_job J r = Inr job \<and> rec_id job = j_id r"
  using assms
  by (auto simp: find_active_job_by_dedup_on_def same_key_active_def try_map_job_Inr_iff job_record_def
      split: list.splits sum.splits dest!: order_by_Cons_least(1))

lemma find_active_InlD:
  assumes "find_active_job_by_dedup_on J key db = Inl e"
  shows "\<exists>r \<in> set (jobs db). same_key_active key r \<and> (\<exists>reason. try_map_job J r = Inl reason)"
  using assms
  by (auto simp: find_active_job_by_dedup_on_def same_key_active_def
      split: list.splits sum.splits dest!: order_by_Cons_least(1))

lemma insert_job_None_iff:
  assumes "active row" and "\<forall>r \<in> set (jobs db). \<not> same_key_active (j_dedup_key row) r"
  shows "insert_job row db = None \<longleftrightarrow> j_id row \<in> j_id ` set (jobs db)"
    and "insert_job row db = Some db' \<Longrightarrow> db' = db\<lparr>jobs := jobs db @ [row]\<rparr>"
  using assms by (auto simp: insert_job_def same_key_active_def intro: rev_image_eqI split: if_splits)

lemma new_job_row_key [simp]: "j_dedup_key (new_job_row J now i key spec) = key"
  by (simp add: new_job_row_def)

text \<open>The decision of an enqueue, written as one table of cases.\<close>

lemma enqueue_job_decision:
  "enqueue_job J now uuid spec db =
     (if \<not> valid_spec spec then
        (db, Inl (if spec_kind spec = Invalid then EnqueueInvalidKind
                  else UnsupportedPayloadVersion (p_v (spec_payload spec))))
      else case find_active_job_by_dedup_on J (spec_key spec) db of
        Inl e \<Rightarrow> (db, Inl e)
      | Inr (Some existing) \<Rightarrow> (db, Inr (Duplicate (rec_id existing)))
      | Inr None \<Rightarrow>
          if max (spec_max_pending spec) 0 \<le> count_active_jobs_on db then (db, Inr QueueFull)
          else if spec_id spec uuid \<in> j_id ` set (jobs db) then (db, Inl OrmUniqueViolation)
          else (db\<lparr>jobs := jobs db @ [new_job_row J now (spec_id spec uuid) (spec_key spec) spec]\<rparr>,
                Inr (Created (spec_id spec uuid))))"
proof -
  let ?row = "new_job_row J now (spec_id spec uuid) (spec_key spec) spec"
  have ins: "insert_job ?row db = (if spec_id spec uuid \<in> j_id ` set (jobs db) then None
      else Some (db\<lparr>jobs := jobs db @ [?row]\<rparr>))"
    if "find_active_job_by_dedup_on J (spec_key spec) db = Inr None"
    using that insert_job_None_iff [of ?row db]
    by (cases "insert_job ?row db") (auto simp: find_active_None_iff)
  show ?thesis
    unfolding enqueue_job_def in_txn_def enqueue_job_on_def
    using ins
    by (auto simp: valid_spec_def Let_def spec_key_def spec_id_def split: sum.split option.split)
qed

lemma count_active_nonneg [simp]: "0 \<le> count_active_jobs_on db"
  by (simp add: count_active_jobs_on_def)

lemma count_active_append:
  "active row \<Longrightarrow> count_active_jobs_on (db\<lparr>jobs := jobs db @ [row]\<rparr>) = count_active_jobs_on db + 1"
  by (simp add: count_active_jobs_on_def rows_affected_def)

text \<open>C18: The outcomes of an enqueue. A job is created only for a valid request, under the fresh id,
  when no pending or running job has its key, and it never brings the number of active jobs above
  the limit of the request; the row is appended as specified. A duplicate names the active job with
  the same key. A full queue is reported only when the limit is reached. An error means an invalid
  request, an unreadable active job under the same key, or an id already in use. In every case but
  the first the database is unchanged.\<close>

theorem enqueue_job_outcomes:
  "case enqueue_job J now uuid spec db of
     (db', Inr (Created i)) \<Rightarrow> valid_spec spec \<and> i = spec_id spec uuid
       \<and> db' = db\<lparr>jobs := jobs db @ [new_job_row J now i (spec_key spec) spec]\<rparr>
       \<and> (\<forall>r \<in> set (jobs db). j_id r \<noteq> i \<and> \<not> same_key_active (spec_key spec) r)
       \<and> count_active_jobs_on db' = count_active_jobs_on db + 1
       \<and> count_active_jobs_on db' \<le> spec_max_pending spec
   | (db', Inr (Duplicate i)) \<Rightarrow> db' = db \<and> valid_spec spec
       \<and> (\<exists>r \<in> set (jobs db). same_key_active (spec_key spec) r \<and> j_id r = i)
   | (db', Inr QueueFull) \<Rightarrow> db' = db \<and> valid_spec spec \<and> spec_max_pending spec \<le> count_active_jobs_on db
       \<and> (\<forall>r \<in> set (jobs db). \<not> same_key_active (spec_key spec) r)
   | (db', Inl e) \<Rightarrow> db' = db \<and> (\<not> valid_spec spec \<or> spec_id spec uuid \<in> j_id ` set (jobs db)
       \<or> (\<exists>r \<in> set (jobs db). same_key_active (spec_key spec) r \<and> (\<exists>reason. try_map_job J r = Inl reason)))"
proof (cases "find_active_job_by_dedup_on J (spec_key spec) db")
  case (Inl e)
  with find_active_InlD [OF Inl] show ?thesis by (simp add: enqueue_job_decision)
next
  case (Inr found)
  show ?thesis
  proof (cases found)
    case None
    with Inr have "\<forall>r \<in> set (jobs db). \<not> same_key_active (spec_key spec) r"
      by (simp add: find_active_None_iff)
    with Inr None show ?thesis
      by (auto simp: enqueue_job_decision count_active_append max_def intro: rev_image_eqI
          order_trans [OF _ count_active_nonneg])
  next
    case (Some job)
    with find_active_SomeD [of J "spec_key spec" db job] Inr show ?thesis
      by (auto simp: enqueue_job_decision)
  qed
qed

definition demo_request :: EnqueueJobSpec where
  "demo_request =
     \<lparr>spec_kind = Acquire, spec_payload = JobPayload_default\<lparr>p_title := Some ''t''\<rparr>, spec_priority = 0,
      spec_max_attempts = 3, spec_max_pending = 4, spec_run_after = None\<rparr>"

lemma demo_request_limit: "spec_max_pending demo_request = 4"
  by (simp add: demo_request_def)

lemma demo_request_created:
  "snd (enqueue_job plain_codec 1 ''u'' demo_request demo_db) = Inr (Created ''acquire-u'')"
  by (simp add: enqueue_job_decision valid_spec_def demo_request_def spec_key_def spec_id_def or_default_def
      JobPayload_default_def JOB_PAYLOAD_VERSION_def find_active_job_by_dedup_on_def demo_db_def demo_job_def
      new_job_row_def order_by_def count_active_jobs_on_def rows_affected_def)

theorem enqueue_job_outcomes_witness:
  "\<exists>db'. enqueue_job plain_codec 1 ''u'' demo_request demo_db = (db', Inr (Created ''acquire-u''))
     \<and> count_active_jobs_on db' = count_active_jobs_on demo_db + 1 \<and> count_active_jobs_on db' \<le> 4"
proof -
  obtain db' where "enqueue_job plain_codec 1 ''u'' demo_request demo_db = (db', Inr (Created ''acquire-u''))"
    using demo_request_created by (metis prod.collapse)
  then show ?thesis
    using enqueue_job_outcomes [where J = plain_codec and now = 1 and uuid = "''u''"
        and spec = demo_request and db = demo_db]
    by (auto simp: demo_request_limit)
qed

section \<open>The batch of a database plugin\<close>

definition no_empty_text :: "JobPayload \<Rightarrow> bool" where
  "no_empty_text p \<longleftrightarrow> p_account p \<noteq> Some [] \<and> p_title p \<noteq> Some [] \<and> p_integration_id p \<noteq> Some []"

lemma non_empty_or_default: "x \<noteq> Some [] \<Longrightarrow> non_empty_or d x = or_default d x"
  by (auto simp: non_empty_or_def or_default_def split: option.split)

lemma plan_dedup_key_agrees:
  assumes "codec_ok J" and "k \<in> {Scan, Acquire, ListenSync, IntegrationScan}" and "no_empty_text p"
  shows "plan_dedup_key J (JobKind_as_str k) (to_string J p) = dedup_key k p"
  using assms
  by (auto simp: plan_dedup_key_def no_empty_text_def json_account_from_payload_def
      json_title_from_payload_def json_integration_from_payload_def json_force_from_payload_def
      codec_okD non_empty_or_default)

lemma plan_job_row_agrees:
  "plan_job_row now i (JobKind_as_str (spec_kind spec)) (to_string J (spec_payload spec))
     (spec_priority spec) (spec_max_attempts spec)
     (case spec_run_after spec of None \<Rightarrow> now | Some t \<Rightarrow> t) key = new_job_row J now i key spec"
  by (simp add: plan_job_row_def new_job_row_def resource_class_def)

text \<open>For scan, acquire, listen-sync and integration-scan requests whose text fields are not
  empty, the batch executed by a database plugin stores exactly what the library's own
  transaction does, provided the active jobs under the same key are readable and were not created
  at this very instant. It also answers the same, except that a duplicate request is reported as a
  failure: the id of the existing job is lost with the payload of the reply.\<close>

theorem rpc_enqueue_agrees:
  assumes "codec_ok J" and "valid_spec spec" and "no_empty_text (spec_payload spec)"
    and "spec_kind spec \<in> {Scan, Acquire, ListenSync, IntegrationScan}"
    and old: "\<forall>r \<in> set (jobs db). same_key_active (spec_key spec) r \<longrightarrow>
      (\<exists>job. try_map_job J r = Inr job) \<and> j_created_at r < now"
  shows "rpc_enqueue_job J now uuid spec db =
    (fst (enqueue_job J now uuid spec db),
     case snd (enqueue_job J now uuid spec db) of
       Inr (Duplicate _) \<Rightarrow> Inl (PayloadError ''enqueueJob duplicate without id'')
     | reply \<Rightarrow> reply)"
proof -
  let ?key = "spec_key spec" and ?row = "new_job_row J now (spec_id spec uuid) (spec_key spec) spec"
  let ?dup = "\<lambda>r. j_dedup_key r = ?key \<and> active r"
  let ?reply = "\<lambda>db'. rpc_enqueue_reply (plan_enqueue_status ?key now db')
    (reply_payload (plan_enqueue_status ?key now db') (plan_enqueue_payload ?key db'))"
  have key: "plan_dedup_key J (JobKind_as_str (spec_kind spec)) (to_string J (spec_payload spec)) = ?key"
    using plan_dedup_key_agrees [OF assms(1,4,3)] by (simp add: spec_key_def)
  have plan: "rpc_enqueue_job J now uuid spec db =
      (case (if \<not> (\<exists>r \<in> set (jobs db). ?dup r)
                \<and> int (rows_affected active (jobs db)) < max (spec_max_pending spec) 0
             then insert_job ?row db else Some db) of
         None \<Rightarrow> (db, Inl OrmUniqueViolation)
       | Some db' \<Rightarrow>
         (db', ?reply db'))"
    unfolding rpc_enqueue_job_def plan_enqueue_job_def Let_def key plan_job_row_agrees
      spec_id_def [symmetric] by (simp split: option.split)
  show ?thesis
  proof (cases "filter ?dup (jobs db)")
    case Nil
    then have none: "find_active_job_by_dedup_on J ?key db = Inr None"
      and free: "\<forall>r \<in> set (jobs db). \<not> ?dup r"
      by (auto simp: find_active_job_by_dedup_on_def order_by_def filter_empty_conv)
    have ins: "insert_job ?row db = (if spec_id spec uuid \<in> j_id ` set (jobs db) then None
        else Some (db\<lparr>jobs := jobs db @ [?row]\<rparr>))"
      using free insert_job_None_iff [of ?row db]
      by (cases "insert_job ?row db") (auto simp: same_key_active_def)
    have row: "?dup ?row" "j_created_at ?row = now" by (simp_all add: new_job_row_def active_def)
    have full: "?reply db = Inr QueueFull"
      using free by (auto simp: plan_enqueue_status_def rpc_enqueue_reply_def)
    have created: "?reply (db\<lparr>jobs := jobs db @ [?row]\<rparr>) = Inr (Created (spec_id spec uuid))"
      using row Nil by (auto simp: plan_enqueue_status_def plan_enqueue_payload_def rpc_enqueue_reply_def
          order_by_def reply_payload_def)
    show ?thesis
      unfolding plan ins enqueue_job_decision none
      using assms(2) free full created by (auto simp: count_active_jobs_on_def not_less)
  next
    case (Cons m ms)
    then obtain x xs where x: "order_by j_created_at (filter ?dup (jobs db)) = x # xs"
      by (metis list.exhaust order_by_Nil_iff list.distinct(1))
    then have dup: "x \<in> set (jobs db)" "?dup x" using order_by_Cons_least(1) [OF x] by simp_all
    from this old obtain job where job: "try_map_job J x = Inr job" "rec_id job = j_id x"
      by (auto simp: same_key_active_def try_map_job_Inr_iff job_record_def)
    have "?reply db = Inl (PayloadError ''enqueueJob duplicate without id'')"
      using old dup x by (auto simp: plan_enqueue_status_def plan_enqueue_payload_def
          rpc_enqueue_reply_def same_key_active_def reply_payload_def)
    moreover have "find_active_job_by_dedup_on J ?key db = Inr (Some job)"
      using x job by (simp add: find_active_job_by_dedup_on_def)
    ultimately show ?thesis
      unfolding plan enqueue_job_decision using assms(2) dup job by auto
  qed
qed

theorem rpc_enqueue_agrees_witness:
  "rpc_enqueue_job plain_codec 1 ''u'' demo_request demo_db =
     (fst (enqueue_job plain_codec 1 ''u'' demo_request demo_db), Inr (Created ''acquire-u''))"
proof -
  have "valid_spec demo_request" "no_empty_text (spec_payload demo_request)"
    "spec_kind demo_request \<in> {Scan, Acquire, ListenSync, IntegrationScan}"
    "\<forall>r \<in> set (jobs demo_db). same_key_active (spec_key demo_request) r \<longrightarrow>
      (\<exists>job. try_map_job plain_codec r = Inr job) \<and> j_created_at r < 1"
    by (simp_all add: demo_request_def valid_spec_def no_empty_text_def JobPayload_default_def
        JOB_PAYLOAD_VERSION_def demo_db_def demo_job_def new_job_row_def same_key_active_def
        spec_key_def or_default_def)
  from rpc_enqueue_agrees [OF codec_ok_plain this] show ?thesis by (simp add: demo_request_created)
qed

lemma rpc_claim_keeps_inactive:
  assumes "r \<in> set (jobs (plan_mark_unreadable_pending_jobs J now db))"
    and "\<not> (pending r \<and> j_cancel_requested r = 0)"
    and "distinct (map j_id (jobs (plan_mark_unreadable_pending_jobs J now db)))"
  shows "r \<in> set (jobs (fst (rpc_claim_next_job J now cls owner lease_secs db)))"
proof -
  let ?db = "plan_mark_unreadable_pending_jobs J now db"
  have "r \<in> set (jobs (plan_claim_update now owner n (j_id m) ?db))"
    if m: "order_by claim_order (filter (plan_claim_ready J now k) (jobs ?db)) = m # ms" for n k m ms
  proof -
    have "m \<in> set (jobs ?db)" and "j_cancel_requested m = 0" and "pending m"
      using order_by_Cons_least(1) [OF m] by (auto simp: plan_claim_ready_def)
    then have "j_id r = j_id m \<Longrightarrow> \<not> pending r"
      using distinct_key_unique [OF assms(3) assms(1)] assms(2) by blast
    then show ?thesis unfolding plan_claim_update_def using assms(1) by (intro cas_keeps) auto
  qed
  with assms(1) show ?thesis
    by (auto simp: rpc_claim_next_job_def plan_claim_next_job_def Let_def split: list.split)
qed

lemma ids_plan_mark [simp]:
  "map j_id (jobs (plan_mark_unreadable_pending_jobs J now db)) = map j_id (jobs db)"
  unfolding plan_mark_unreadable_pending_jobs_def by (rule ids_cas) (simp add: plan_unreadable_set_def)

text \<open>The batch does not know the kind \<open>plugin_copy\<close>: whatever the payload, the next claim in
  any class rewrites every pending plugin-copy job to a failed, invalid job, so on this path such
  jobs never run.\<close>

theorem rpc_claim_fails_plugin_copy:
  assumes "distinct (map j_id (jobs db))" and "r \<in> set (jobs db)" and "pending r"
    and "j_kind r = JobKind_as_str PluginCopy"
  shows "\<exists>r' \<in> set (jobs (fst (rpc_claim_next_job J now cls owner lease_secs db))).
    j_id r' = j_id r \<and> j_state r' = JobState_as_str Failed \<and> j_kind r' = JobKind_as_str Invalid
    \<and> j_error_kind r' = Some ''invalid_job''"
proof -
  have "\<not> plan_readable J r" using assms(4) by (simp add: plan_readable_def PLAN_KINDS_def)
  then have in_db: "plan_unreadable_set J now r \<in> set (jobs (plan_mark_unreadable_pending_jobs J now db))"
    using assms(2,3) by (auto simp: plan_mark_unreadable_pending_jobs_def cas_def table_simps)
  have "plan_unreadable_set J now r \<in> set (jobs (fst (rpc_claim_next_job J now cls owner lease_secs db)))"
    using rpc_claim_keeps_inactive [OF in_db] assms(1) by (simp add: plan_unreadable_set_def pending_def)
  then show ?thesis by (rule bexI [rotated]) (simp add: plan_unreadable_set_def)
qed

definition demo_copy_db :: "plain_text jobdb" where
  "demo_copy_db = \<lparr>jobs = [(demo_job ''p'' 0)\<lparr>j_kind := ''plugin_copy''\<rparr>],
     job_temp_paths = [], job_temp_seq = 0\<rparr>"

theorem rpc_claim_fails_plugin_copy_witness:
  "(\<exists>r' \<in> set (jobs (fst (rpc_claim_next_job plain_codec 5 Network ''w'' 60 demo_copy_db))).
      j_id r' = ''p'' \<and> j_state r' = ''failed'')
   \<and> (\<exists>job. snd (claim_next_job plain_codec 5 Network ''w'' 60 demo_copy_db) = Inr (Some job))"
proof
  show "\<exists>r' \<in> set (jobs (fst (rpc_claim_next_job plain_codec 5 Network ''w'' 60 demo_copy_db))).
      j_id r' = ''p'' \<and> j_state r' = ''failed''"
    using rpc_claim_fails_plugin_copy [of demo_copy_db "(demo_job ''p'' 0)\<lparr>j_kind := ''plugin_copy''\<rparr>"
        plain_codec 5 Network "''w''" 60]
    by (simp add: demo_copy_db_def demo_job_def new_job_row_def pending_def) blast
  have "find (claimable plain_codec) (claim_candidates 5 Network demo_copy_db)
      = Some ((demo_job ''p'' 0)\<lparr>j_kind := ''plugin_copy''\<rparr>)"
    by (simp add: claim_candidates_def order_by_def demo_copy_db_def demo_job_def new_job_row_def
        claim_ready_def resource_class_def pending_def claimable_def try_map_job_def plain_codec_def
        JobKind_parse_def JobState_parse_def JobResourceClass_parse_def JobTrigger_parse_def
        JobPayload_default_def JOB_PAYLOAD_VERSION_def)
  moreover have "distinct (map j_id (jobs demo_copy_db))" by (simp add: demo_copy_db_def)
  ultimately show "\<exists>job. snd (claim_next_job plain_codec 5 Network ''w'' 60 demo_copy_db) = Inr (Some job)"
    using claim_next_job_choice [OF codec_ok_plain, of demo_copy_db 5 Network "''w''" 60] by auto
qed

text \<open>A pending job that was flagged for cancellation (suspended while the request was
  outstanding) is cancelled by the next claim of the library, but the batch leaves it exactly as it
  is, pending, at every claim.\<close>

theorem rpc_claim_ignores_cancelled_pending:
  assumes "distinct (map j_id (jobs db))" and "r \<in> set (jobs db)" and "pending r"
    and "j_cancel_requested r \<noteq> 0" and "plan_readable J r"
  shows "r \<in> set (jobs (fst (rpc_claim_next_job J now cls owner lease_secs db)))"
proof (rule rpc_claim_keeps_inactive)
  show "r \<in> set (jobs (plan_mark_unreadable_pending_jobs J now db))"
    unfolding plan_mark_unreadable_pending_jobs_def using assms(2,5) by (intro cas_keeps) auto
qed (use assms in simp_all)

theorem rpc_claim_ignores_cancelled_pending_witness:
  "(demo_job ''b'' 9)\<lparr>j_cancel_requested := 1\<rparr>
     \<in> set (jobs (fst (rpc_claim_next_job plain_codec 5 Network ''w'' 60 demo_db)))"
  by (rule rpc_claim_ignores_cancelled_pending [OF demo_db_distinct])
    (simp_all add: demo_db_def demo_job_def new_job_row_def pending_def plan_readable_def PLAN_KINDS_def
      JobResourceClass_ALL_def resource_class_def plain_codec_def JobPayload_default_def JOB_PAYLOAD_VERSION_def)

section \<open>Operator cancellation\<close>

definition invalid_update :: "'j job_codec \<Rightarrow> timestamp \<Rightarrow> string \<Rightarrow> 'j job_row \<Rightarrow> 'j job_row" where
  "invalid_update J now reason r =
     r\<lparr>j_kind := JobKind_as_str Invalid, j_resource_class := JobResourceClass_as_str Network,
       j_payload := invalid_job_payload_json J, j_state := JobState_as_str Failed,
       j_error_kind := Some ''invalid_job'', j_error_message := Some reason,
       j_lease_owner := None, j_lease_expires_at := None,
       j_finished_at := Some now, j_updated_at := now\<rparr>"

lemma id_cas_hit:
  assumes ids: "distinct (map j_id (jobs db))" and r: "r \<in> set (jobs db)" "j_id r = i" "P r"
  shows "cas (\<lambda>x. j_id x = i \<and> P x) g db = (db\<lparr>jobs := update_many (\<lambda>x. x = r) g (jobs db)\<rparr>, True)"
proof -
  have "(j_id x = i \<and> P x) \<longleftrightarrow> x = r" if "x \<in> set (jobs db)" for x
    using distinct_key_unique [OF ids that r(1)] r(2,3) by auto
  then have "update_many (\<lambda>x. j_id x = i \<and> P x) g (jobs db) = update_many (\<lambda>x. x = r) g (jobs db)"
    by (intro update_many_cong) auto
  moreover have "rows_affected (\<lambda>x. j_id x = i \<and> P x) (jobs db) = 1"
    using rows_affected_key_eq_1_iff [OF ids, of "\<lambda>x. j_id x = i \<and> P x" i] r by auto
  ultimately show ?thesis by (simp add: cas_def)
qed

lemma mark_invalid_job_db:
  assumes "distinct (map j_id (jobs db))" and "r \<in> set (jobs db)" and "j_id r = i"
  shows "mark_invalid_job J now i reason db =
      (if active r then db\<lparr>jobs := update_many (\<lambda>x. x = r) (invalid_update J now reason) (jobs db)\<rparr> else db)"
proof (cases "active r")
  case True
  then show ?thesis
    using id_cas_hit [OF assms, of active "invalid_update J now reason"]
    by (simp add: mark_invalid_job_def invalid_update_def [abs_def])
next
  case False
  have "\<not> (j_id x = i \<and> active x)" if "x \<in> set (jobs db)" for x
    using distinct_key_unique [OF assms(1) that assms(2)] assms(3) False by auto
  then have "update_many (\<lambda>x. j_id x = i \<and> active x) g (jobs db) = jobs db" for g
    by (rule update_many_id)
  with False show ?thesis by (simp add: mark_invalid_job_def cas_def)
qed

text \<open>Reading a job changes at most its own row, and only when that row is active but unreadable.\<close>

lemma get_job_db:
  assumes "distinct (map j_id (jobs db))" and "r \<in> set (jobs db)" and "j_id r = i"
  shows "fst (get_job J now i db) =
    (case try_map_job J r of
       Inl reason \<Rightarrow> if active r then db\<lparr>jobs := update_many (\<lambda>x. x = r) (invalid_update J now reason) (jobs db)\<rparr> else db
     | Inr _ \<Rightarrow> db)"
proof -
  have "find_by j_id i (jobs db) = Some r" using assms by (rule find_by_eq_Some)
  then show ?thesis
    by (simp add: get_job_def mark_invalid_job_db [OF assms] Let_def split: sum.split)
qed

lemma in_update_self: "r \<in> set t \<Longrightarrow> g r \<in> set (update_many (\<lambda>x. x = r) g t)"
  by (auto simp: table_simps)

lemma ids_update_self:
  "j_id (g r) = j_id r \<Longrightarrow> map j_id (update_many (\<lambda>x. x = r) g t) = map j_id t"
  by (rule map_update_many_key) auto

text \<open>An operator's cancel takes effect at the first try when nothing else interferes. A pending
  job is cancelled; a running job keeps its lease but carries the flag (or, if its row is
  unreadable, is failed as invalid with the flag set); a finished job is left as it is.\<close>

theorem request_job_cancel_effect:
  assumes "distinct (map j_id (jobs db))" and "r \<in> set (jobs db)" and "j_id r = i" and "lease_ok r"
  shows "(pending r \<longrightarrow> cancelled_update now ''cancelled'' ''cancelled by operator'' r
            \<in> set (jobs (fst (request_job_cancel J now i db))))
    \<and> (running r \<longrightarrow> (\<exists>r' \<in> set (jobs (fst (request_job_cancel J now i db))).
          j_id r' = i \<and> j_cancel_requested r' = 1
          \<and> (r' = r\<lparr>j_cancel_requested := 1, j_updated_at := now\<rparr> \<or> j_error_kind r' = Some ''invalid_job'')))
    \<and> (terminal r \<longrightarrow> fst (request_job_cancel J now i db) = db)"
proof (intro conjI impI)
  have find: "find_by j_id i (jobs db) = Some r" using assms(1-3) by (rule find_by_eq_Some)
  have loop: "request_job_cancel J now i db = (case request_job_cancel_iter J now i db of
      Inr res \<Rightarrow> res | Inl db' \<Rightarrow> request_job_cancel_loop 15 J now i db')"
    using request_job_cancel_loop.simps(2) [of 15 J now i db]
    by (simp add: request_job_cancel_def split: sum.split)
  show "fst (request_job_cancel J now i db) = db" if "terminal r"
  proof -
    have "\<not> active r" using that by (auto simp: row_state_defs)
    then have "mark_invalid_job J now i e db = db" for e
      by (simp add: mark_invalid_job_db [OF assms(1-3)])
    with that find get_job_db [OF assms(1-3), of J now] \<open>\<not> active r\<close> show ?thesis
      by (auto simp: loop request_job_cancel_iter_def row_state_defs JobState_parse_def is_terminal_def
          split: sum.split)
  qed
  show "cancelled_update now ''cancelled'' ''cancelled by operator'' r
      \<in> set (jobs (fst (request_job_cancel J now i db)))" if "pending r"
  proof -
    let ?g = "cancelled_update now ''cancelled'' ''cancelled by operator''"
    let ?db = "db\<lparr>jobs := update_many (\<lambda>x. x = r) ?g (jobs db)\<rparr>"
    have hit: "mark_job_cancelled_cas now i None ''cancelled'' ''cancelled by operator'' None db = (?db, True)"
      using id_cas_hit [of db r i pending ?g] assms(1-3) that by (simp add: mark_job_cancelled_cas_def)
    have "fst (get_job J now i ?db) = ?db"
      using get_job_db [of ?db "?g r" i J now] assms(1-3) ids_update_self [of ?g r "jobs db"]
        in_update_self [of r "jobs db" ?g]
      by (auto simp: cancelled_update_def active_def split: sum.splits)
    with that find hit in_update_self [OF assms(2), of ?g] show ?thesis
      by (simp add: loop request_job_cancel_iter_def pending_def JobState_parse_def is_terminal_def)
  qed
  show "\<exists>r' \<in> set (jobs (fst (request_job_cancel J now i db))). j_id r' = i \<and> j_cancel_requested r' = 1
      \<and> (r' = r\<lparr>j_cancel_requested := 1, j_updated_at := now\<rparr> \<or> j_error_kind r' = Some ''invalid_job'')"
    if "running r"
  proof -
    let ?g = "\<lambda>r. r\<lparr>j_cancel_requested := 1, j_updated_at := now\<rparr>"
    let ?db = "db\<lparr>jobs := update_many (\<lambda>x. x = r) ?g (jobs db)\<rparr>"
    have hit: "flag_cancel_requested now i db = (?db, True)"
      using id_cas_hit [of db r i running ?g] assms(1-3) that by (simp add: flag_cancel_requested_def)
    have self: "?g r \<in> set (jobs ?db)" using in_update_self [OF assms(2), of ?g] by simp
    have get: "fst (get_job J now i ?db) = (case try_map_job J (?g r) of
       Inl reason \<Rightarrow> if active (?g r) then ?db\<lparr>jobs := update_many (\<lambda>x. x = ?g r) (invalid_update J now reason) (jobs ?db)\<rparr> else ?db
     | Inr _ \<Rightarrow> ?db)"
      using self assms(1,3) ids_update_self [of ?g r "jobs db"] by (intro get_job_db) simp_all
    have eq: "fst (request_job_cancel J now i db) = fst (get_job J now i ?db)"
      using that find hit by (simp add: loop request_job_cancel_iter_def running_def JobState_parse_def is_terminal_def)
    show ?thesis
    proof (cases "try_map_job J (?g r)")
      case (Inl reason)
      have "active (?g r)" using that by (simp add: row_state_defs)
      then have "invalid_update J now reason (?g r) \<in> set (jobs (fst (request_job_cancel J now i db)))"
        unfolding eq get Inl using in_update_self [OF self, of "invalid_update J now reason"] by simp
      then show ?thesis by (rule bexI [rotated]) (simp add: invalid_update_def assms(3))
    next
      case (Inr job)
      then have "?g r \<in> set (jobs (fst (request_job_cancel J now i db)))"
        unfolding eq get using self by simp
      then show ?thesis by (rule bexI [rotated]) (simp add: assms(3))
    qed
  qed
qed

theorem request_job_cancel_effect_witness:
  "(demo_running\<lparr>j_cancel_requested := 1, j_updated_at := 7\<rparr>)
     \<in> set (jobs (fst (request_job_cancel plain_codec 7 ''a'' demo_running_db)))
   \<or> (\<exists>r' \<in> set (jobs (fst (request_job_cancel plain_codec 7 ''a'' demo_running_db))).
        j_cancel_requested r' = 1)"
proof -
  have "j_id demo_running = ''a''" and "lease_ok demo_running" and "running demo_running"
    by (simp_all add: demo_running_def claim_update_def demo_job_def new_job_row_def lease_ok_def
        row_state_defs Let_def)
  with request_job_cancel_effect [OF demo_running_facts(1,2) this(1,2), where J = plain_codec and now = 7]
  show ?thesis by blast
qed

section \<open>Scratch quotas\<close>

text \<open>The bytes reserved by all scratch rows, without the saturation of the code's sum.\<close>

definition temp_bytes :: "'j jobdb \<Rightarrow> nat" where
  "temp_bytes db = sum_list (map (\<lambda>t. u64_or_0 (t_reserved_bytes t)) (job_temp_paths db))"

definition temp_keys_ok :: "'j jobdb \<Rightarrow> bool" where
  "temp_keys_ok db \<longleftrightarrow> distinct (map t_id (job_temp_paths db))
     \<and> (\<forall>t \<in> set (job_temp_paths db). t_id t \<le> job_temp_seq db)"

lemma reserved_temp_bytes_eq: "reserved_temp_bytes db = min U64_MAX (temp_bytes db)"
  using fold_u64_saturating_add [of "map (\<lambda>t. u64_or_0 (t_reserved_bytes t)) (job_temp_paths db)" 0]
  by (simp add: reserved_temp_bytes_def temp_bytes_def)

lemma sum_list_update_key:
  fixes w :: "temp_row \<Rightarrow> nat"
  assumes "distinct (map t_id ts)" and "t \<in> set ts"
  shows "sum_list (map w (update_many (\<lambda>u. t_id u = t_id t) g ts)) + w t = sum_list (map w ts) + w (g t)"
  using assms
proof (induction ts)
  case Nil
  then show ?case by simp
next
  case (Cons u ts)
  show ?case
  proof (cases "t_id u = t_id t")
    case True
    with Cons.prems have "u = t" by (auto simp: image_iff)
    moreover have "update_many (\<lambda>x. t_id x = t_id t) g ts = ts"
      using Cons.prems True by (intro update_many_id) (auto simp: image_iff)
    ultimately show ?thesis by (simp add: update_many_def)
  next
    case False
    with Cons show ?thesis by (auto simp: update_many_def)
  qed
qed

lemma reserve_new:
  assumes "find (\<lambda>t. t_job_id t = job_id \<and> t_path t = path) (job_temp_paths db) = None"
  shows "reserve_job_temp_path now job_id path n quota db =
    (let next_used = u64_saturating_add (reserved_temp_bytes db) n
     in if quota < next_used then (db, Inl (QuotaExceeded next_used quota))
        else if job_id \<notin> j_id ` set (jobs db) then (db, Inl OrmForeignKey)
        else (db\<lparr>job_temp_paths := job_temp_paths db @
                 [\<lparr>t_id = job_temp_seq db + 1, t_job_id = job_id, t_path = path, t_created_at = now,
                   t_reserved_bytes = i64_or (int I64_MAX) n\<rparr>],
               job_temp_seq := job_temp_seq db + 1\<rparr>, Inr ()))"
proof -
  have "(\<exists>r \<in> set (jobs db). j_id r = job_id) \<longleftrightarrow> job_id \<in> j_id ` set (jobs db)" by auto
  then show ?thesis
    unfolding reserve_job_temp_path_def in_txn_def reserve_job_temp_path_on_def Let_def assms by simp
qed

lemma reserve_again:
  assumes "find (\<lambda>t. t_job_id t = job_id \<and> t_path t = path) (job_temp_paths db) = Some t"
  shows "reserve_job_temp_path now job_id path n quota db =
    (let next_used = u64_saturating_add (reserved_temp_bytes db - u64_or_0 (t_reserved_bytes t)) n
     in if quota < next_used then (db, Inl (QuotaExceeded next_used quota))
        else (db\<lparr>job_temp_paths := update_many (\<lambda>u. t_id u = t_id t)
                 (\<lambda>u. u\<lparr>t_reserved_bytes := i64_or (int I64_MAX) n\<rparr>) (job_temp_paths db)\<rparr>, Inr ()))"
  unfolding reserve_job_temp_path_def in_txn_def reserve_job_temp_path_on_def Let_def assms by simp

lemma u64_of_stored: "u64_or_0 (i64_or (int I64_MAX) n) = min n I64_MAX"
  by (auto simp: u64_or_0_def i64_or_def)

text \<open>A scratch reservation that succeeds keeps the sum of all reservations within the quota and
  records the requested bytes (capped at the column's maximum); one that fails changes nothing.
  The quota counts a previous reservation of the same path only once.\<close>

theorem reserve_keeps_quota:
  assumes "temp_keys_ok db" and "temp_bytes db \<le> U64_MAX" and "quota < U64_MAX"
  shows "case reserve_job_temp_path now job_id path n quota db of
      (db', Inr _) \<Rightarrow> temp_bytes db' \<le> quota \<and> jobs db' = jobs db
        \<and> (\<exists>t \<in> set (job_temp_paths db'). t_job_id t = job_id \<and> t_path t = path
             \<and> u64_or_0 (t_reserved_bytes t) = min n I64_MAX)
    | (db', Inl e) \<Rightarrow> db' = db"
proof -
  let ?here = "\<lambda>t. t_job_id t = job_id \<and> t_path t = path"
  let ?w = "\<lambda>t. u64_or_0 (t_reserved_bytes t)" and ?v = "i64_or (int I64_MAX) n"
  have used: "reserved_temp_bytes db = temp_bytes db" using assms(2) by (simp add: reserved_temp_bytes_eq)
  show ?thesis
  proof (cases "find ?here (job_temp_paths db)")
    case None
    let ?new = "\<lparr>t_id = job_temp_seq db + 1, t_job_id = job_id, t_path = path, t_created_at = now,
      t_reserved_bytes = ?v\<rparr>"
    have "temp_bytes (db\<lparr>job_temp_paths := job_temp_paths db @ [?new], job_temp_seq := job_temp_seq db + 1\<rparr>)
        = temp_bytes db + min n I64_MAX" by (simp add: temp_bytes_def u64_of_stored)
    with assms(3) show ?thesis
      by (auto simp: reserve_new [OF None] used u64_saturating_add_def u64_of_stored Let_def)
  next
    case (Some t)
    then have t: "t \<in> set (job_temp_paths db)" "?here t" by (auto simp: find_Some_iff)
    let ?ts = "update_many (\<lambda>u. t_id u = t_id t) (\<lambda>u. u\<lparr>t_reserved_bytes := ?v\<rparr>) (job_temp_paths db)"
    have sum: "sum_list (map ?w ?ts) + ?w t = temp_bytes db + min n I64_MAX"
      using sum_list_update_key [of "job_temp_paths db" t ?w "\<lambda>u. u\<lparr>t_reserved_bytes := ?v\<rparr>"] assms(1) t
      by (simp add: temp_keys_ok_def temp_bytes_def u64_of_stored)
    have le: "?w t \<le> temp_bytes db"
      using t(1) member_le_sum_list [of "?w t" "map ?w (job_temp_paths db)"] by (simp add: temp_bytes_def)
    have new: "\<exists>u \<in> set ?ts. ?here u \<and> ?w u = min n I64_MAX"
      using t by (intro bexI [of _ "t\<lparr>t_reserved_bytes := ?v\<rparr>"]) (auto simp: table_simps u64_of_stored)
    have "temp_bytes (db\<lparr>job_temp_paths := ?ts\<rparr>) \<le> temp_bytes db - ?w t + n"
      using sum le by (simp add: temp_bytes_def)
    with assms(3) new show ?thesis
      by (simp add: reserve_again [OF Some] used u64_saturating_add_def Let_def)
  qed
qed

definition demo_temp_db :: "plain_text jobdb" where
  "demo_temp_db = demo_running_db\<lparr>job_temp_paths :=
     [\<lparr>t_id = 1, t_job_id = ''a'', t_path = ''/tmp/x'', t_created_at = 0, t_reserved_bytes = 70\<rparr>],
     job_temp_seq := 1\<rparr>"

theorem reserve_keeps_quota_witness:
  "temp_bytes (fst (reserve_job_temp_path 5 ''a'' ''/tmp/x'' 90 100 demo_temp_db)) \<le> 100
   \<and> reserve_job_temp_path 5 ''a'' ''/tmp/y'' 90 100 demo_temp_db = (demo_temp_db, Inl (QuotaExceeded 160 100))"
proof -
  have ok: "temp_keys_ok demo_temp_db" "temp_bytes demo_temp_db \<le> U64_MAX" "100 < U64_MAX"
    by (simp_all add: demo_temp_db_def temp_keys_ok_def temp_bytes_def u64_or_0_def U64_MAX_def)
  have "snd (reserve_job_temp_path 5 ''a'' ''/tmp/x'' 90 100 demo_temp_db) = Inr ()"
    and "reserve_job_temp_path 5 ''a'' ''/tmp/y'' 90 100 demo_temp_db = (demo_temp_db, Inl (QuotaExceeded 160 100))"
    by (simp_all add: reserve_job_temp_path_def in_txn_def reserve_job_temp_path_on_def
        reserved_temp_bytes_eq temp_bytes_def demo_temp_db_def u64_or_0_def u64_saturating_add_def
        U64_MAX_def Let_def)
  with reserve_keeps_quota [OF ok, where now = 5 and job_id = "''a''" and path = "''/tmp/x''" and n = 90]
  show ?thesis by (auto split: prod.splits)
qed

end
