(* ===== verification/Job_Receipts.thy ===== *)
theory Job_Receipts
  imports Job_Admission
begin

text \<open>
  The job batches inside their receipt envelope: \<open>enqueueJob\<close> and \<open>claimNextJob\<close> as named operations
  of \<open>Atomic_Receipt\<close>. The adapters of \<open>Job_Plan\<close> are the executions under a fresh operation id; a claim
  that is sent again under its operation id returns the job it returned before.
\<close>

section \<open>The batches as plans\<close>

definition enqueue_plan ::
  "'j job_codec \<Rightarrow> string \<Rightarrow> string \<Rightarrow> 'j \<Rightarrow> int \<Rightarrow> int \<Rightarrow> int \<Rightarrow> timestamp option \<Rightarrow> timestamp
   \<Rightarrow> ('j jobdb, string) AtomicPlan" where
  "enqueue_plan J uuid kind payload_json priority max_attempts max_pending run_after now =
     (let ra = (case run_after of None \<Rightarrow> now | Some t \<Rightarrow> t);
          dedup = plan_dedup_key J kind payload_json
      in \<lparr>plan_before =
            [\<lambda>db. if \<not> (\<exists>r \<in> set (jobs db). j_dedup_key r = dedup \<and> active r)
                    \<and> int (rows_affected active (jobs db)) < max max_pending 0
                 then insert_job
                   (plan_job_row now (kind @ ''-'' @ uuid) kind payload_json priority max_attempts ra dedup) db
                 else Some db],
          plan_outcome = plan_enqueue_status dedup now,
          plan_after = [],
          plan_payload = Some (plan_enqueue_payload dedup)\<rparr>)"

definition claim_plan ::
  "'j job_codec \<Rightarrow> string \<Rightarrow> string \<Rightarrow> int \<Rightarrow> timestamp \<Rightarrow> ('j jobdb, 'j job_row) AtomicPlan" where
  "claim_plan J cls owner lease_secs now =
     \<lparr>plan_before =
        [\<lambda>db. Some (plan_mark_unreadable_pending_jobs J now db),
         \<lambda>db. Some (case order_by claim_order (filter (plan_claim_ready J now cls) (jobs db)) of
                   [] \<Rightarrow> db
                 | m # _ \<Rightarrow> plan_claim_update now owner lease_secs (j_id m) db)],
      plan_outcome = (\<lambda>db. if filter (plan_claimed now owner) (jobs db) = [] then ''empty'' else ''ok''),
      plan_after = [],
      plan_payload =
        Some (\<lambda>db. case order_by (\<lambda>r. - (case j_started_at r of None \<Rightarrow> 0 | Some t \<Rightarrow> t))
                       (filter (plan_claimed now owner) (jobs db)) of
                     [] \<Rightarrow> None | r # _ \<Rightarrow> Some r)\<rparr>"

definition claim_reply :: "'j job_codec \<Rightarrow> 'j job_row DbAtomicResult \<Rightarrow> job_error + JobRecord option" where
  "claim_reply J res =
     (if res_status res = ''empty'' then Inr None
      else if res_status res \<noteq> ''ok'' then Inl (PayloadError (res_status res))
      else case res_payload res of
        None \<Rightarrow> Inl (PayloadError ''database atomic operation ok without job payload'')
      | Some r \<Rightarrow> (case decode_job J r of Inl e \<Rightarrow> Inl e | Inr job \<Rightarrow> Inr (Some job)))"

definition claim_ctx :: "(string \<Rightarrow> string \<Rightarrow> int \<Rightarrow> string) \<Rightarrow> string \<Rightarrow> string \<Rightarrow> string \<Rightarrow> int \<Rightarrow> timestamp \<Rightarrow> ReceiptCtx" where
  "claim_ctx sha256 operation_id cls owner lease_secs now =
     \<lparr>ctx_operation_id = operation_id, ctx_request_hash = sha256 cls owner lease_secs,
      ctx_kind = ''claimNextJob'', ctx_now = now, ctx_expires_at = receipt_expiry now\<rparr>"

definition rpc_claim_with_id ::
  "'j job_codec \<Rightarrow> (string \<Rightarrow> string \<Rightarrow> int \<Rightarrow> string) \<Rightarrow> timestamp \<Rightarrow> JobResourceClass \<Rightarrow> string \<Rightarrow> nat \<Rightarrow> string
   \<Rightarrow> ('j jobdb, 'j job_row) atomic_db
   \<Rightarrow> (('j jobdb, 'j job_row) atomic_db \<times> (job_error + JobRecord option)) option" where
  "rpc_claim_with_id J sha256 now cls owner lease_secs operation_id s =
     map_option (map_prod id (claim_reply J))
       (execute_named (claim_plan J (JobResourceClass_as_str cls) owner (i64_or 60 lease_secs) now)
          (claim_ctx sha256 operation_id (JobResourceClass_as_str cls) owner (i64_or 60 lease_secs) now)
          JsonFromPlan s)"

section \<open>First execution\<close>

lemma run_enqueue_plan:
  "run_plan (enqueue_plan J uuid kind pj pr ma mp ra now) db =
     map_option (\<lambda>(db', st, _). (db', st)) (plan_enqueue_job J uuid kind pj pr ma mp ra now db)"
  by (auto simp: run_plan_def enqueue_plan_def plan_enqueue_job_def Let_def split: option.split)

lemma run_claim_plan:
  "run_plan (claim_plan J cls owner n now) db =
     (case plan_claim_next_job J cls owner n now db of (db', st, _) \<Rightarrow> Some (db', st))"
  by (simp add: run_plan_def claim_plan_def plan_claim_next_job_def Let_def)

lemma claim_plan_result:
  "plan_claim_next_job J cls owner n now db = (db', st, found) \<Longrightarrow> plan_result (claim_plan J cls owner n now) db' = found"
  by (auto simp: plan_result_def claim_plan_def plan_claim_next_job_def Let_def)

lemma plan_claim_status:
  assumes "plan_claim_next_job J cls owner n now db = (db', st, found)"
  shows "st = (if found = None then ''empty'' else ''ok'')"
  using assms
  by (auto simp: plan_claim_next_job_def Let_def order_by_def split: list.splits)
    (metis list.distinct(1) set_empty set_sort)+

lemma claim_first:
  assumes "receipt_of s operation_id = None"
    and "outcome_scratch_key operation_id \<notin> fst ` set (a_slots s)"
  shows "\<exists>s'. rpc_claim_with_id J sha256 now cls owner lease_secs operation_id s =
      Some (s', snd (rpc_claim_next_job J now cls owner lease_secs (a_data s)))
    \<and> a_data s' = fst (rpc_claim_next_job J now cls owner lease_secs (a_data s))"
proof -
  let ?cls = "JobResourceClass_as_str cls" and ?n = "i64_or 60 lease_secs"
  obtain db' st found where plan: "plan_claim_next_job J ?cls owner ?n now (a_data s) = (db', st, found)"
    using prod_cases3 by blast
  note st = plan_claim_status [OF plan]
  let ?ctx = "claim_ctx sha256 operation_id ?cls owner ?n now"
  have "receipt_of s (ctx_operation_id ?ctx) = None"
    and "outcome_scratch_key (ctx_operation_id ?ctx) \<notin> fst ` set (a_slots s)"
    using assms by (simp_all add: claim_ctx_def)
  note run = execute_named_first [OF this, of "claim_plan J ?cls owner ?n now" JsonFromPlan]
  have "claim_reply J (first_reply ?ctx JsonFromPlan st found) = snd (rpc_claim_next_job J now cls owner lease_secs (a_data s))"
    unfolding rpc_claim_next_job_def plan using st
    by (auto simp: claim_reply_def first_reply_def recorded_status_eq known_statuses_def payload_statuses_def
        reply_payload_def split: option.split)
  moreover have "fst (rpc_claim_next_job J now cls owner lease_secs (a_data s)) = db'"
    unfolding rpc_claim_next_job_def plan by simp
  ultimately show ?thesis
    using run by (simp add: rpc_claim_with_id_def run_claim_plan plan claim_plan_result [OF plan])
qed

text \<open>Executed in its receipt envelope under a fresh operation id, the claim batch changes the job
  tables and answers exactly as the adapter model \<open>rpc_claim_next_job\<close>.\<close>

theorem claim_first_execution:
  assumes "receipt_of s operation_id = None"
    and "outcome_scratch_key operation_id \<notin> fst ` set (a_slots s)"
  shows "\<exists>s'. rpc_claim_with_id J sha256 now cls owner lease_secs operation_id s =
      Some (s', snd (rpc_claim_next_job J now cls owner lease_secs (a_data s)))
    \<and> a_data s' = fst (rpc_claim_next_job J now cls owner lease_secs (a_data s))"
  using claim_first [OF assms] .

theorem claim_first_execution_witness:
  "\<exists>s'. rpc_claim_with_id plain_codec (\<lambda>a b c. ''h'') 5 Network ''w'' 60 ''op''
      \<lparr>a_data = demo_db, a_receipts = [], a_slots = []\<rparr>
      = Some (s', snd (rpc_claim_next_job plain_codec 5 Network ''w'' 60 demo_db))
    \<and> a_data s' = fst (rpc_claim_next_job plain_codec 5 Network ''w'' 60 demo_db)"
  using claim_first_execution [of "''op''" "\<lparr>a_data = demo_db, a_receipts = [], a_slots = []\<rparr>"
      plain_codec "\<lambda>a b c. ''h''" 5 Network "''w''" 60]
  by (simp add: find_by_def)

section \<open>Retries\<close>

lemma claim_first_receipt:
  assumes fresh: "receipt_of s op = None" "outcome_scratch_key op \<notin> fst ` set (a_slots s)"
    and run: "execute_named (claim_plan J cls owner n now) (claim_ctx sha256 op cls owner n now) JsonFromPlan s = Some (s1, res)"
    and r: "receipt_of s1 op = Some r"
  shows "settled JsonFromPlan True r"
proof -
  let ?ctx = "claim_ctx sha256 op cls owner n now"
  obtain db' st found where plan: "plan_claim_next_job J cls owner n now (a_data s) = (db', st, found)"
    using prod_cases3 by blast
  note st = plan_claim_status [OF plan]
  have "receipt_of s (ctx_operation_id ?ctx) = None"
    and "outcome_scratch_key (ctx_operation_id ?ctx) \<notin> fst ` set (a_slots s)"
    using fresh by (simp_all add: claim_ctx_def)
  note first = execute_named_first [OF this, of "claim_plan J cls owner n now" JsonFromPlan]
  from run first have "a_receipts s1 = a_receipts (prune_receipts ?ctx s) @ [new_receipt ?ctx JsonFromPlan st found]"
    by (auto simp: run_claim_plan plan claim_plan_result [OF plan])
  moreover have "find_by rc_operation_id op (a_receipts (prune_receipts ?ctx s)) = None"
    using fresh(1) receipt_prune [of ?ctx s] by (simp add: claim_ctx_def)
  ultimately have "r = new_receipt ?ctx JsonFromPlan st found"
    using r by (auto simp: find_by_append) (auto simp: find_by_def new_receipt_def claim_ctx_def)
  with st show ?thesis
    by (auto simp: settled_def new_receipt_def recorded_status_eq known_statuses_def payload_statuses_def)
qed

text \<open>A worker that repeats a claim under the same operation id, because the reply was lost, gets the
  very job it was given, and no second job is claimed, whatever other batches ran in between within
  the receipt's lifetime.\<close>

theorem claim_retry_same_job:
  assumes "receipt_of s op = None" and "outcome_scratch_key op \<notin> fst ` set (a_slots s)"
    and first: "rpc_claim_with_id J sha256 now cls owner lease_secs op s = Some (s1, reply)"
    and others: "(other_batch op (receipt_expiry now))\<^sup>*\<^sup>* s1 s2"
  shows "\<exists>s3. rpc_claim_with_id J sha256 now' cls owner lease_secs op s2 = Some (s3, reply)
    \<and> a_data s3 = a_data s2"
proof -
  let ?cls = "JobResourceClass_as_str cls" and ?n = "i64_or 60 lease_secs"
  let ?ctx = "claim_ctx sha256 op ?cls owner ?n now" and ?ctx' = "claim_ctx sha256 op ?cls owner ?n now'"
  from first obtain res where run: "execute_named (claim_plan J ?cls owner ?n now) ?ctx JsonFromPlan s = Some (s1, res)"
    and reply: "reply = claim_reply J res"
    by (auto simp: rpc_claim_with_id_def)
  have op: "ctx_operation_id ?ctx = op" "ctx_expires_at ?ctx = receipt_expiry now" by (simp_all add: claim_ctx_def)
  have "\<exists>s3. execute_named (claim_plan J ?cls owner ?n now') ?ctx' JsonFromPlan s2
      = Some (s3, res\<lparr>res_replayed := True\<rparr>) \<and> a_data s3 = a_data s2"
  proof (rule retry_reply [OF run])
    show "settled JsonFromPlan (plan_payload (claim_plan J ?cls owner ?n now) \<noteq> None) r"
      if "receipt_of s1 (ctx_operation_id ?ctx) = Some r" for r
      using claim_first_receipt [OF assms(1,2) run] that op by (simp add: claim_plan_def)
  qed (use assms(1) others op in \<open>simp_all add: claim_ctx_def claim_plan_def\<close>)
  moreover have "claim_reply J (res\<lparr>res_replayed := True\<rparr>) = reply" by (simp add: reply claim_reply_def)
  ultimately show ?thesis by (auto simp: rpc_claim_with_id_def)
qed

text \<open>On the plugin path a request whose key already has an active job fails with an error instead of
  reporting the duplicate, and leaves the tables unchanged.\<close>

theorem rpc_enqueue_duplicate_fails:
  assumes "r \<in> set (jobs db)" and "active r"
    and "j_dedup_key r = plan_dedup_key J (JobKind_as_str (spec_kind spec)) (to_string J (spec_payload spec))"
    and "\<forall>r' \<in> set (jobs db). j_created_at r' \<noteq> now"
  shows "rpc_enqueue_job J now uuid spec db = (db, Inl (PayloadError ''enqueueJob duplicate without id''))"
  using assms
  by (auto simp: rpc_enqueue_job_def plan_enqueue_job_def Let_def plan_enqueue_status_def rpc_enqueue_reply_def
      reply_payload_def)

definition demo_jobs_db :: "(plain_text jobdb, plain_text job_row) atomic_db" where
  "demo_jobs_db = \<lparr>a_data = \<lparr>jobs = [demo_job ''a'' 0], job_temp_paths = [], job_temp_seq = 0\<rparr>,
     a_receipts = [], a_slots = []\<rparr>"

lemma demo_job_ready:
  "plan_readable plain_codec (demo_job i p)" "plan_claim_ready plain_codec 5 ''network'' (demo_job i p)"
  "pending (demo_job i p)"
  by (simp_all add: plan_readable_def plan_claim_ready_def demo_job_def new_job_row_def PLAN_KINDS_def
      pending_def plain_codec_def JobPayload_default_def JOB_PAYLOAD_VERSION_def JobResourceClass_ALL_def resource_class_def)

lemma demo_rpc_claim:
  "\<exists>job. snd (rpc_claim_next_job plain_codec 5 Network ''w'' 60 (a_data demo_jobs_db)) = Inr (Some job)
    \<and> rec_id job = ''a''"
proof -
  let ?db = "a_data demo_jobs_db" and ?m = "plan_claim_set 5 ''w'' 60 (demo_job ''a'' 0)"
  have mark: "plan_mark_unreadable_pending_jobs plain_codec 5 ?db = ?db"
    by (simp add: plan_mark_unreadable_pending_jobs_def cas_def update_many_def demo_jobs_db_def demo_job_ready)
  have upd: "jobs (plan_claim_update 5 ''w'' 60 (j_id (demo_job ''a'' 0)) ?db) = [?m]"
    by (simp add: plan_claim_update_def cas_def update_many_def demo_jobs_db_def demo_job_ready)
  have hit: "plan_claimed 5 ''w'' ?m" by (simp add: plan_claimed_def plan_claim_set_def running_def)
  have "i64_or 60 60 = 60" by (simp add: i64_or_def)
  then have "snd (rpc_claim_next_job plain_codec 5 Network ''w'' 60 ?db) =
      (case decode_job plain_codec ?m of Inl e \<Rightarrow> Inl e | Inr job \<Rightarrow> Inr (Some job))"
    using upd hit mark
    by (simp add: rpc_claim_next_job_def plan_claim_next_job_def Let_def order_by_def demo_jobs_db_def
        demo_job_ready reply_payload_def)
  moreover have "\<exists>job. decode_job plain_codec ?m = Inr job \<and> rec_id job = ''a''"
    by (simp add: decode_job_def plan_claim_set_def demo_job_def new_job_row_def plain_codec_def JobKind_parse_def
        JobState_parse_def JobResourceClass_parse_def job_record_def resource_class_def)
  ultimately show ?thesis by auto
qed

theorem claim_retry_same_job_witness:
  "\<exists>s1 s3 job. rpc_claim_with_id plain_codec (\<lambda>a b c. ''h'') 5 Network ''w'' 60 ''op'' demo_jobs_db = Some (s1, Inr (Some job))
    \<and> rpc_claim_with_id plain_codec (\<lambda>a b c. ''h'') 9 Network ''w'' 60 ''op'' s1 = Some (s3, Inr (Some job))
    \<and> rec_id job = ''a'' \<and> a_data s3 = a_data s1"
proof -
  have fresh: "receipt_of demo_jobs_db ''op'' = None" "outcome_scratch_key ''op'' \<notin> fst ` set (a_slots demo_jobs_db)"
    by (simp_all add: demo_jobs_db_def find_by_def)
  obtain s1 job where first: "rpc_claim_with_id plain_codec (\<lambda>a b c. ''h'') 5 Network ''w'' 60 ''op'' demo_jobs_db
      = Some (s1, Inr (Some job))" "rec_id job = ''a''"
    using claim_first [OF fresh, of plain_codec "\<lambda>a b c. ''h''" 5 Network "''w''" 60] demo_rpc_claim by auto
  from claim_retry_same_job [OF fresh first(1) rtranclp.rtrancl_refl, of 9] first show ?thesis by blast
qed

definition demo_dup_db :: "plain_text jobdb" where
  "demo_dup_db =
     \<lparr>jobs = [new_job_row plain_codec 0 ''acquire-u''
        (plan_dedup_key plain_codec ''acquire'' (to_string plain_codec (spec_payload demo_request))) demo_request],
      job_temp_paths = [], job_temp_seq = 0\<rparr>"

theorem rpc_enqueue_duplicate_fails_witness:
  "rpc_enqueue_job plain_codec 1 ''v'' demo_request demo_dup_db
     = (demo_dup_db, Inl (PayloadError ''enqueueJob duplicate without id''))"
  by (rule rpc_enqueue_duplicate_fails [of "hd (jobs demo_dup_db)"])
    (simp_all add: demo_dup_db_def new_job_row_def active_def demo_request_def)

end
