(* ===== verification/Consume_Once.thy ===== *)
theory Consume_Once
  imports Receipt_Laws
begin

text \<open>
  The consume-once reads of sign-in: the OIDC relying-party state and the WebAuthn / TOTP challenge.
  \<open>take_oidc_rp_state\<close> and \<open>take_webauthn_challenge\<close> are the host adapters of
  \<^verbatim>\<open>crates/bookclerk-plugin-host/src/host/database.rs\<close> over \<open>wrap_consume\<close>; the operation ids are those
  of \<open>db_atomic_operation_id\<close> (\<^verbatim>\<open>crates/bookclerk-library/src/db_atomic.rs\<close>). The SHA-256 request digest
  is a parameter.
\<close>

section \<open>Tables and adapters\<close>

record oidc_rp_state_row =
  os_id :: int
  os_state_hash :: string
  os_provider_id :: string
  os_pkce_verifier :: string
  os_nonce :: string
  os_purpose :: string
  os_user_id :: "int option"
  os_expires_at :: timestamp
  os_created_at :: timestamp

record webauthn_challenge_row =
  wc_id :: int
  wc_challenge_id :: string
  wc_user_id :: "int option"
  wc_kind :: string
  wc_state_json :: string
  wc_expires_at :: timestamp
  wc_created_at :: timestamp

type_synonym oidc_state = "string \<times> string \<times> string \<times> string \<times> int option"
type_synonym challenge = "int option \<times> string"

datatype atomic_error =
    NotFound string
  | LastOwner
  | AtomicOther string

datatype consume_op = TakeOidcRpState string | TakeWebauthnChallenge string string

fun operation_id_of :: "consume_op \<Rightarrow> string" where
  "operation_id_of (TakeOidcRpState state_hash) = ''takeOidcRpState:'' @ state_hash"
| "operation_id_of (TakeWebauthnChallenge challenge_id kind) =
     ''takeWebauthnChallenge:'' @ challenge_id @ '':'' @ kind"

fun operation_kind_of :: "consume_op \<Rightarrow> string" where
  "operation_kind_of (TakeOidcRpState _) = ''takeOidcRpState''"
| "operation_kind_of (TakeWebauthnChallenge _ _) = ''takeWebauthnChallenge''"

definition consume_ctx :: "(consume_op \<Rightarrow> string) \<Rightarrow> timestamp \<Rightarrow> consume_op \<Rightarrow> ReceiptCtx" where
  "consume_ctx sha256 now op =
     \<lparr>ctx_operation_id = operation_id_of op, ctx_request_hash = sha256 op,
      ctx_kind = operation_kind_of op, ctx_now = now, ctx_expires_at = receipt_expiry now\<rparr>"

definition atomic_app_err :: "string \<Rightarrow> atomic_error \<Rightarrow> atomic_error option" where
  "atomic_app_err status not_found =
     (if status = ''ok'' then None
      else if status = ''notFound'' then Some not_found
      else if status = ''lastOwner'' then Some LastOwner
      else if status = ''claimInvalid'' then
        Some (AtomicOther ''claim ticket invalid, expired, or already redeemed'')
      else if status = ''passwordRequired'' then
        Some (AtomicOther (''password required '' @ [CHR 0xE2, CHR 0x80, CHR 0x94] @ '' set a password to finish claim login''))
      else if status = ''idempotencyConflict'' then
        Some (AtomicOther ''database atomic operation_id reused with a different request'')
      else Some (AtomicOther (''database atomic operation failed: '' @ status)))"

definition decode_payload :: "string \<Rightarrow> 'p option \<Rightarrow> atomic_error + 'p" where
  "decode_payload what payload =
     (case payload of
        None \<Rightarrow> Inl (AtomicOther (''database atomic operation ok without '' @ what @ '' payload''))
      | Some v \<Rightarrow> Inr v)"

definition take_reply :: "string \<Rightarrow> 'p DbAtomicResult \<Rightarrow> atomic_error + 'p option" where
  "take_reply what res =
     (if res_status res = ''empty'' then Inr None
      else case atomic_app_err (res_status res) (NotFound what) of
        Some err \<Rightarrow> Inl err
      | None \<Rightarrow> (case decode_payload what (res_payload res) of Inl err \<Rightarrow> Inl err | Inr v \<Rightarrow> Inr (Some v)))"

definition oidc_payload :: "oidc_rp_state_row \<Rightarrow> oidc_state" where
  "oidc_payload d = (os_provider_id d, os_pkce_verifier d, os_nonce d, os_purpose d, os_user_id d)"

definition take_oidc_rp_state ::
  "(consume_op \<Rightarrow> string) \<Rightarrow> timestamp \<Rightarrow> string
   \<Rightarrow> (oidc_rp_state_row list, oidc_state) atomic_db
   \<Rightarrow> (oidc_rp_state_row list, oidc_state) atomic_db \<times> (atomic_error + oidc_state option)" where
  "take_oidc_rp_state sha256 now state_hash s =
     map_prod id (take_reply ''oidc rp state'')
       (execute_consume (consume_ctx sha256 now (TakeOidcRpState state_hash))
          (\<lambda>d. os_state_hash d = state_hash) os_expires_at oidc_payload (''oidc:'' @ state_hash) s)"

definition challenge_payload :: "webauthn_challenge_row \<Rightarrow> challenge" where
  "challenge_payload d = (wc_user_id d, wc_state_json d)"

definition take_webauthn_challenge ::
  "(consume_op \<Rightarrow> string) \<Rightarrow> timestamp \<Rightarrow> string \<Rightarrow> string
   \<Rightarrow> (webauthn_challenge_row list, challenge) atomic_db
   \<Rightarrow> (webauthn_challenge_row list, challenge) atomic_db \<times> (atomic_error + challenge option)" where
  "take_webauthn_challenge sha256 now challenge_id kind s =
     map_prod id (take_reply ''webauthn challenge'')
       (execute_consume (consume_ctx sha256 now (TakeWebauthnChallenge challenge_id kind))
          (\<lambda>d. wc_challenge_id d = challenge_id \<and> wc_kind d = kind) wc_expires_at challenge_payload
          (''webauthn:'' @ challenge_id @ '':'' @ kind) s)"

section \<open>Consume-once batches as a replay log\<close>

lemma find_by_fold_insert:
  "find_by rc_operation_id op rs = Some r \<Longrightarrow> find_by rc_operation_id op (fold insert_or_ignore rows rs) = Some r"
  by (induction rows arbitrary: rs) (auto simp: insert_or_ignore_def find_by_append)

lemma wrap_consume_retry:
  assumes "receipt_of s (ctx_operation_id ctx) = Some r"
    and "\<And>r'. r' \<in> set (a_receipts s) \<Longrightarrow> rc_operation_id r' = ctx_operation_id ctx \<Longrightarrow> rc_created_at r' < ctx_now ctx"
  shows "wrap_consume ctx where_sql expires ok_json key s = (prune_receipts ctx s, Some r, Some r)"
proof -
  have has: "has_receipt (ctx_operation_id ctx) (prune_receipts ctx s)" using assms(1) by (simp add: has_receipt_iff)
  have "\<not> (\<exists>r' \<in> set (a_receipts (prune_receipts ctx s)).
      rc_operation_id r' = ctx_operation_id ctx \<and> rc_created_at r' = ctx_now ctx)"
    using assms(2) by (fastforce simp: prune_receipts_def table_simps)
  with has assms(1) show ?thesis by (auto simp: wrap_consume_def Let_def select_receipt_def)
qed

lemma receipt_of_add: "receipt_of s op = None \<Longrightarrow>
    find_by rc_operation_id op (a_receipts s @ [empty_receipt ctx]) = find_by rc_operation_id op [empty_receipt ctx]"
  by (simp add: find_by_append)

lemma wrap_consume_first:
  assumes "wrap_consume ctx where_sql expires ok_json key s = (s', prior, final)"
    and "receipt_of s (ctx_operation_id ctx) = None"
  shows "prior = None \<and> final \<noteq> None \<and> receipt_of s' (ctx_operation_id ctx) = final"
  using assms
  by (auto simp: wrap_consume_def Let_def select_receipt_def has_receipt_iff find_by_append)
    (auto simp: find_by_def empty_receipt_def)

lemma wrap_consume_other:
  assumes "wrap_consume ctx where_sql expires ok_json key s = (s', prior, final)"
    and "receipt_of s op = Some r" and "ctx_now ctx < rc_expires_at r"
  shows "receipt_of s' op = Some r"
  using assms(1) receipt_prune_other [OF assms(2,3)]
  by (auto simp: wrap_consume_def Let_def find_by_fold_insert find_by_append)

definition consume_exec ::
  "string \<Rightarrow> timestamp \<Rightarrow> ('r list, 'p) atomic_db \<Rightarrow> ('r list, 'p) atomic_db \<Rightarrow> 'p receipt_row \<Rightarrow> bool" where
  "consume_exec op now s s' e \<longleftrightarrow>
     (\<exists>ctx where_sql expires ok_json key prior final. ctx_operation_id ctx = op \<and> ctx_now ctx = now
        \<and> wrap_consume ctx where_sql expires ok_json key s = (s', prior, final)
        \<and> (case prior of Some r \<Rightarrow> e = r | None \<Rightarrow> final = Some e)
        \<and> (\<forall>r \<in> set (a_receipts s). rc_operation_id r = op \<longrightarrow> rc_created_at r < now))"

definition consume_other ::
  "string \<Rightarrow> timestamp \<Rightarrow> ('r list, 'p) atomic_db \<Rightarrow> ('r list, 'p) atomic_db \<Rightarrow> bool" where
  "consume_other op now s s' \<longleftrightarrow>
     (\<exists>ctx where_sql expires ok_json key prior final. ctx_operation_id ctx \<noteq> op \<and> ctx_now ctx = now
        \<and> wrap_consume ctx where_sql expires ok_json key s = (s', prior, final))"

interpretation consume_log: replay_log "\<lambda>s op. receipt_of s op" a_data rc_expires_at consume_exec consume_other
proof (unfold_locales, goal_cases)
  case (1 op now s s' e)
  then show ?case by (auto simp: consume_exec_def dest!: wrap_consume_first)
next
  case (2 op now s s' e e0)
  then show ?case
    by (auto simp: consume_exec_def wrap_consume_retry split: option.splits)
next
  case (3 op now s s' e)
  then show ?case by (auto simp: consume_other_def intro: wrap_consume_other)
qed

section \<open>The first take\<close>

lemma filter_key_find_by:
  "distinct (map key t) \<Longrightarrow> filter (\<lambda>r. key r = k) t = (case find_by key k t of None \<Rightarrow> [] | Some r \<Rightarrow> [r])"
proof (induction t)
  case (Cons r t)
  then have "key r = k \<Longrightarrow> find_by key k t = None" by (auto simp: find_by_None_iff image_iff)
  with Cons show ?case by (auto simp: find_by_def)
qed (simp add: find_by_def)

lemma delete_many_none: "filter P rows = [] \<Longrightarrow> delete_many P rows = rows"
  by (auto simp: delete_many_def filter_empty_conv intro!: filter_True)

text \<open>A take that finds no earlier receipt: the row it names is deleted and answered unless expired.\<close>

lemma execute_consume_first:
  assumes none: "receipt_of s (ctx_operation_id ctx) = None"
    and key: "\<And>r. r \<in> set (a_receipts s) \<Longrightarrow> rc_consume_key r \<noteq> Some key"
    and rows: "filter where_sql (a_data s) = (case found of None \<Rightarrow> [] | Some d \<Rightarrow> [d])"
  shows "\<exists>s' r. execute_consume ctx where_sql expires ok_json key s =
      (s', interpret_receipt (Some r) (ctx_request_hash ctx) False)
    \<and> a_data s' = delete_many where_sql (a_data s)
    \<and> a_receipts s' = a_receipts (prune_receipts ctx s) @ [r]
    \<and> r = (case found of None \<Rightarrow> empty_receipt ctx | Some d \<Rightarrow> consume_receipt ctx expires ok_json key d)"
proof -
  let ?op = "ctx_operation_id ctx" and ?s0 = "prune_receipts ctx s"
  let ?r = "case found of None \<Rightarrow> empty_receipt ctx | Some d \<Rightarrow> consume_receipt ctx expires ok_json key d"
  have r: "rc_operation_id ?r = ?op" "rc_created_at ?r = ctx_now ctx"
    by (simp_all add: empty_receipt_def consume_receipt_def split: option.split)
  have absent: "\<And>r. r \<in> set (a_receipts ?s0) \<Longrightarrow> rc_operation_id r \<noteq> ?op"
    using none by (auto simp: prune_receipts_def table_simps find_by_None_iff)
  then have has: "\<not> has_receipt ?op ?s0" by (auto simp: has_receipt_def)
  have ins: "insert_or_ignore (consume_receipt ctx expires ok_json key d) (a_receipts ?s0)
      = a_receipts ?s0 @ [consume_receipt ctx expires ok_json key d]" for d
    using absent key
    by (auto simp: insert_or_ignore_def consume_receipt_def prune_receipts_def table_simps)
  have find: "find_by rc_operation_id ?op (a_receipts ?s0 @ [?r]) = Some ?r"
    using absent r(1) by (rule find_by_absent_append)
  have "\<exists>s'. wrap_consume ctx where_sql expires ok_json key s = (s', None, Some ?r)
      \<and> a_data s' = delete_many where_sql (a_data s) \<and> a_receipts s' = a_receipts ?s0 @ [?r]"
  proof (cases found)
    case None
    then show ?thesis using has absent rows none find
      by (auto simp: wrap_consume_def Let_def select_receipt_def has_receipt_def delete_many_none)
  next
    case (Some d)
    have "has_receipt ?op (?s0\<lparr>a_receipts := a_receipts ?s0 @ [?r]\<rparr>)" using r by (auto simp: has_receipt_def)
    with Some show ?thesis using has rows none find r
      by (auto simp: wrap_consume_def Let_def select_receipt_def ins has_receipt_def)
  qed
  then show ?thesis by (auto simp: execute_consume_def interpret_selection_def)
qed

text \<open>The first take of an OIDC sign-in state returns its stored data exactly when a row with
  that hash exists and has not expired, returns nothing otherwise, never fails, and deletes the row
  in every case.\<close>

theorem take_oidc_rp_state_first:
  assumes "distinct (map os_state_hash (a_data s))"
    and "receipt_of s (''takeOidcRpState:'' @ h) = None"
    and "\<forall>r \<in> set (a_receipts s). rc_consume_key r \<noteq> Some (''oidc:'' @ h)"
  shows "\<exists>s'. take_oidc_rp_state sha256 now h s =
      (s', Inr (case find_by os_state_hash h (a_data s) of
                  None \<Rightarrow> None
                | Some d \<Rightarrow> if now < os_expires_at d then Some (oidc_payload d) else None))
    \<and> a_data s' = delete_many (\<lambda>d. os_state_hash d = h) (a_data s)"
proof -
  let ?ctx = "consume_ctx sha256 now (TakeOidcRpState h)" and ?found = "find_by os_state_hash h (a_data s)"
  have rows: "filter (\<lambda>d. os_state_hash d = h) (a_data s) = (case ?found of None \<Rightarrow> [] | Some d \<Rightarrow> [d])"
    using assms(1) by (rule filter_key_find_by)
  have none: "receipt_of s (ctx_operation_id ?ctx) = None" using assms(2) by (simp add: consume_ctx_def)
  obtain s' r where "execute_consume ?ctx (\<lambda>d. os_state_hash d = h) os_expires_at oidc_payload (''oidc:'' @ h) s
      = (s', interpret_receipt (Some r) (ctx_request_hash ?ctx) False)"
    and data: "a_data s' = delete_many (\<lambda>d. os_state_hash d = h) (a_data s)"
    and r: "r = (case ?found of None \<Rightarrow> empty_receipt ?ctx
      | Some d \<Rightarrow> consume_receipt ?ctx os_expires_at oidc_payload (''oidc:'' @ h) d)"
    using execute_consume_first [OF none _ rows, of "''oidc:'' @ h" os_expires_at oidc_payload] assms(3) by blast
  moreover have "take_reply what (interpret_receipt (Some r) (ctx_request_hash ?ctx) False) =
      Inr (case ?found of None \<Rightarrow> None
         | Some d \<Rightarrow> if now < os_expires_at d then Some (oidc_payload d) else None)" for what
    unfolding r by (auto simp: take_reply_def interpret_receipt_def empty_receipt_def consume_receipt_def
        atomic_app_err_def decode_payload_def consume_ctx_def split: option.split)
  ultimately show ?thesis by (auto simp: take_oidc_rp_state_def)
qed

definition demo_oidc :: "(oidc_rp_state_row list, oidc_state) atomic_db" where
  "demo_oidc =
     \<lparr>a_data = [\<lparr>os_id = 1, os_state_hash = ''abc'', os_provider_id = ''corp'', os_pkce_verifier = ''v'',
                 os_nonce = ''n'', os_purpose = ''login'', os_user_id = None, os_expires_at = 300,
                 os_created_at = 0\<rparr>],
      a_receipts = [], a_slots = []\<rparr>"

theorem take_oidc_rp_state_first_witness:
  "\<exists>s'. take_oidc_rp_state operation_id_of 5 ''abc'' demo_oidc
     = (s', Inr (Some (''corp'', ''v'', ''n'', ''login'', None))) \<and> a_data s' = []"
  using take_oidc_rp_state_first [of demo_oidc "''abc''" operation_id_of 5]
  by (simp add: demo_oidc_def find_by_def oidc_payload_def delete_many_def)

lemma take_reply_cong:
  "res_status a = res_status b \<Longrightarrow> res_payload a = res_payload b \<Longrightarrow> take_reply what a = take_reply what b"
  unfolding take_reply_def by (simp only:)

lemma set_fold_insert: "set (fold insert_or_ignore rows rs) \<subseteq> set rs \<union> set rows"
proof (induction rows arbitrary: rs)
  case (Cons row rows)
  have "set (insert_or_ignore row rs) \<subseteq> insert row (set rs)" by (auto simp: insert_or_ignore_def)
  with Cons [of "insert_or_ignore row rs"] show ?case by auto
qed simp

lemma wrap_consume_first_times:
  assumes "wrap_consume ctx where_sql expires ok_json key s = (s', prior, final)"
    and "receipt_of s (ctx_operation_id ctx) = None"
    and "r \<in> set (a_receipts s')" and "rc_operation_id r = ctx_operation_id ctx"
  shows "rc_created_at r = ctx_now ctx"
proof -
  have old: "x \<in> set (a_receipts (prune_receipts ctx s)) \<Longrightarrow> rc_operation_id x \<noteq> ctx_operation_id ctx" for x
    using assms(2) by (auto simp: prune_receipts_def table_simps find_by_None_iff)
  let ?new = "map (consume_receipt ctx expires ok_json key) (filter where_sql (a_data (prune_receipts ctx s)))"
  have "set (a_receipts s') \<subseteq> set (a_receipts (prune_receipts ctx s)) \<union> set ?new \<union> {empty_receipt ctx}"
    using assms(1) set_fold_insert [of ?new "a_receipts (prune_receipts ctx s)"]
    by (auto simp: wrap_consume_def Let_def split: if_splits)
  with assms(3,4) old show ?thesis by (auto simp: consume_receipt_def empty_receipt_def)
qed

text \<open>C38: A sign-in challenge is not single use. Once a take has returned its data, every later take of the
  same challenge returns the same data again, at any later time and so also after the challenge's
  own expiry: both takes have the same operation id, and the second is answered from the first
  one's receipt.\<close>

theorem taken_challenge_is_replayed:
  assumes "receipt_of s (''takeWebauthnChallenge:'' @ c @ '':'' @ kind) = None"
    and "take_webauthn_challenge sha256 t c kind s = (s1, Inr (Some v))" and "t < t'"
  shows "\<exists>s2. take_webauthn_challenge sha256 t' c kind s1 = (s2, Inr (Some v)) \<and> a_data s2 = a_data s1"
proof -
  let ?op = "TakeWebauthnChallenge c kind"
  let ?ctx = "consume_ctx sha256 t ?op" and ?ctx' = "consume_ctx sha256 t' ?op"
  let ?w = "\<lambda>d. wc_challenge_id d = c \<and> wc_kind d = kind" and ?key = "''webauthn:'' @ c @ '':'' @ kind"
  have none: "receipt_of s (ctx_operation_id ?ctx) = None" using assms(1) by (simp add: consume_ctx_def)
  obtain s' prior final where run: "wrap_consume ?ctx ?w wc_expires_at challenge_payload ?key s = (s', prior, final)"
    using prod_cases3 by blast
  from wrap_consume_first [OF run none] obtain r where r: "prior = None" "final = Some r"
    "receipt_of s' (ctx_operation_id ?ctx) = Some r" by auto
  have hash: "ctx_request_hash ?ctx = sha256 ?op" "ctx_request_hash ?ctx' = sha256 ?op"
    by (simp_all add: consume_ctx_def)
  from assms(2) have s1: "s1 = s'"
    and v: "take_reply ''webauthn challenge'' (interpret_receipt (Some r) (sha256 ?op) False) = Inr (Some v)"
    unfolding take_webauthn_challenge_def execute_consume_def run r(1,2)
    by (simp_all add: interpret_selection_def hash)
  have "wrap_consume ?ctx' ?w wc_expires_at challenge_payload ?key s1 = (prune_receipts ?ctx' s1, Some r, Some r)"
  proof (rule wrap_consume_retry)
    show "receipt_of s1 (ctx_operation_id ?ctx') = Some r" using r(3) s1 by (simp add: consume_ctx_def)
    show "rc_created_at r' < ctx_now ?ctx'"
      if "r' \<in> set (a_receipts s1)" "rc_operation_id r' = ctx_operation_id ?ctx'" for r'
      using wrap_consume_first_times [OF run none] that s1 assms(3) by (auto simp: consume_ctx_def)
  qed
  moreover have "take_reply what (interpret_receipt (Some r) h True) = take_reply what (interpret_receipt (Some r) h False)"
    for what h by (rule take_reply_cong) (simp_all add: interpret_receipt_def)
  ultimately show ?thesis
    using v unfolding take_webauthn_challenge_def execute_consume_def by (simp add: interpret_selection_def hash)
qed

definition demo_challenge :: "(webauthn_challenge_row list, challenge) atomic_db" where
  "demo_challenge =
     \<lparr>a_data = [\<lparr>wc_id = 1, wc_challenge_id = ''c'', wc_user_id = Some 7, wc_kind = ''totp'',
                 wc_state_json = ''{}'', wc_expires_at = 300, wc_created_at = 0\<rparr>],
      a_receipts = [], a_slots = []\<rparr>"

lemma demo_challenge_taken:
  "\<exists>s1. take_webauthn_challenge operation_id_of 10 ''c'' ''totp'' demo_challenge = (s1, Inr (Some (Some 7, ''{}'')))
    \<and> a_data s1 = []"
  by (simp add: take_webauthn_challenge_def execute_consume_def wrap_consume_def Let_def demo_challenge_def
      select_receipt_def prune_receipts_def delete_many_def has_receipt_def insert_or_ignore_def
      consume_receipt_def consume_ctx_def find_by_def interpret_selection_def interpret_receipt_def
      take_reply_def atomic_app_err_def decode_payload_def challenge_payload_def)

theorem taken_challenge_is_replayed_witness:
  "\<exists>s1 s2. take_webauthn_challenge operation_id_of 10 ''c'' ''totp'' demo_challenge = (s1, Inr (Some (Some 7, ''{}'')))
     \<and> a_data s1 = []
     \<and> take_webauthn_challenge operation_id_of 5000 ''c'' ''totp'' s1 = (s2, Inr (Some (Some 7, ''{}'')))"
proof -
  obtain s1 where s1: "take_webauthn_challenge operation_id_of 10 ''c'' ''totp'' demo_challenge
      = (s1, Inr (Some (Some 7, ''{}'')))" "a_data s1 = []"
    using demo_challenge_taken by blast
  have "receipt_of demo_challenge (''takeWebauthnChallenge:'' @ ''c'' @ '':'' @ ''totp'') = None"
    by (simp add: demo_challenge_def find_by_def)
  from taken_challenge_is_replayed [OF this s1(1), of 5000] s1 show ?thesis by auto
qed

end
