(* ===== verification/User_Plans.thy ===== *)
theory User_Plans
  imports Consume_Once
begin

text \<open>
  First-party users. The atomic user operations are named batches
  (\<open>plan_delete_user\<close>, \<open>plan_set_user_status\<close>, \<open>plan_set_user_role\<close>, \<open>plan_set_user_password_hash\<close>,
  \<open>plan_redeem_claim\<close>, the TOTP batches of \<^verbatim>\<open>crates/bookclerk-library/src/sql_plan/named.rs\<close>)
  executed in the receipt envelope; the transaction helpers \<open>delete_user_on\<close>, \<open>set_user_status_on\<close>,
  \<open>set_user_role_on\<close> and \<open>set_user_password_hash_on\<close> of
  \<^verbatim>\<open>crates/bookclerk-library/src/store.rs\<close> state the same operations row by row.

  Tables that the batches only delete from by owner are kept with their id and owner columns. The
  foreign keys of the schema never act here: each batch removes the referencing rows first.
\<close>

section \<open>Tables\<close>

datatype UserRole = Owner | Administrator | Member

fun UserRole_as_str :: "UserRole \<Rightarrow> string" where
  "UserRole_as_str Owner = ''owner''"
| "UserRole_as_str Administrator = ''administrator''"
| "UserRole_as_str Member = ''member''"

definition UserRole_parse :: "string \<Rightarrow> UserRole option" where
  "UserRole_parse s =
     (if s = ''owner'' then Some Owner
      else if s = ''administrator'' then Some Administrator
      else if s = ''member'' then Some Member else None)"

datatype UserStatus = Active | Disabled

fun UserStatus_as_str :: "UserStatus \<Rightarrow> string" where
  "UserStatus_as_str Active = ''active''"
| "UserStatus_as_str Disabled = ''disabled''"

definition UserStatus_parse :: "string \<Rightarrow> UserStatus option" where
  "UserStatus_parse s =
     (if s = ''active'' then Some Active else if s = ''disabled'' then Some Disabled else None)"

record user_row =
  u_id :: int
  u_role :: string
  u_status :: string
  u_display_name :: "string option"
  u_login_name :: "string option"
  u_email :: "string option"
  u_password_hash :: "string option"
  u_security_version :: int
  u_created_at :: timestamp
  u_updated_at :: timestamp
  u_last_seen_at :: "timestamp option"
  u_avatar_source :: "string option"
  u_totp_enabled :: int

record identity_row =
  pi_id :: int
  pi_provider :: string
  pi_external_user_id :: string
  pi_label :: "string option"
  pi_user_id :: "int option"
  pi_created_at :: timestamp
  pi_picture_url :: "string option"

record ticket_row =
  ct_id :: int
  ct_token_hash :: string
  ct_identity_id :: "int option"
  ct_expires_at :: timestamp
  ct_redeemed_at :: "timestamp option"
  ct_created_by :: string
  ct_created_at :: timestamp

record portal_session_row =
  ps_id :: int
  ps_token_hash :: string
  ps_identity_id :: int
  ps_expires_at :: timestamp
  ps_created_at :: timestamp
  ps_last_used_at :: "timestamp option"
  ps_user_agent :: "string option"
  ps_device_type :: "string option"
  ps_client_label :: "string option"

record operator_session_row =
  op_id :: int
  op_token_hash :: string
  op_expires_at :: timestamp
  op_created_at :: timestamp
  op_last_used_at :: "timestamp option"
  op_elevated_from_user_id :: "int option"
  op_impersonating_user_id :: "int option"
  op_user_agent :: "string option"
  op_device_type :: "string option"
  op_client_label :: "string option"

record secret_row =
  es_kind :: string
  es_provider :: "string option"
  es_account_type :: string
  es_account_id :: "string option"
  es_name :: string
  es_format :: string
  es_ciphertext :: string
  es_kdf_algorithm :: "string option"
  es_kdf_salt :: "string option"
  es_kdf_m_cost :: "int option"
  es_kdf_t_cost :: "int option"
  es_kdf_p_cost :: "int option"
  es_cipher_algorithm :: "string option"
  es_cipher_nonce :: "string option"
  es_created_at :: timestamp
  es_updated_at :: timestamp

record owned_row =
  ow_id :: int
  ow_owner :: "int option"

record preference_row =
  pf_id :: int
  pf_subject_key :: string
  pf_identity_id :: "int option"

record userdb =
  users :: "user_row list"
  portal_identities :: "identity_row list"
  account_links :: "owned_row list"
  title_requests :: "owned_row list"
  claim_tickets :: "ticket_row list"
  portal_sessions :: "portal_session_row list"
  listening_progress :: "owned_row list"
  user_preferences :: "preference_row list"
  operator_sessions :: "operator_session_row list"
  oidc_refresh_tokens :: "owned_row list"
  oidc_auth_codes :: "owned_row list"
  webauthn_credentials :: "owned_row list"
  webauthn_challenges :: "webauthn_challenge_row list"
  encrypted_secrets :: "secret_row list"
  oidc_rp_states :: "oidc_rp_state_row list"
  portal_session_seq :: int

text \<open>Decimal text of an \<open>i64\<close>.\<close>

definition int_str :: "int \<Rightarrow> string" where
  "int_str i = (if i < 0 then ''-'' @ nat_str (nat (- i)) else nat_str (nat i))"

section \<open>Records handed to callers\<close>

record UserRecord =
  ur_id :: int
  ur_role :: UserRole
  ur_status :: UserStatus
  ur_display_name :: "string option"
  ur_login_name :: "string option"
  ur_email :: "string option"
  ur_has_password :: bool
  ur_security_version :: int
  ur_created_at :: timestamp
  ur_updated_at :: timestamp
  ur_last_seen_at :: "timestamp option"
  ur_avatar_source :: "string option"
  ur_totp_enabled :: bool

definition map_user :: "user_row \<Rightarrow> UserRecord" where
  "map_user m =
     \<lparr>ur_id = u_id m,
      ur_role = (case UserRole_parse (u_role m) of None \<Rightarrow> Member | Some r \<Rightarrow> r),
      ur_status = (case UserStatus_parse (u_status m) of None \<Rightarrow> Active | Some s \<Rightarrow> s),
      ur_display_name = u_display_name m, ur_login_name = u_login_name m, ur_email = u_email m,
      ur_has_password = (u_password_hash m \<noteq> None), ur_security_version = u_security_version m,
      ur_created_at = u_created_at m, ur_updated_at = u_updated_at m,
      ur_last_seen_at = u_last_seen_at m, ur_avatar_source = u_avatar_source m,
      ur_totp_enabled = (u_totp_enabled m \<noteq> 0)\<rparr>"

text \<open>
  The receipt payload of a user operation is the JSON object built by \<open>user_payload_json_sql\<close>; it has
  no \<open>totp_enabled\<close> member, so serde's default \<open>false\<close> applies. An unknown role or status text
  fails to decode.
\<close>

datatype atomic_payload = UserJson user_row | IdentityJson identity_row

definition user_payload_json_sql :: "int \<Rightarrow> userdb \<Rightarrow> atomic_payload option" where
  "user_payload_json_sql uid d = map_option UserJson (find_by u_id uid (users d))"

definition decode_user :: "user_row \<Rightarrow> atomic_error + UserRecord" where
  "decode_user m =
     (case (UserRole_parse (u_role m), UserStatus_parse (u_status m)) of
        (Some r, Some s) \<Rightarrow>
          Inr ((map_user m)\<lparr>ur_role := r, ur_status := s,
                 ur_has_password := (u_password_hash m \<noteq> None \<and> u_password_hash m \<noteq> Some []),
                 ur_totp_enabled := False\<rparr>)
      | _ \<Rightarrow> Inl (AtomicOther ''database atomic user payload''))"

definition user_from_atomic :: "int \<Rightarrow> atomic_payload DbAtomicResult \<Rightarrow> atomic_error + UserRecord" where
  "user_from_atomic uid res =
     (case atomic_app_err (res_status res) (NotFound (''user '' @ int_str uid)) of
        Some err \<Rightarrow> Inl err
      | None \<Rightarrow>
          (case decode_payload ''user'' (res_payload res) of
             Inl err \<Rightarrow> Inl err
           | Inr (UserJson m) \<Rightarrow> decode_user m
           | Inr (IdentityJson _) \<Rightarrow> Inl (AtomicOther ''database atomic user payload'')))"

definition unit_from_atomic :: "int \<Rightarrow> atomic_payload DbAtomicResult \<Rightarrow> atomic_error + unit" where
  "unit_from_atomic uid res =
     (case atomic_app_err (res_status res) (NotFound (''user '' @ int_str uid)) of
        Some err \<Rightarrow> Inl err | None \<Rightarrow> Inr ())"

section \<open>The last-owner guard\<close>

definition active_owner :: "user_row \<Rightarrow> bool" where
  "active_owner u \<longleftrightarrow> u_role u = ''owner'' \<and> u_status u = ''active''"

definition user_exists :: "int \<Rightarrow> userdb \<Rightarrow> bool" where
  "user_exists uid d \<longleftrightarrow> (\<exists>u \<in> set (users d). u_id u = uid)"

definition last_owner_sql :: "int \<Rightarrow> userdb \<Rightarrow> bool" where
  "last_owner_sql uid d \<longleftrightarrow>
     (\<exists>u \<in> set (users d). u_id u = uid \<and> active_owner u) \<and> rows_affected active_owner (users d) \<le> 1"

definition allow_mutate_sql :: "int \<Rightarrow> userdb \<Rightarrow> bool" where
  "allow_mutate_sql uid d \<longleftrightarrow> user_exists uid d \<and> \<not> last_owner_sql uid d"

section \<open>Deleting a user\<close>

definition identity_of :: "int \<Rightarrow> userdb \<Rightarrow> int option \<Rightarrow> bool" where
  "identity_of uid d i \<longleftrightarrow> (\<exists>p \<in> set (portal_identities d). pi_user_id p = Some uid \<and> i = Some (pi_id p))"

text \<open>The writes before the user row goes, each guarded by \<open>allow_mutate_sql\<close>.\<close>

definition delete_user_writes :: "int \<Rightarrow> (userdb \<Rightarrow> userdb) list" where
  "delete_user_writes uid =
     [\<lambda>d. d\<lparr>account_links := delete_many (\<lambda>r. identity_of uid d (ow_owner r)) (account_links d)\<rparr>,
      \<lambda>d. d\<lparr>title_requests := delete_many (\<lambda>r. identity_of uid d (ow_owner r)) (title_requests d)\<rparr>,
      \<lambda>d. d\<lparr>claim_tickets := delete_many (\<lambda>r. identity_of uid d (ct_identity_id r)) (claim_tickets d)\<rparr>,
      \<lambda>d. d\<lparr>portal_sessions := delete_many (\<lambda>r. identity_of uid d (Some (ps_identity_id r))) (portal_sessions d)\<rparr>,
      \<lambda>d. d\<lparr>listening_progress := delete_many (\<lambda>r. identity_of uid d (ow_owner r)) (listening_progress d)\<rparr>,
      \<lambda>d. d\<lparr>user_preferences := delete_many (\<lambda>r. identity_of uid d (pf_identity_id r)) (user_preferences d)\<rparr>,
      \<lambda>d. d\<lparr>operator_sessions := delete_many (\<lambda>r. op_elevated_from_user_id r = Some uid) (operator_sessions d)\<rparr>,
      \<lambda>d. d\<lparr>operator_sessions :=
             update_many (\<lambda>r. op_impersonating_user_id r = Some uid)
               (\<lambda>r. r\<lparr>op_impersonating_user_id := None\<rparr>) (operator_sessions d)\<rparr>,
      \<lambda>d. d\<lparr>oidc_refresh_tokens := delete_many (\<lambda>r. ow_owner r = Some uid) (oidc_refresh_tokens d)\<rparr>,
      \<lambda>d. d\<lparr>oidc_auth_codes := delete_many (\<lambda>r. ow_owner r = Some uid) (oidc_auth_codes d)\<rparr>,
      \<lambda>d. d\<lparr>webauthn_credentials := delete_many (\<lambda>r. ow_owner r = Some uid) (webauthn_credentials d)\<rparr>,
      \<lambda>d. d\<lparr>webauthn_challenges := delete_many (\<lambda>r. wc_user_id r = Some uid) (webauthn_challenges d)\<rparr>,
      \<lambda>d. d\<lparr>oidc_rp_states := delete_many (\<lambda>r. os_user_id r = Some uid) (oidc_rp_states d)\<rparr>,
      \<lambda>d. d\<lparr>encrypted_secrets :=
             delete_many (\<lambda>r. es_kind r = ''totp'' \<and> es_account_type r = ''user''
                              \<and> es_account_id r = Some (int_str uid)) (encrypted_secrets d)\<rparr>,
      \<lambda>d. d\<lparr>portal_identities := delete_many (\<lambda>r. pi_user_id r = Some uid) (portal_identities d)\<rparr>,
      \<lambda>d. d\<lparr>user_preferences :=
             delete_many (\<lambda>r. pf_subject_key r = ''user:'' @ int_str uid) (user_preferences d)\<rparr>]"

definition plan_delete_user :: "int \<Rightarrow> (userdb, atomic_payload) AtomicPlan" where
  "plan_delete_user uid =
     \<lparr>plan_before = [],
      plan_outcome = (\<lambda>d. if \<not> user_exists uid d then ''notFound''
                          else if last_owner_sql uid d then ''lastOwner'' else ''ok''),
      plan_after =
        map (\<lambda>w d. Some (if allow_mutate_sql uid d then w d else d)) (delete_user_writes uid)
        @ [\<lambda>d. Some (if \<not> last_owner_sql uid d
                     then d\<lparr>users := delete_many (\<lambda>u. u_id u = uid) (users d)\<rparr> else d)],
      plan_payload = None\<rparr>"

section \<open>Status, role and password\<close>

definition last_owner_disable :: "int \<Rightarrow> string \<Rightarrow> userdb \<Rightarrow> bool" where
  "last_owner_disable uid status d \<longleftrightarrow> status = ''disabled'' \<and> last_owner_sql uid d"

definition drop_elevated :: "int \<Rightarrow> userdb \<Rightarrow> userdb" where
  "drop_elevated uid d =
     d\<lparr>operator_sessions := delete_many (\<lambda>r. op_elevated_from_user_id r = Some uid) (operator_sessions d)\<rparr>"

definition update_user :: "int \<Rightarrow> (user_row \<Rightarrow> user_row) \<Rightarrow> userdb \<Rightarrow> userdb" where
  "update_user uid f d = d\<lparr>users := update_many (\<lambda>u. u_id u = uid) f (users d)\<rparr>"

definition plan_set_user_status :: "int \<Rightarrow> string \<Rightarrow> timestamp \<Rightarrow> (userdb, atomic_payload) AtomicPlan" where
  "plan_set_user_status uid status now =
     \<lparr>plan_before = [],
      plan_outcome = (\<lambda>d. if \<not> user_exists uid d then ''notFound''
                          else if last_owner_disable uid status d then ''lastOwner'' else ''ok''),
      plan_after =
        [\<lambda>d. Some (if last_owner_disable uid status d then d
                   else update_user uid (\<lambda>u. u\<lparr>u_status := status, u_updated_at := now\<rparr>) d),
         \<lambda>d. Some (if status = ''disabled''
                        \<and> (\<exists>u \<in> set (users d). u_id u = uid \<and> u_status u = ''disabled'')
                   then drop_elevated uid d else d)],
      plan_payload = Some (user_payload_json_sql uid)\<rparr>"

definition last_owner_demote :: "int \<Rightarrow> string \<Rightarrow> userdb \<Rightarrow> bool" where
  "last_owner_demote uid role d \<longleftrightarrow> role \<noteq> ''owner'' \<and> last_owner_sql uid d"

definition plan_set_user_role :: "int \<Rightarrow> string \<Rightarrow> timestamp \<Rightarrow> (userdb, atomic_payload) AtomicPlan" where
  "plan_set_user_role uid role now =
     \<lparr>plan_before = [],
      plan_outcome = (\<lambda>d. if \<not> user_exists uid d then ''notFound''
                          else if last_owner_demote uid role d then ''lastOwner'' else ''ok''),
      plan_after =
        [\<lambda>d. Some (if (\<exists>u \<in> set (users d). u_id u = uid \<and> u_role u \<noteq> role) \<and> \<not> last_owner_demote uid role d
                   then drop_elevated uid d else d),
         \<lambda>d. Some (if last_owner_demote uid role d then d
                   else update_user uid (\<lambda>u. u\<lparr>u_role := role, u_updated_at := now\<rparr>) d)],
      plan_payload = Some (user_payload_json_sql uid)\<rparr>"

definition plan_set_user_password_hash ::
  "int \<Rightarrow> string option \<Rightarrow> timestamp \<Rightarrow> (userdb, atomic_payload) AtomicPlan" where
  "plan_set_user_password_hash uid password_hash now =
     \<lparr>plan_before = [],
      plan_outcome = (\<lambda>d. if user_exists uid d then ''ok'' else ''notFound''),
      plan_after =
        [\<lambda>d. Some (update_user uid
                (\<lambda>u. u\<lparr>u_password_hash := password_hash, u_security_version := u_security_version u + 1,
                       u_updated_at := now\<rparr>) d),
         \<lambda>d. Some (drop_elevated uid d)],
      plan_payload = Some (user_payload_json_sql uid)\<rparr>"

section \<open>TOTP\<close>

definition totp_secret :: "int \<Rightarrow> secret_row \<Rightarrow> bool" where
  "totp_secret uid r \<longleftrightarrow>
     es_kind r = ''totp'' \<and> es_provider r = Some ''local'' \<and> es_account_type r = ''user''
     \<and> es_account_id r = Some (int_str uid) \<and> es_name r \<in> {''primary'', ''pending''}"

definition same_secret_key :: "secret_row \<Rightarrow> secret_row \<Rightarrow> bool" where
  "same_secret_key r r' \<longleftrightarrow>
     es_kind r = es_kind r' \<and> es_provider r = es_provider r' \<and> es_account_type r = es_account_type r'
     \<and> es_account_id r = es_account_id r' \<and> es_name r = es_name r'
     \<and> es_provider r \<noteq> None \<and> es_account_id r \<noteq> None"

text \<open>The row that is inserted; \<open>rec\<close> gives the sealed secret.\<close>

definition totp_primary :: "int \<Rightarrow> secret_row \<Rightarrow> timestamp option \<Rightarrow> timestamp \<Rightarrow> secret_row" where
  "totp_primary uid rec created_at now =
     rec\<lparr>es_kind := ''totp'', es_provider := Some ''local'', es_account_type := ''user'',
         es_account_id := Some (int_str uid), es_name := ''primary'',
         es_created_at := (case created_at of None \<Rightarrow> now | Some t \<Rightarrow> t), es_updated_at := now\<rparr>"

definition plan_confirm_totp_enrollment ::
  "int \<Rightarrow> secret_row \<Rightarrow> timestamp option \<Rightarrow> timestamp \<Rightarrow> (userdb, atomic_payload) AtomicPlan" where
  "plan_confirm_totp_enrollment uid rec created_at now =
     \<lparr>plan_before = [],
      plan_outcome = (\<lambda>d. if user_exists uid d then ''ok'' else ''notFound''),
      plan_after =
        [\<lambda>d. Some (d\<lparr>encrypted_secrets := delete_many (totp_secret uid) (encrypted_secrets d)\<rparr>),
         \<lambda>d. if \<not> user_exists uid d then Some d
             else if \<exists>r \<in> set (encrypted_secrets d). same_secret_key (totp_primary uid rec created_at now) r
             then None
             else Some (d\<lparr>encrypted_secrets := encrypted_secrets d @ [totp_primary uid rec created_at now]\<rparr>),
         \<lambda>d. Some (update_user uid (\<lambda>u. u\<lparr>u_totp_enabled := 1, u_updated_at := now\<rparr>) d)],
      plan_payload = None\<rparr>"

definition plan_disable_user_totp :: "int \<Rightarrow> timestamp \<Rightarrow> (userdb, atomic_payload) AtomicPlan" where
  "plan_disable_user_totp uid now =
     \<lparr>plan_before = [],
      plan_outcome = (\<lambda>d. if user_exists uid d then ''ok'' else ''notFound''),
      plan_after =
        [\<lambda>d. Some (d\<lparr>encrypted_secrets := delete_many (totp_secret uid) (encrypted_secrets d)\<rparr>),
         \<lambda>d. Some (update_user uid (\<lambda>u. u\<lparr>u_totp_enabled := 0, u_updated_at := now\<rparr>) d)],
      plan_payload = None\<rparr>"

section \<open>Redeeming a claim ticket\<close>

record redeem_request =
  rq_token_hash :: string
  rq_session_hash :: string
  rq_expires_at :: timestamp
  rq_user_agent :: "string option"
  rq_device_type :: "string option"
  rq_client_label :: "string option"
  rq_new_password_hash :: "string option"

definition ticket_identity :: "ticket_row \<Rightarrow> identity_row \<Rightarrow> bool" where
  "ticket_identity t i \<longleftrightarrow> ct_identity_id t = Some (pi_id i)"

text \<open>The ticket's identity is local, linked to a user, and that user has no password yet.\<close>

definition needs_password :: "userdb \<Rightarrow> ticket_row \<Rightarrow> bool" where
  "needs_password d t \<longleftrightarrow>
     (\<exists>i \<in> set (portal_identities d). ticket_identity t i \<and> pi_provider i = ''local''
        \<and> (\<exists>u \<in> set (users d). pi_user_id i = Some (u_id u) \<and> u_password_hash u = None))"

definition orphaned_identity :: "userdb \<Rightarrow> ticket_row \<Rightarrow> bool" where
  "orphaned_identity d t \<longleftrightarrow>
     (\<exists>i \<in> set (portal_identities d). ticket_identity t i \<and> pi_provider i = ''local''
        \<and> pi_user_id i \<noteq> None \<and> \<not> (\<exists>u \<in> set (users d). pi_user_id i = Some (u_id u)))"

definition redeemable :: "redeem_request \<Rightarrow> timestamp \<Rightarrow> userdb \<Rightarrow> ticket_row \<Rightarrow> bool" where
  "redeemable rq now d t \<longleftrightarrow>
     ct_token_hash t = rq_token_hash rq \<and> ct_redeemed_at t = None \<and> now < ct_expires_at t
     \<and> (\<exists>i \<in> set (portal_identities d). ticket_identity t i)
     \<and> \<not> orphaned_identity d t
     \<and> \<not> (needs_password d t \<and> rq_new_password_hash rq = None)"

definition just_redeemed :: "redeem_request \<Rightarrow> timestamp \<Rightarrow> ticket_row \<Rightarrow> bool" where
  "just_redeemed rq now t \<longleftrightarrow> ct_token_hash t = rq_token_hash rq \<and> ct_redeemed_at t = Some now"

definition claimed_user :: "redeem_request \<Rightarrow> timestamp \<Rightarrow> userdb \<Rightarrow> int \<Rightarrow> bool" where
  "claimed_user rq now d uid \<longleftrightarrow>
     (\<exists>t \<in> set (claim_tickets d). just_redeemed rq now t
        \<and> (\<exists>i \<in> set (portal_identities d). ticket_identity t i \<and> pi_provider i = ''local''
              \<and> pi_user_id i = Some uid))"

definition redeem_mark :: "redeem_request \<Rightarrow> timestamp \<Rightarrow> userdb \<Rightarrow> userdb" where
  "redeem_mark rq now d =
     d\<lparr>claim_tickets :=
         update_many (redeemable rq now d) (\<lambda>t. t\<lparr>ct_redeemed_at := Some now\<rparr>) (claim_tickets d)\<rparr>"

definition redeem_drop_elevated :: "redeem_request \<Rightarrow> timestamp \<Rightarrow> userdb \<Rightarrow> userdb" where
  "redeem_drop_elevated rq now d =
     d\<lparr>operator_sessions :=
         delete_many (\<lambda>r. rq_new_password_hash rq \<noteq> None \<and>
             (\<exists>u \<in> set (users d). op_elevated_from_user_id r = Some (u_id u)
                \<and> u_password_hash u = None \<and> claimed_user rq now d (u_id u))) (operator_sessions d)\<rparr>"

definition redeem_set_password :: "redeem_request \<Rightarrow> timestamp \<Rightarrow> userdb \<Rightarrow> userdb" where
  "redeem_set_password rq now d =
     d\<lparr>users :=
         update_many
           (\<lambda>u. rq_new_password_hash rq \<noteq> None \<and> u_password_hash u = None \<and> claimed_user rq now d (u_id u))
           (\<lambda>u. u\<lparr>u_password_hash := rq_new_password_hash rq, u_security_version := u_security_version u + 1,
                  u_updated_at := now\<rparr>) (users d)\<rparr>"

definition new_portal_session :: "redeem_request \<Rightarrow> timestamp \<Rightarrow> int \<Rightarrow> int \<Rightarrow> portal_session_row" where
  "new_portal_session rq now sid identity_id =
     \<lparr>ps_id = sid, ps_token_hash = rq_session_hash rq, ps_identity_id = identity_id,
      ps_expires_at = rq_expires_at rq, ps_created_at = now, ps_last_used_at = Some now,
      ps_user_agent = rq_user_agent rq, ps_device_type = rq_device_type rq,
      ps_client_label = rq_client_label rq\<rparr>"

text \<open>One session per just-redeemed ticket; a repeated session hash violates its uniqueness.\<close>

fun redeem_insert_sessions ::
  "redeem_request \<Rightarrow> timestamp \<Rightarrow> ticket_row list \<Rightarrow> userdb \<Rightarrow> userdb option" where
  "redeem_insert_sessions rq now [] d = Some d"
| "redeem_insert_sessions rq now (t # ts) d =
     (case ct_identity_id t of
        None \<Rightarrow> redeem_insert_sessions rq now ts d
      | Some i \<Rightarrow>
          if \<not> just_redeemed rq now t then redeem_insert_sessions rq now ts d
          else if \<exists>p \<in> set (portal_sessions d). ps_token_hash p = rq_session_hash rq then None
          else redeem_insert_sessions rq now ts
                 (d\<lparr>portal_sessions := portal_sessions d @ [new_portal_session rq now (portal_session_seq d + 1) i],
                    portal_session_seq := portal_session_seq d + 1\<rparr>))"

definition redeem_outcome :: "redeem_request \<Rightarrow> timestamp \<Rightarrow> userdb \<Rightarrow> string" where
  "redeem_outcome rq now d =
     (if (\<exists>t \<in> set (claim_tickets d). just_redeemed rq now t)
           \<and> (\<exists>p \<in> set (portal_sessions d). ps_token_hash p = rq_session_hash rq) then ''ok''
      else if \<exists>t \<in> set (claim_tickets d). ct_token_hash t = rq_token_hash rq \<and> ct_redeemed_at t = None
           \<and> now < ct_expires_at t \<and> needs_password d t \<and> rq_new_password_hash rq = None
      then ''passwordRequired''
      else ''claimInvalid'')"

definition redeem_identity :: "redeem_request \<Rightarrow> timestamp \<Rightarrow> userdb \<Rightarrow> atomic_payload option" where
  "redeem_identity rq now d =
     map_option IdentityJson
       (find (\<lambda>i. \<exists>t \<in> set (claim_tickets d). just_redeemed rq now t \<and> ticket_identity t i) (portal_identities d))"

definition plan_redeem_claim :: "redeem_request \<Rightarrow> timestamp \<Rightarrow> (userdb, atomic_payload) AtomicPlan" where
  "plan_redeem_claim rq now =
     \<lparr>plan_before =
        [\<lambda>d. Some (redeem_mark rq now d), \<lambda>d. Some (redeem_drop_elevated rq now d),
         \<lambda>d. Some (redeem_set_password rq now d),
         \<lambda>d. redeem_insert_sessions rq now (claim_tickets d) d],
      plan_outcome = redeem_outcome rq now,
      plan_after = [],
      plan_payload = Some (redeem_identity rq now)\<rparr>"

section \<open>The row-by-row transactions\<close>

definition count_active_owners_on :: "userdb \<Rightarrow> nat" where
  "count_active_owners_on d = rows_affected active_owner (users d)"

definition is_active_owner :: "UserRecord \<Rightarrow> bool" where
  "is_active_owner u \<longleftrightarrow> ur_role u = Owner \<and> ur_status u = Active"

definition delete_identity_rows :: "identity_row \<Rightarrow> userdb \<Rightarrow> userdb" where
  "delete_identity_rows i d =
     d\<lparr>account_links := delete_many (\<lambda>r. ow_owner r = Some (pi_id i)) (account_links d),
       title_requests := delete_many (\<lambda>r. ow_owner r = Some (pi_id i)) (title_requests d),
       claim_tickets := delete_many (\<lambda>r. ct_identity_id r = Some (pi_id i)) (claim_tickets d),
       portal_sessions := delete_many (\<lambda>r. ps_identity_id r = pi_id i) (portal_sessions d),
       listening_progress := delete_many (\<lambda>r. ow_owner r = Some (pi_id i)) (listening_progress d),
       user_preferences := delete_many (\<lambda>r. pf_identity_id r = Some (pi_id i)) (user_preferences d)\<rparr>"

definition delete_user_on :: "int \<Rightarrow> userdb \<Rightarrow> atomic_error + userdb" where
  "delete_user_on uid d =
     (case find_by u_id uid (users d) of
        None \<Rightarrow> Inl (NotFound (''user '' @ int_str uid))
      | Some model \<Rightarrow>
          if is_active_owner (map_user model) \<and> count_active_owners_on d \<le> 1 then Inl LastOwner
          else
            let d1 = fold delete_identity_rows
                       (filter (\<lambda>i. pi_user_id i = Some uid) (portal_identities d)) d;
                d2 = drop_elevated uid d1
            in Inr (d2\<lparr>operator_sessions :=
                       update_many (\<lambda>r. op_impersonating_user_id r = Some uid)
                         (\<lambda>r. r\<lparr>op_impersonating_user_id := None\<rparr>) (operator_sessions d2),
                     oidc_refresh_tokens := delete_many (\<lambda>r. ow_owner r = Some uid) (oidc_refresh_tokens d2),
                     oidc_auth_codes := delete_many (\<lambda>r. ow_owner r = Some uid) (oidc_auth_codes d2),
                     webauthn_credentials := delete_many (\<lambda>r. ow_owner r = Some uid) (webauthn_credentials d2),
                     webauthn_challenges := delete_many (\<lambda>r. wc_user_id r = Some uid) (webauthn_challenges d2),
                     encrypted_secrets :=
                       delete_many (\<lambda>r. es_kind r = ''totp'' \<and> es_account_type r = ''user''
                                        \<and> es_account_id r = Some (int_str uid)) (encrypted_secrets d2),
                     oidc_rp_states := delete_many (\<lambda>r. os_user_id r = Some uid) (oidc_rp_states d2),
                     portal_identities := delete_many (\<lambda>r. pi_user_id r = Some uid) (portal_identities d2),
                     user_preferences :=
                       delete_many (\<lambda>r. pf_subject_key r = ''user:'' @ int_str uid) (user_preferences d2),
                     users := delete_many (\<lambda>u. u_id u = uid) (users d2)\<rparr>))"

definition set_user_status_on :: "int \<Rightarrow> UserStatus \<Rightarrow> timestamp \<Rightarrow> userdb \<Rightarrow> atomic_error + userdb \<times> UserRecord" where
  "set_user_status_on uid status now d =
     (case find_by u_id uid (users d) of
        None \<Rightarrow> Inl (NotFound (''user '' @ int_str uid))
      | Some model \<Rightarrow>
          if status = Disabled \<and> is_active_owner (map_user model) \<and> count_active_owners_on d \<le> 1
          then Inl LastOwner
          else
            let row = model\<lparr>u_status := UserStatus_as_str status, u_updated_at := now\<rparr>;
                d1 = update_user uid (\<lambda>_. row) d
            in Inr (if status = Disabled then drop_elevated uid d1 else d1, map_user row))"

definition set_user_role_on :: "int \<Rightarrow> UserRole \<Rightarrow> timestamp \<Rightarrow> userdb \<Rightarrow> atomic_error + userdb \<times> UserRecord" where
  "set_user_role_on uid role now d =
     (case find_by u_id uid (users d) of
        None \<Rightarrow> Inl (NotFound (''user '' @ int_str uid))
      | Some model \<Rightarrow>
          if role \<noteq> Owner \<and> is_active_owner (map_user model) \<and> count_active_owners_on d \<le> 1
          then Inl LastOwner
          else
            let row = model\<lparr>u_role := UserRole_as_str role, u_updated_at := now\<rparr>;
                d1 = update_user uid (\<lambda>_. row) d
            in Inr (if ur_role (map_user model) \<noteq> role then drop_elevated uid d1 else d1, map_user row))"

definition set_user_password_hash_on ::
  "int \<Rightarrow> string option \<Rightarrow> timestamp \<Rightarrow> userdb \<Rightarrow> atomic_error + userdb \<times> UserRecord" where
  "set_user_password_hash_on uid password_hash now d =
     (case find_by u_id uid (users d) of
        None \<Rightarrow> Inl (NotFound (''user '' @ int_str uid))
      | Some model \<Rightarrow>
          let next_sv = min (u_security_version model + 1) (int I64_MAX);
              row = model\<lparr>u_password_hash := password_hash, u_security_version := next_sv, u_updated_at := now\<rparr>
          in Inr (drop_elevated uid (update_user uid (\<lambda>_. row) d), map_user row))"

end
