(* ===== verification/User_Safety.thy ===== *)
theory User_Safety
  imports User_Plans
begin

text \<open>
  Safety of the user operations: whatever batches run, under fresh or repeated operation ids, an
  installation that has an active owner keeps one; deleting a user removes every row that belongs to
  the user; security changes revoke the operator sessions the user had elevated to; the batches agree
  with the row-by-row transactions; a claim ticket opens at most one session.
\<close>

section \<open>The operations\<close>

datatype user_op =
    DeleteUser int
  | SetUserStatus int UserStatus
  | SetUserPasswordHash int "string option"
  | SetUserRole int UserRole
  | RedeemClaimTicket redeem_request
  | ConfirmTotpEnrollment int secret_row "timestamp option"
  | DisableUserTotp int

fun plan_inner :: "user_op \<Rightarrow> timestamp \<Rightarrow> (userdb, atomic_payload) AtomicPlan" where
  "plan_inner (DeleteUser uid) now = plan_delete_user uid"
| "plan_inner (SetUserStatus uid status) now = plan_set_user_status uid (UserStatus_as_str status) now"
| "plan_inner (SetUserPasswordHash uid h) now = plan_set_user_password_hash uid h now"
| "plan_inner (SetUserRole uid role) now = plan_set_user_role uid (UserRole_as_str role) now"
| "plan_inner (RedeemClaimTicket rq) now = plan_redeem_claim rq now"
| "plan_inner (ConfirmTotpEnrollment uid rec created_at) now = plan_confirm_totp_enrollment uid rec created_at now"
| "plan_inner (DisableUserTotp uid) now = plan_disable_user_totp uid now"

fun payload_kind :: "user_op \<Rightarrow> PayloadKind" where
  "payload_kind (DeleteUser _) = PayloadNone"
| "payload_kind (SetUserStatus _ _) = PayloadUser"
| "payload_kind (SetUserPasswordHash _ _) = PayloadUser"
| "payload_kind (SetUserRole _ _) = PayloadUser"
| "payload_kind (RedeemClaimTicket _) = PayloadIdentity"
| "payload_kind (ConfirmTotpEnrollment _ _ _) = PayloadNone"
| "payload_kind (DisableUserTotp _) = PayloadNone"

type_synonym user_system = "(userdb, atomic_payload) atomic_db"

definition run_user_op :: "user_op \<Rightarrow> ReceiptCtx \<Rightarrow> user_system \<Rightarrow> (user_system \<times> atomic_payload DbAtomicResult) option" where
  "run_user_op op ctx s = execute_named (plan_inner op (ctx_now ctx)) ctx (payload_kind op) s"

text \<open>One batch of a user operation, or one new user.\<close>

inductive user_step :: "user_system \<Rightarrow> user_system \<Rightarrow> bool" where
  step_user_op: "run_user_op op ctx s = Some (s', res) \<Longrightarrow> user_step s s'"
| step_create_user: "u_id row \<notin> u_id ` set (users (a_data s)) \<Longrightarrow>
    user_step s (s\<lparr>a_data := (a_data s)\<lparr>users := users (a_data s) @ [row]\<rparr>\<rparr>)"

section \<open>Invariants of wrapped batches\<close>

lemma run_gated_preserves:
  assumes "run_gated ws s = Some s'" and "I (a_data s)"
    and "\<And>w t t'. w \<in> set ws \<Longrightarrow> I (a_data t) \<Longrightarrow> w t = Some t' \<Longrightarrow> I (a_data t')"
  shows "I (a_data s')"
  using assms
proof (induction ws s rule: run_gated.induct)
  case (2 w ws s)
  from 2(2) obtain t where t: "w s = Some t" "run_gated ws t = Some s'" by (auto split: option.splits)
  with 2(3,4) have "I (a_data t)" by auto
  from 2(1) [OF t this] 2(4) show ?case by auto
qed simp

lemma execute_named_preserves:
  assumes run: "execute_named plan ctx k s = Some (s', res)" and inv: "I (a_data s)"
    and writes: "\<And>w d d'. w \<in> set (plan_before plan) \<union> set (plan_after plan) \<Longrightarrow> I d \<Longrightarrow> w d = Some d' \<Longrightarrow> I d'"
  shows "I (a_data s')"
proof -
  let ?op = "ctx_operation_id ctx" and ?s0 = "prune_receipts ctx s"
  obtain s1 s3 where s1: "run_gated (map (\<lambda>w. gate_write w ?op) (plan_before plan)) ?s0 = Some s1"
    and s3: "run_gated (map (\<lambda>w. gate_write_when_outcome_ok w ?op (plan_outcome plan)) (plan_after plan))
        (snapshot_outcome_update ctx (plan_outcome plan) (snapshot_outcome_insert ctx s1)) = Some s3"
    and s': "a_data s' = a_data s3"
    using run by (auto simp: execute_named_def wrap_status_op_def Let_def split: option.splits)
  have "I (a_data s1)" using s1
  proof (rule run_gated_preserves)
    show "I (a_data ?s0)" using inv by simp
    show "I (a_data t')" if "w \<in> set (map (\<lambda>w. gate_write w ?op) (plan_before plan))" "I (a_data t)" "w t = Some t'" for w t t'
      using that by (auto simp: gate_write_def split: if_splits) (metis UnI1 writes)
  qed
  then have start: "I (a_data (snapshot_outcome_update ctx (plan_outcome plan) (snapshot_outcome_insert ctx s1)))" by simp
  show ?thesis unfolding s' using s3 start
  proof (rule run_gated_preserves)
    show "I (a_data t')"
      if "w \<in> set (map (\<lambda>w. gate_write_when_outcome_ok w ?op (plan_outcome plan)) (plan_after plan))" "I (a_data t)" "w t = Some t'"
      for w t t'
      using that by (auto simp: gate_write_when_outcome_ok_def gate_write_def split: if_splits) (metis UnI2 writes)
  qed
qed

section \<open>The last owner\<close>

definition owner_ok :: "userdb \<Rightarrow> bool" where
  "owner_ok d \<longleftrightarrow> distinct (map u_id (users d)) \<and> (\<exists>u \<in> set (users d). active_owner u)"

lemma owner_ok_users: "users d' = users d \<Longrightarrow> owner_ok d' = owner_ok d"
  by (simp add: owner_ok_def)

lemma owner_ok_update:
  assumes "owner_ok d" and "\<And>u. u_id (f u) = u_id u"
    and "\<And>u. u \<in> set (users d) \<Longrightarrow> P u \<Longrightarrow> active_owner u \<Longrightarrow> active_owner (f u)
        \<or> (\<exists>v \<in> set (users d). active_owner v \<and> \<not> P v)"
  shows "owner_ok (d\<lparr>users := update_many P f (users d)\<rparr>)"
proof -
  have "map u_id (update_many P f (users d)) = map u_id (users d)" by (rule map_update_many_key) (simp add: assms(2))
  moreover obtain u where "u \<in> set (users d)" "active_owner u" using assms(1) by (auto simp: owner_ok_def)
  then have "\<exists>v \<in> set (update_many P f (users d)). active_owner v"
    using assms(3) by (cases "P u") (auto simp: table_simps)
  ultimately show ?thesis using assms(1) by (simp add: owner_ok_def)
qed

text \<open>An active owner who is not the last one leaves another active owner behind.\<close>

lemma another_owner:
  assumes "owner_ok d" and "\<not> last_owner_sql uid d"
  shows "\<exists>v \<in> set (users d). active_owner v \<and> u_id v \<noteq> uid"
proof (rule ccontr)
  assume none: "\<not> ?thesis"
  then have all: "\<And>v. v \<in> set (users d) \<Longrightarrow> active_owner v \<Longrightarrow> u_id v = uid" by blast
  then have "rows_affected active_owner (users d) = rows_affected (\<lambda>v. active_owner v \<and> u_id v = uid) (users d)"
    unfolding rows_affected_def by (metis (mono_tags, lifting) filter_cong)
  also have "\<dots> \<le> 1"
    using assms(1) by (intro rows_affected_key_le_1 [where key = u_id and k = uid]) (auto simp: owner_ok_def)
  finally have "last_owner_sql uid d" using assms(1) all by (auto simp: last_owner_sql_def owner_ok_def)
  with assms(2) show False by simp
qed

lemma owner_ok_update_user:
  assumes ok: "owner_ok d" and key: "\<And>u. u_id (f u) = u_id u"
    and still: "(\<forall>u. active_owner u \<longrightarrow> active_owner (f u)) \<or> \<not> last_owner_sql uid d"
  shows "owner_ok (update_user uid f d)"
  unfolding update_user_def
proof (rule owner_ok_update [OF ok key])
  fix u assume "active_owner u"
  with still another_owner [OF ok] show "active_owner (f u) \<or> (\<exists>v \<in> set (users d). active_owner v \<and> \<not> u_id v = uid)"
    by blast
qed

lemma owner_ok_delete_user:
  assumes "owner_ok d" and "\<not> last_owner_sql uid d"
  shows "owner_ok (d\<lparr>users := delete_many (\<lambda>u. u_id u = uid) (users d)\<rparr>)"
proof -
  have "distinct (map u_id (delete_many (\<lambda>u. u_id u = uid) (users d)))"
    using assms(1) by (simp add: owner_ok_def delete_many_def distinct_map_filter)
  moreover have "\<exists>v \<in> set (delete_many (\<lambda>u. u_id u = uid) (users d)). active_owner v"
    using another_owner [OF assms] by (auto simp: table_simps)
  ultimately show ?thesis by (simp add: owner_ok_def)
qed

lemma drop_elevated_users [simp]: "users (drop_elevated uid d) = users d"
  by (simp add: drop_elevated_def)

lemma delete_user_writes_users: "w \<in> set (delete_user_writes uid) \<Longrightarrow> users (w d) = users d"
  by (auto simp: delete_user_writes_def)

lemma redeem_insert_sessions_users: "redeem_insert_sessions rq now ts d = Some d' \<Longrightarrow> users d' = users d"
  by (induction rq now ts d rule: redeem_insert_sessions.induct) (auto split: option.splits if_splits)

lemma owner_ok_redeem: "owner_ok d \<Longrightarrow> owner_ok (redeem_set_password rq now d)"
  unfolding redeem_set_password_def by (rule owner_ok_update) (auto simp: active_owner_def)

text \<open>Every write of every user batch keeps an active owner.\<close>

lemma writes_keep_owner:
  assumes "w \<in> set (plan_before (plan_inner op now)) \<union> set (plan_after (plan_inner op now))"
    and ok: "owner_ok d" and "w d = Some d'"
  shows "owner_ok d'"
proof (cases op)
  case (DeleteUser uid)
  with assms show ?thesis
    by (auto simp: plan_delete_user_def owner_ok_delete_user owner_ok_users [OF delete_user_writes_users] split: if_splits)
next
  case (SetUserStatus uid status)
  have "owner_ok (update_user uid (\<lambda>u. u\<lparr>u_status := UserStatus_as_str status, u_updated_at := now\<rparr>) d)"
    if "\<not> last_owner_disable uid (UserStatus_as_str status) d"
    using ok that by (cases status; intro owner_ok_update_user) (auto simp: active_owner_def last_owner_disable_def)
  with SetUserStatus assms show ?thesis
    by (auto simp: plan_set_user_status_def owner_ok_users [OF drop_elevated_users] split: if_splits)
next
  case (SetUserPasswordHash uid h)
  with assms show ?thesis
    by (auto simp: plan_set_user_password_hash_def owner_ok_users [OF drop_elevated_users] active_owner_def
        intro!: owner_ok_update_user)
next
  case (SetUserRole uid role)
  have "owner_ok (update_user uid (\<lambda>u. u\<lparr>u_role := UserRole_as_str role, u_updated_at := now\<rparr>) d)"
    if "\<not> last_owner_demote uid (UserRole_as_str role) d"
    using ok that by (cases role; intro owner_ok_update_user) (auto simp: active_owner_def last_owner_demote_def)
  with SetUserRole assms show ?thesis
    by (auto simp: plan_set_user_role_def owner_ok_users [OF drop_elevated_users] split: if_splits)
next
  case (RedeemClaimTicket rq)
  with assms show ?thesis
    by (auto simp: plan_redeem_claim_def owner_ok_redeem redeem_mark_def redeem_drop_elevated_def
        owner_ok_users [OF redeem_insert_sessions_users] owner_ok_users [of "claim_tickets_update f d" d for f d]
        owner_ok_users [of "operator_sessions_update f d" d for f d])
next
  case (ConfirmTotpEnrollment uid rec created_at)
  with assms show ?thesis
    by (auto simp: plan_confirm_totp_enrollment_def owner_ok_users [of "encrypted_secrets_update f d" d for f d] active_owner_def
        intro!: owner_ok_update_user split: if_splits)
next
  case (DisableUserTotp uid)
  with assms show ?thesis
    by (auto simp: plan_disable_user_totp_def owner_ok_users [of "encrypted_secrets_update f d" d for f d] active_owner_def
        intro!: owner_ok_update_user)
qed

lemma user_step_keeps_owner: "user_step s s' \<Longrightarrow> owner_ok (a_data s) \<Longrightarrow> owner_ok (a_data s')"
proof (induction rule: user_step.induct)
  case (step_user_op op ctx s s' res)
  then show ?case
    by (auto simp: run_user_op_def intro: execute_named_preserves writes_keep_owner)
qed (auto simp: owner_ok_def)

text \<open>
  C33: the installation never loses its last active owner. From tables with an active owner, any
  sequence of user batches (deletions, disablings, role changes, password changes, claim redemptions,
  TOTP changes, under fresh or repeated operation ids) and new users leaves an active owner.
\<close>

theorem last_owner_survives:
  assumes "user_step\<^sup>*\<^sup>* s t" and "owner_ok (a_data s)"
  shows "\<exists>u \<in> set (users (a_data t)). u_role u = ''owner'' \<and> u_status u = ''active''"
proof -
  from assms have "owner_ok (a_data t)" by (induction rule: rtranclp_induct) (auto intro: user_step_keeps_owner)
  then show ?thesis by (auto simp: owner_ok_def active_owner_def)
qed

section \<open>Deleting a user\<close>

lemma run_writes_append: "run_writes (xs @ ys) d = Option.bind (run_writes xs d) (run_writes ys)"
  by (induction xs arbitrary: d) (auto split: option.split)

lemma run_writes_blocked: "outcome d \<noteq> ''ok'' \<Longrightarrow> run_writes (map (guarded outcome) ws) d = Some d"
  by (induction ws) (auto simp: guarded_def)

lemma run_plan_blocked:
  "plan_before plan = [] \<Longrightarrow> plan_outcome plan d \<noteq> ''ok'' \<Longrightarrow> run_plan plan d = Some (d, plan_outcome plan d)"
  by (simp add: run_plan_def run_writes_blocked)

text \<open>Only the tables of users decide whether a batch may go on.\<close>

lemma user_guards_cong:
  assumes "users d' = users d"
  shows "user_exists uid d' = user_exists uid d" "last_owner_sql uid d' = last_owner_sql uid d"
    "allow_mutate_sql uid d' = allow_mutate_sql uid d"
  using assms by (simp_all add: user_exists_def last_owner_sql_def allow_mutate_sql_def)

lemma run_delete_writes:
  assumes "\<And>w d. w \<in> set ws \<Longrightarrow> users (w d) = users d" and "allow_mutate_sql uid d"
  shows "run_writes (map (guarded (plan_outcome (plan_delete_user uid)))
      (map (\<lambda>w d. Some (if allow_mutate_sql uid d then w d else d)) ws)) d = Some (fold (\<lambda>w. w) ws d)
    \<and> users (fold (\<lambda>w. w) ws d) = users d"
  using assms
proof (induction ws arbitrary: d)
  case (Cons w ws)
  then have "users (w d) = users d" by simp
  with Cons show ?case
    by (auto simp: guarded_def plan_delete_user_def allow_mutate_sql_def user_guards_cong [of "w d" d])
qed simp

definition deleted_user :: "int \<Rightarrow> userdb \<Rightarrow> userdb" where
  "deleted_user uid d =
     (fold (\<lambda>w. w) (delete_user_writes uid) d)\<lparr>users := delete_many (\<lambda>u. u_id u = uid) (users d)\<rparr>"

lemma run_plan_delete_user:
  "run_plan (plan_delete_user uid) d =
     Some (if allow_mutate_sql uid d then deleted_user uid d else d, plan_outcome (plan_delete_user uid) d)"
proof (cases "allow_mutate_sql uid d")
  case True
  let ?oc = "plan_outcome (plan_delete_user uid)"
  let ?d = "fold (\<lambda>w. w) (delete_user_writes uid) d"
  have run: "run_writes (map (guarded ?oc) (map (\<lambda>w d. Some (if allow_mutate_sql uid d then w d else d))
      (delete_user_writes uid))) d = Some ?d" and users: "users ?d = users d"
    using run_delete_writes [where ws = "delete_user_writes uid" and d = d, OF _ True] delete_user_writes_users by auto
  have "run_writes (map (guarded ?oc) [\<lambda>d. Some (if \<not> last_owner_sql uid d
       then d\<lparr>users := delete_many (\<lambda>u. u_id u = uid) (users d)\<rparr> else d)]) ?d = Some (deleted_user uid d)"
    using True users
    by (simp add: guarded_def plan_delete_user_def allow_mutate_sql_def user_guards_cong [OF users] deleted_user_def)
  with run True show ?thesis
    by (simp add: run_plan_def run_writes_append plan_delete_user_def)
next
  case False
  then have "plan_outcome (plan_delete_user uid) d \<noteq> ''ok''"
    by (auto simp: plan_delete_user_def allow_mutate_sql_def)
  with False show ?thesis by (subst run_plan_blocked) (simp_all add: plan_delete_user_def)
qed

lemma fold_delete_identity_rows:
  "fold delete_identity_rows is d =
     d\<lparr>account_links := delete_many (\<lambda>r. \<exists>i \<in> set is. ow_owner r = Some (pi_id i)) (account_links d),
       title_requests := delete_many (\<lambda>r. \<exists>i \<in> set is. ow_owner r = Some (pi_id i)) (title_requests d),
       claim_tickets := delete_many (\<lambda>r. \<exists>i \<in> set is. ct_identity_id r = Some (pi_id i)) (claim_tickets d),
       portal_sessions := delete_many (\<lambda>r. \<exists>i \<in> set is. ps_identity_id r = pi_id i) (portal_sessions d),
       listening_progress := delete_many (\<lambda>r. \<exists>i \<in> set is. ow_owner r = Some (pi_id i)) (listening_progress d),
       user_preferences := delete_many (\<lambda>r. \<exists>i \<in> set is. pf_identity_id r = Some (pi_id i)) (user_preferences d)\<rparr>"
proof (induction "is" arbitrary: d)
  case Nil
  then show ?case by (simp add: delete_many_def)
next
  case (Cons i "is")
  have step: "fold delete_identity_rows (i # is) d = fold delete_identity_rows is (delete_identity_rows i d)" by simp
  show ?case
    unfolding step Cons by (simp add: delete_identity_rows_def delete_many_delete_many disj_commute)
qed

text \<open>The status texts that the code writes.\<close>

definition known_user_status :: "user_row \<Rightarrow> bool" where
  "known_user_status u \<longleftrightarrow> u_status u \<in> {''active'', ''disabled''}"

lemma is_active_owner_map_user: "known_user_status u \<Longrightarrow> is_active_owner (map_user u) \<longleftrightarrow> active_owner u"
  by (auto simp: known_user_status_def is_active_owner_def map_user_def UserRole_parse_def UserStatus_parse_def
      active_owner_def split: if_splits)

definition users_ok :: "userdb \<Rightarrow> bool" where
  "users_ok d \<longleftrightarrow> distinct (map u_id (users d)) \<and> list_all known_user_status (users d)"

lemma last_owner_find:
  assumes "users_ok d" and "find_by u_id uid (users d) = Some u"
  shows "last_owner_sql uid d \<longleftrightarrow> is_active_owner (map_user u) \<and> count_active_owners_on d \<le> 1"
proof -
  have u: "u \<in> set (users d)" "u_id u = uid" using assms(2) by (auto dest: find_by_SomeD)
  then have "known_user_status u" using assms(1) by (auto simp: users_ok_def list_all_iff)
  moreover have "(\<exists>v \<in> set (users d). u_id v = uid \<and> active_owner v) \<longleftrightarrow> active_owner u"
    using u assms(1) by (auto simp: users_ok_def dest: distinct_key_unique)
  ultimately show ?thesis by (simp add: last_owner_sql_def count_active_owners_on_def is_active_owner_map_user)
qed

lemma user_exists_find: "user_exists uid d \<longleftrightarrow> find_by u_id uid (users d) \<noteq> None"
  by (auto simp: user_exists_def find_by_None_iff)

lemma delete_user_on_eq:
  assumes "users_ok d"
  shows "delete_user_on uid d =
    (if \<not> user_exists uid d then Inl (NotFound (''user '' @ int_str uid))
     else if last_owner_sql uid d then Inl LastOwner else Inr (deleted_user uid d))"
proof (cases "find_by u_id uid (users d)")
  case None
  then show ?thesis by (simp add: delete_user_on_def user_exists_find)
next
  case (Some u)
  show ?thesis
    using Some last_owner_find [OF assms Some]
    by (simp add: delete_user_on_def user_exists_find fold_delete_identity_rows deleted_user_def
        delete_user_writes_def drop_elevated_def identity_of_def Bex_def conj_ac)
qed

text \<open>An operation id without a receipt, and no leftover scratch slot of its own.\<close>

definition fresh_op :: "ReceiptCtx \<Rightarrow> ('d, 'p) atomic_db \<Rightarrow> bool" where
  "fresh_op ctx s \<longleftrightarrow> receipt_of s (ctx_operation_id ctx) = None
     \<and> outcome_scratch_key (ctx_operation_id ctx) \<notin> fst ` set (a_slots s)"

lemma run_user_op_fresh:
  assumes "fresh_op ctx s" and "run_plan (plan_inner op (ctx_now ctx)) (a_data s) = Some (d, st)"
  shows "\<exists>s'. run_user_op op ctx s = Some (s', first_reply ctx (payload_kind op) st (plan_result (plan_inner op (ctx_now ctx)) d))
    \<and> a_data s' = d"
  using execute_named_first [where s = s and ctx = ctx and plan = "plan_inner op (ctx_now ctx)" and k = "payload_kind op"] assms
  by (simp add: fresh_op_def run_user_op_def)

lemmas reply_simps = first_reply_def recorded_status_eq known_statuses_def payload_statuses_def
  unit_from_atomic_def user_from_atomic_def atomic_app_err_def decode_payload_def

text \<open>
  The delete batch of a database plugin agrees with the row-by-row transaction: under a fresh
  operation id both leave the same tables and give the same answer, an unknown user and the last
  active owner included.
\<close>

theorem delete_user_agrees:
  assumes "fresh_op ctx s" and "users_ok (a_data s)"
  shows "\<exists>s' res. run_user_op (DeleteUser uid) ctx s = Some (s', res)
    \<and> (case delete_user_on uid (a_data s) of
         Inl err \<Rightarrow> a_data s' = a_data s \<and> unit_from_atomic uid res = Inl err
       | Inr d \<Rightarrow> a_data s' = d \<and> unit_from_atomic uid res = Inr ())"
proof -
  obtain s' where "run_user_op (DeleteUser uid) ctx s = Some (s', first_reply ctx PayloadNone
      (plan_outcome (plan_delete_user uid) (a_data s)) (plan_result (plan_delete_user uid) (a_data s')))"
    and "a_data s' = (if allow_mutate_sql uid (a_data s) then deleted_user uid (a_data s) else a_data s)"
    using run_user_op_fresh [OF assms(1), of "DeleteUser uid"] by (auto simp: run_plan_delete_user)
  then show ?thesis
    by (auto simp: delete_user_on_eq [OF assms(2)] allow_mutate_sql_def plan_delete_user_def reply_simps)
qed

text \<open>Nothing in the tables refers to the user any more; \<open>d0\<close> has the identities the user had.\<close>

definition no_trace :: "int \<Rightarrow> userdb \<Rightarrow> userdb \<Rightarrow> bool" where
  "no_trace uid d0 d \<longleftrightarrow>
     (\<forall>u \<in> set (users d). u_id u \<noteq> uid) \<and> (\<forall>i \<in> set (portal_identities d). pi_user_id i \<noteq> Some uid)
     \<and> (\<forall>r \<in> set (account_links d) \<union> set (title_requests d) \<union> set (listening_progress d). \<not> identity_of uid d0 (ow_owner r))
     \<and> (\<forall>t \<in> set (claim_tickets d). \<not> identity_of uid d0 (ct_identity_id t))
     \<and> (\<forall>p \<in> set (portal_sessions d). \<not> identity_of uid d0 (Some (ps_identity_id p)))
     \<and> (\<forall>p \<in> set (user_preferences d). \<not> identity_of uid d0 (pf_identity_id p) \<and> pf_subject_key p \<noteq> ''user:'' @ int_str uid)
     \<and> (\<forall>r \<in> set (operator_sessions d). op_elevated_from_user_id r \<noteq> Some uid \<and> op_impersonating_user_id r \<noteq> Some uid)
     \<and> (\<forall>r \<in> set (oidc_refresh_tokens d) \<union> set (oidc_auth_codes d) \<union> set (webauthn_credentials d). ow_owner r \<noteq> Some uid)
     \<and> (\<forall>c \<in> set (webauthn_challenges d). wc_user_id c \<noteq> Some uid)
     \<and> (\<forall>c \<in> set (oidc_rp_states d). os_user_id c \<noteq> Some uid)
     \<and> (\<forall>r \<in> set (encrypted_secrets d). \<not> totp_secret uid r)"

lemma no_trace_deleted: "no_trace uid d (deleted_user uid d)"
  by (auto simp: no_trace_def deleted_user_def delete_user_writes_def table_simps identity_of_def totp_secret_def)

text \<open>
  C36: after a successful deletion no row of any table belongs to the user or to one of the identities
  the user had, no session is elevated from or impersonates the user, and no TOTP secret is left.
\<close>

theorem deleted_user_leaves_no_trace:
  assumes "fresh_op ctx s" and "run_user_op (DeleteUser uid) ctx s = Some (s', res)"
    and "unit_from_atomic uid res = Inr ()"
  shows "no_trace uid (a_data s) (a_data s')"
proof -
  let ?st = "plan_outcome (plan_delete_user uid) (a_data s)"
  obtain p where res: "res = first_reply ctx PayloadNone ?st p"
    and s': "a_data s' = (if allow_mutate_sql uid (a_data s) then deleted_user uid (a_data s) else a_data s)"
    using run_user_op_fresh [OF assms(1), of "DeleteUser uid"] assms(2) by (auto simp: run_plan_delete_user)
  from assms(3) res have "allow_mutate_sql uid (a_data s)"
    by (auto simp: plan_delete_user_def allow_mutate_sql_def reply_simps split: if_splits)
  with s' show ?thesis by (simp add: no_trace_deleted)
qed

section \<open>Status, role and password\<close>

lemma update_user_keeps [simp]:
  "operator_sessions (update_user uid f d) = operator_sessions d"
  "(\<And>u. u_id (f u) = u_id u) \<Longrightarrow> user_exists uid (update_user uid f d) = user_exists uid d"
  by (auto simp: update_user_def user_exists_def table_simps)

lemma update_user_model:
  assumes "distinct (map u_id (users d))" and "find_by u_id uid (users d) = Some m"
  shows "update_user uid (\<lambda>_. f m) d = update_user uid f d"
proof -
  have m: "m \<in> set (users d)" "u_id m = uid" using assms(2) by (auto dest: find_by_SomeD)
  then have "\<And>u. u \<in> set (users d) \<Longrightarrow> u_id u = uid \<Longrightarrow> u = m"
    using assms(1) by (auto dest: distinct_key_unique)
  then show ?thesis by (auto simp: update_user_def update_many_def intro!: userdb.fold_congs map_cong)
qed

lemma find_update_user:
  assumes "\<And>u. u_id (f u) = u_id u"
  shows "find_by u_id uid (users (update_user uid f d)) = map_option f (find_by u_id uid (users d))"
proof -
  have "(\<lambda>u. if u_id u = uid then f u else u) m = f m" if "find_by u_id uid (users d) = Some m" for m
    using that by (auto dest: find_by_SomeD)
  then show ?thesis by (cases "find_by u_id uid (users d)") (simp_all add: update_user_def find_by_update_many assms)
qed

definition status_row :: "UserStatus \<Rightarrow> timestamp \<Rightarrow> user_row \<Rightarrow> user_row" where
  "status_row status now u = u\<lparr>u_status := UserStatus_as_str status, u_updated_at := now\<rparr>"

definition role_row :: "UserRole \<Rightarrow> timestamp \<Rightarrow> user_row \<Rightarrow> user_row" where
  "role_row role now u = u\<lparr>u_role := UserRole_as_str role, u_updated_at := now\<rparr>"

definition password_row :: "string option \<Rightarrow> timestamp \<Rightarrow> user_row \<Rightarrow> user_row" where
  "password_row h now u =
     u\<lparr>u_password_hash := h, u_security_version := u_security_version u + 1, u_updated_at := now\<rparr>"

lemmas row_defs = status_row_def role_row_def password_row_def

lemma row_folds:
  "(\<lambda>u. u\<lparr>u_status := UserStatus_as_str status, u_updated_at := now\<rparr>) = status_row status now"
  "(\<lambda>u. u\<lparr>u_role := UserRole_as_str role, u_updated_at := now\<rparr>) = role_row role now"
  "(\<lambda>u. u\<lparr>u_password_hash := h, u_security_version := u_security_version u + 1, u_updated_at := now\<rparr>) = password_row h now"
  by (simp_all add: fun_eq_iff row_defs)

lemma rows_keep_id [simp]:
  "u_id (status_row st now u) = u_id u" "u_id (role_row r now u) = u_id u" "u_id (password_row h now u) = u_id u"
  by (simp_all add: row_defs)

lemma UserStatus_as_str_disabled [simp]: "UserStatus_as_str status = ''disabled'' \<longleftrightarrow> status = Disabled"
  by (cases status) simp_all

lemma UserRole_as_str_owner [simp]: "UserRole_as_str role = ''owner'' \<longleftrightarrow> role = Owner"
  by (cases role) simp_all

text \<open>What a successful batch leaves.\<close>

definition status_result :: "int \<Rightarrow> UserStatus \<Rightarrow> timestamp \<Rightarrow> userdb \<Rightarrow> userdb" where
  "status_result uid status now d =
     (if status = Disabled then drop_elevated uid (update_user uid (status_row status now) d)
      else update_user uid (status_row status now) d)"

definition role_result :: "int \<Rightarrow> UserRole \<Rightarrow> timestamp \<Rightarrow> userdb \<Rightarrow> userdb" where
  "role_result uid role now d =
     (if \<exists>u \<in> set (users d). u_id u = uid \<and> u_role u \<noteq> UserRole_as_str role
      then update_user uid (role_row role now) (drop_elevated uid d) else update_user uid (role_row role now) d)"

lemma run_plan_set_user_status:
  "run_plan (plan_set_user_status uid (UserStatus_as_str status) now) d =
     (let st = plan_outcome (plan_set_user_status uid (UserStatus_as_str status) now) d
      in Some (if st = ''ok'' then status_result uid status now d else d, st))"
proof (cases "plan_outcome (plan_set_user_status uid (UserStatus_as_str status) now) d = ''ok''")
  case True
  let ?d1 = "update_user uid (status_row status now) d"
  have ok: "user_exists uid d" "\<not> last_owner_disable uid (UserStatus_as_str status) d"
    using True by (auto simp: plan_set_user_status_def split: if_splits)
  have "\<not> last_owner_disable uid (UserStatus_as_str status) ?d1"
  proof (cases status)
    case Disabled
    have "\<not> active_owner v" if v: "v \<in> set (users ?d1)" "u_id v = uid" for v
    proof -
      from v(1) have "v \<in> (\<lambda>r. if u_id r = uid then status_row status now r else r) ` set (users d)"
        by (simp add: update_user_def update_many_def)
      then obtain r where "v = (if u_id r = uid then status_row status now r else r)" by (rule imageE)
      with v(2) Disabled show ?thesis by (simp add: active_owner_def status_row_def split: if_splits)
    qed
    then show ?thesis by (auto simp: last_owner_disable_def last_owner_sql_def)
  qed (simp add: last_owner_disable_def)
  moreover obtain u where "u \<in> set (users d)" "u_id u = uid" using ok(1) by (auto simp: user_exists_def)
  then have "status_row status now u \<in> set (users ?d1)" by (auto simp: update_user_def table_simps)
  then have "\<exists>v \<in> set (users ?d1). u_id v = uid \<and> u_status v = UserStatus_as_str status"
    using \<open>u_id u = uid\<close> by (intro bexI) (simp_all add: status_row_def)
  ultimately show ?thesis
    using ok True
    by (simp add: run_plan_def plan_set_user_status_def guarded_def status_result_def Let_def row_folds) auto
next
  case False
  then show ?thesis by (subst run_plan_blocked) (simp_all add: plan_set_user_status_def Let_def)
qed

lemma run_plan_set_user_role:
  "run_plan (plan_set_user_role uid (UserRole_as_str role) now) d =
     (let st = plan_outcome (plan_set_user_role uid (UserRole_as_str role) now) d
      in Some (if st = ''ok'' then role_result uid role now d else d, st))"
proof (cases "plan_outcome (plan_set_user_role uid (UserRole_as_str role) now) d = ''ok''")
  case True
  have ok: "user_exists uid d" "\<not> last_owner_demote uid (UserRole_as_str role) d"
    using True by (auto simp: plan_set_user_role_def split: if_splits)
  then have "user_exists uid (drop_elevated uid d)" "\<not> last_owner_demote uid (UserRole_as_str role) (drop_elevated uid d)"
    by (simp_all add: user_exists_def last_owner_demote_def last_owner_sql_def)
  with ok True show ?thesis
    by (auto simp: run_plan_def plan_set_user_role_def guarded_def role_result_def Let_def row_folds)
next
  case False
  then show ?thesis by (subst run_plan_blocked) (simp_all add: plan_set_user_role_def Let_def)
qed

lemma run_plan_set_user_password_hash:
  "run_plan (plan_set_user_password_hash uid h now) d =
     Some (if user_exists uid d then drop_elevated uid (update_user uid (password_row h now) d) else d,
           if user_exists uid d then ''ok'' else ''notFound'')"
  by (simp add: run_plan_def plan_set_user_password_hash_def guarded_def row_folds)

text \<open>The rows the code writes: known role and status texts, no empty password hash, no version overflow.\<close>

definition user_rows_ok :: "userdb \<Rightarrow> bool" where
  "user_rows_ok d \<longleftrightarrow> users_ok d
     \<and> list_all (\<lambda>u. UserRole_parse (u_role u) \<noteq> None \<and> u_password_hash u \<noteq> Some []
          \<and> u_security_version u < int I64_MAX) (users d)"

lemma decode_user_eq:
  assumes "UserRole_parse (u_role m) \<noteq> None" and "known_user_status m" and "u_password_hash m \<noteq> Some []"
  shows "decode_user m = Inr ((map_user m)\<lparr>ur_totp_enabled := False\<rparr>)"
  using assms by (auto simp: decode_user_def map_user_def known_user_status_def UserStatus_parse_def)

text \<open>A batch result against the row-by-row result, up to the TOTP flag that the batch reply lacks.\<close>

definition update_agrees ::
  "user_op \<Rightarrow> int \<Rightarrow> ReceiptCtx \<Rightarrow> user_system \<Rightarrow> atomic_error + userdb \<times> UserRecord \<Rightarrow> bool" where
  "update_agrees op uid ctx s expected \<longleftrightarrow>
     (case run_user_op op ctx s of
        None \<Rightarrow> False
      | Some (s', res) \<Rightarrow>
          (case expected of
             Inl err \<Rightarrow> a_data s' = a_data s \<and> user_from_atomic uid res = Inl err
           | Inr (d, u) \<Rightarrow> a_data s' = d \<and> user_from_atomic uid res = Inr (u\<lparr>ur_totp_enabled := False\<rparr>)))"

lemma update_agrees_ok:
  assumes "fresh_op ctx s" and run: "run_plan (plan_inner op (ctx_now ctx)) (a_data s) = Some (d, ''ok'')"
    and kind: "payload_kind op = PayloadUser" and sel: "plan_payload (plan_inner op (ctx_now ctx)) = Some (user_payload_json_sql uid)"
    and find: "find_by u_id uid (users d) = Some m"
    and m: "UserRole_parse (u_role m) \<noteq> None" "known_user_status m" "u_password_hash m \<noteq> Some []"
  shows "update_agrees op uid ctx s (Inr (d, map_user m))"
  using run_user_op_fresh [OF assms(1) run] kind sel find decode_user_eq [OF m]
  by (auto simp: update_agrees_def plan_result_def user_payload_json_sql_def reply_simps)

lemma update_agrees_err:
  assumes "fresh_op ctx s" and "run_plan (plan_inner op (ctx_now ctx)) (a_data s) = Some (a_data s, st)"
    and "st \<in> set known_statuses" and "atomic_app_err st (NotFound (''user '' @ int_str uid)) = Some err"
  shows "update_agrees op uid ctx s (Inl err)"
  using run_user_op_fresh [OF assms(1,2)] assms(3,4)
  by (auto simp: update_agrees_def user_from_atomic_def first_reply_def recorded_status_eq)

lemma user_rows_okD:
  assumes "user_rows_ok d" and "find_by u_id uid (users d) = Some m"
  shows "distinct (map u_id (users d))" "users_ok d" "UserRole_parse (u_role m) \<noteq> None" "known_user_status m"
    "u_password_hash m \<noteq> Some []" "u_security_version m < int I64_MAX"
  using assms by (auto simp: user_rows_ok_def users_ok_def list_all_iff dest!: find_by_SomeD)

lemma parse_as_str [simp]:
  "UserRole_parse (UserRole_as_str role) = Some role" "UserStatus_parse (UserStatus_as_str status) = Some status"
  by (cases role; simp add: UserRole_parse_def) (cases status; simp add: UserStatus_parse_def)

lemma known_status_row [simp]: "known_user_status (status_row status now m)"
  by (cases status) (simp_all add: known_user_status_def status_row_def)

lemma role_changed_iff:
  assumes "UserRole_parse (u_role m) \<noteq> None"
  shows "ur_role (map_user m) \<noteq> role \<longleftrightarrow> u_role m \<noteq> UserRole_as_str role"
  using assms by (cases role) (auto simp: map_user_def UserRole_parse_def split: if_splits)

lemma status_update_agrees:
  assumes fresh: "fresh_op ctx s" and ok: "user_rows_ok (a_data s)"
  shows "update_agrees (SetUserStatus uid status) uid ctx s (set_user_status_on uid status (ctx_now ctx) (a_data s))"
proof (cases "find_by u_id uid (users (a_data s))")
  case None
  then have "run_plan (plan_inner (SetUserStatus uid status) (ctx_now ctx)) (a_data s) = Some (a_data s, ''notFound'')"
    by (simp add: run_plan_set_user_status Let_def) (simp add: plan_set_user_status_def user_exists_find)
  from update_agrees_err [OF fresh this] None show ?thesis
    by (simp add: set_user_status_on_def known_statuses_def atomic_app_err_def)
next
  case (Some m)
  note d = user_rows_okD [OF ok Some]
  let ?p = "plan_set_user_status uid (UserStatus_as_str status) (ctx_now ctx)"
  have last: "last_owner_disable uid (UserStatus_as_str status) (a_data s) \<longleftrightarrow>
      status = Disabled \<and> is_active_owner (map_user m) \<and> count_active_owners_on (a_data s) \<le> 1"
    using last_owner_find [OF d(2) Some] by (simp add: last_owner_disable_def)
  have run: "run_plan (plan_inner (SetUserStatus uid status) (ctx_now ctx)) (a_data s) =
      Some (if last_owner_disable uid (UserStatus_as_str status) (a_data s) then (a_data s, ''lastOwner'')
            else (status_result uid status (ctx_now ctx) (a_data s), ''ok''))"
    using Some by (simp add: run_plan_set_user_status Let_def) (simp add: plan_set_user_status_def user_exists_find)
  show ?thesis
  proof (cases "last_owner_disable uid (UserStatus_as_str status) (a_data s)")
    case True
    with run update_agrees_err [OF fresh, of _ "''lastOwner''" uid LastOwner] last Some show ?thesis
      by (simp add: set_user_status_on_def known_statuses_def atomic_app_err_def)
  next
    case False
    have "find_by u_id uid (users (status_result uid status (ctx_now ctx) (a_data s))) = Some (status_row status (ctx_now ctx) m)"
      using Some by (simp add: status_result_def find_update_user)
    from update_agrees_ok [OF fresh _ _ _ this] run False d(3,5)
    have "update_agrees (SetUserStatus uid status) uid ctx s
        (Inr (status_result uid status (ctx_now ctx) (a_data s), map_user (status_row status (ctx_now ctx) m)))"
      by (simp add: plan_set_user_status_def status_row_def known_status_row [unfolded status_row_def])
    with False last Some update_user_model [OF d(1) Some, of "status_row status (ctx_now ctx)"] show ?thesis
      unfolding set_user_status_on_def status_result_def Let_def status_row_def [symmetric] by auto
  qed
qed

lemma role_update_agrees:
  assumes fresh: "fresh_op ctx s" and ok: "user_rows_ok (a_data s)"
  shows "update_agrees (SetUserRole uid role) uid ctx s (set_user_role_on uid role (ctx_now ctx) (a_data s))"
proof (cases "find_by u_id uid (users (a_data s))")
  case None
  then have "run_plan (plan_inner (SetUserRole uid role) (ctx_now ctx)) (a_data s) = Some (a_data s, ''notFound'')"
    by (simp add: run_plan_set_user_role Let_def) (simp add: plan_set_user_role_def user_exists_find)
  from update_agrees_err [OF fresh this] None show ?thesis
    by (simp add: set_user_role_on_def known_statuses_def atomic_app_err_def)
next
  case (Some m)
  note d = user_rows_okD [OF ok Some]
  let ?row = "role_row role (ctx_now ctx)"
  have last: "last_owner_demote uid (UserRole_as_str role) (a_data s) \<longleftrightarrow>
      role \<noteq> Owner \<and> is_active_owner (map_user m) \<and> count_active_owners_on (a_data s) \<le> 1"
    using last_owner_find [OF d(2) Some] by (simp add: last_owner_demote_def)
  have run: "run_plan (plan_inner (SetUserRole uid role) (ctx_now ctx)) (a_data s) =
      Some (if last_owner_demote uid (UserRole_as_str role) (a_data s) then (a_data s, ''lastOwner'')
            else (role_result uid role (ctx_now ctx) (a_data s), ''ok''))"
    using Some by (simp add: run_plan_set_user_role Let_def) (simp add: plan_set_user_role_def user_exists_find)
  have m: "m \<in> set (users (a_data s))" "u_id m = uid" using Some by (auto dest: find_by_SomeD)
  have "(\<exists>u \<in> set (users (a_data s)). u_id u = uid \<and> u_role u \<noteq> UserRole_as_str role)
      \<longleftrightarrow> ur_role (map_user m) \<noteq> role"
    unfolding role_changed_iff [OF d(3)] using m d(1) by (auto dest: distinct_key_unique)
  then have result: "role_result uid role (ctx_now ctx) (a_data s) =
      (if ur_role (map_user m) \<noteq> role then drop_elevated uid (update_user uid ?row (a_data s))
       else update_user uid ?row (a_data s))"
    by (simp add: role_result_def update_user_def drop_elevated_def)
  show ?thesis
  proof (cases "last_owner_demote uid (UserRole_as_str role) (a_data s)")
    case True
    with run update_agrees_err [OF fresh, of _ "''lastOwner''" uid LastOwner] last Some show ?thesis
      by (simp add: set_user_role_on_def known_statuses_def atomic_app_err_def)
  next
    case False
    have "find_by u_id uid (users (role_result uid role (ctx_now ctx) (a_data s))) = Some (?row m)"
      using Some by (simp add: result find_update_user)
    from update_agrees_ok [OF fresh _ _ _ this] run False d(4,5)
    have "update_agrees (SetUserRole uid role) uid ctx s
        (Inr (role_result uid role (ctx_now ctx) (a_data s), map_user (?row m)))"
      by (simp add: plan_set_user_role_def role_row_def known_user_status_def)
    with False last Some update_user_model [OF d(1) Some, of ?row] show ?thesis
      by (auto simp add: set_user_role_on_def result Let_def simp flip: role_row_def)
  qed
qed

lemma password_update_agrees:
  assumes fresh: "fresh_op ctx s" and ok: "user_rows_ok (a_data s)" and h: "h \<noteq> Some []"
  shows "update_agrees (SetUserPasswordHash uid h) uid ctx s (set_user_password_hash_on uid h (ctx_now ctx) (a_data s))"
proof (cases "find_by u_id uid (users (a_data s))")
  case None
  then have "run_plan (plan_inner (SetUserPasswordHash uid h) (ctx_now ctx)) (a_data s) = Some (a_data s, ''notFound'')"
    by (simp add: run_plan_set_user_password_hash user_exists_find)
  from update_agrees_err [OF fresh this] None show ?thesis
    by (simp add: set_user_password_hash_on_def known_statuses_def atomic_app_err_def)
next
  case (Some m)
  note d = user_rows_okD [OF ok Some]
  let ?row = "password_row h (ctx_now ctx)" and ?op = "SetUserPasswordHash uid h"
  let ?d = "drop_elevated uid (update_user uid ?row (a_data s))"
  have "run_plan (plan_inner ?op (ctx_now ctx)) (a_data s) = Some (?d, ''ok'')"
    using Some by (simp add: run_plan_set_user_password_hash user_exists_find)
  moreover have "find_by u_id uid (users ?d) = Some (?row m)" using Some by (simp add: find_update_user)
  ultimately have "update_agrees ?op uid ctx s (Inr (?d, map_user (?row m)))"
    using update_agrees_ok [OF fresh, of ?op] d(3,4) h
    by (simp add: plan_set_user_password_hash_def password_row_def known_user_status_def)
  moreover have "min (u_security_version m + 1) (int I64_MAX) = u_security_version m + 1" using d(6) by simp
  ultimately show ?thesis
    using Some update_user_model [OF d(1) Some, of ?row]
    by (simp add: set_user_password_hash_on_def Let_def flip: password_row_def)
qed

text \<open>
  The status, role and password batches agree with the row-by-row transactions under a fresh
  operation id: same tables, same error for an unknown user and for the last active owner, same user
  in the answer except that the batch always reports TOTP as disabled.
\<close>

theorem user_updates_agree:
  assumes "fresh_op ctx s" and "user_rows_ok (a_data s)" and "h \<noteq> Some []"
  shows "update_agrees (SetUserStatus uid status) uid ctx s (set_user_status_on uid status (ctx_now ctx) (a_data s))
    \<and> update_agrees (SetUserRole uid role) uid ctx s (set_user_role_on uid role (ctx_now ctx) (a_data s))
    \<and> update_agrees (SetUserPasswordHash uid h) uid ctx s (set_user_password_hash_on uid h (ctx_now ctx) (a_data s))"
  using assms by (simp add: status_update_agrees role_update_agrees password_update_agrees)

section \<open>Elevated sessions\<close>

text \<open>The operations that change what a user may do, and the user they concern.\<close>

fun security_change :: "user_op \<Rightarrow> userdb \<Rightarrow> int option" where
  "security_change (DeleteUser uid) d = Some uid"
| "security_change (SetUserStatus uid status) d = (if status = Disabled then Some uid else None)"
| "security_change (SetUserPasswordHash uid h) d = Some uid"
| "security_change (SetUserRole uid role) d =
     (if \<exists>u \<in> set (users d). u_id u = uid \<and> u_role u \<noteq> UserRole_as_str role then Some uid else None)"
| "security_change _ d = None"

definition not_elevated :: "int \<Rightarrow> userdb \<Rightarrow> bool" where
  "not_elevated uid d \<longleftrightarrow> (\<forall>r \<in> set (operator_sessions d). op_elevated_from_user_id r \<noteq> Some uid)"

lemma not_elevated_drop [simp]: "not_elevated uid (drop_elevated uid d)"
  by (simp add: not_elevated_def drop_elevated_def table_simps)

lemma not_elevated_update_user [simp]: "not_elevated uid (update_user v f d) = not_elevated uid d"
  by (simp add: not_elevated_def)

lemma run_plan_security_change:
  assumes "run_plan (plan_inner op now) d = Some (d', ''ok'')" and "security_change op d = Some uid"
  shows "not_elevated uid d'"
proof (cases op)
  case (DeleteUser v)
  with assms have "d' = deleted_user uid d"
    by (auto simp: run_plan_delete_user) (auto simp: plan_delete_user_def allow_mutate_sql_def split: if_splits)
  then show ?thesis using no_trace_deleted [of uid d] by (auto simp: no_trace_def not_elevated_def)
next
  case (SetUserStatus v status)
  with assms show ?thesis by (auto simp: run_plan_set_user_status Let_def status_result_def split: if_splits)
next
  case (SetUserPasswordHash v h)
  with assms show ?thesis by (auto simp: run_plan_set_user_password_hash split: if_splits)
next
  case (SetUserRole v role)
  with assms show ?thesis by (auto simp: run_plan_set_user_role Let_def role_result_def split: if_splits)
qed (use assms in simp_all)

text \<open>
  C37: whenever a user is deleted, disabled, given another role or another password, every operator
  session that was elevated from that user is gone once the operation has answered \<open>ok\<close>.
\<close>

theorem security_change_revokes_elevation:
  assumes "fresh_op ctx s" and "run_user_op op ctx s = Some (s', res)" and "res_status res = ''ok''"
    and "security_change op (a_data s) = Some uid"
  shows "\<forall>r \<in> set (operator_sessions (a_data s')). op_elevated_from_user_id r \<noteq> Some uid"
proof -
  let ?run = "run_plan (plan_inner op (ctx_now ctx)) (a_data s)"
  from assms(1,2) obtain d st where run: "?run = Some (d, st)"
    using execute_named_first [where s = s and ctx = ctx and plan = "plan_inner op (ctx_now ctx)" and k = "payload_kind op"]
    by (cases ?run) (auto simp: fresh_op_def run_user_op_def)
  with run_user_op_fresh [OF assms(1) run] assms(2) have s': "a_data s' = d"
    and "res_status res = recorded_status st" by (auto simp: first_reply_def)
  with assms(3) have "st = ''ok''" by (auto simp: recorded_status_eq split: if_splits)
  with run_plan_security_change [OF _ assms(4)] run s' show ?thesis by (auto simp: not_elevated_def)
qed

section \<open>Concrete users\<close>

definition demo_user :: "int \<Rightarrow> string \<Rightarrow> string \<Rightarrow> user_row" where
  "demo_user uid role status =
     \<lparr>u_id = uid, u_role = role, u_status = status, u_display_name = None, u_login_name = Some ''ann'',
      u_email = None, u_password_hash = Some ''h'', u_security_version = 1, u_created_at = 0,
      u_updated_at = 0, u_last_seen_at = None, u_avatar_source = None, u_totp_enabled = 1\<rparr>"

definition demo_session :: "int \<Rightarrow> operator_session_row" where
  "demo_session uid =
     \<lparr>op_id = 1, op_token_hash = ''t'', op_expires_at = 99, op_created_at = 0, op_last_used_at = None,
      op_elevated_from_user_id = Some uid, op_impersonating_user_id = None, op_user_agent = None,
      op_device_type = None, op_client_label = None\<rparr>"

text \<open>Two active owners and a member; owner 2 has an elevated session and an identity with a link.\<close>

definition demo_users :: userdb where
  "demo_users =
     \<lparr>users = [demo_user 1 ''owner'' ''active'', demo_user 2 ''owner'' ''active'', demo_user 3 ''member'' ''active''],
      portal_identities = [\<lparr>pi_id = 5, pi_provider = ''local'', pi_external_user_id = ''ann'', pi_label = None,
        pi_user_id = Some 2, pi_created_at = 0, pi_picture_url = None\<rparr>],
      account_links = [\<lparr>ow_id = 1, ow_owner = Some 5\<rparr>], title_requests = [], claim_tickets = [],
      portal_sessions = [], listening_progress = [], user_preferences = [],
      operator_sessions = [demo_session 2], oidc_refresh_tokens = [], oidc_auth_codes = [],
      webauthn_credentials = [], webauthn_challenges = [], encrypted_secrets = [], oidc_rp_states = [],
      portal_session_seq = 0\<rparr>"

definition demo_user_system :: user_system where
  "demo_user_system = \<lparr>a_data = demo_users, a_receipts = [], a_slots = []\<rparr>"

lemma demo_fresh [simp]: "fresh_op ctx demo_user_system"
  by (simp add: fresh_op_def demo_user_system_def find_by_def)

lemma demo_data [simp]: "a_data demo_user_system = demo_users"
  by (simp add: demo_user_system_def)

lemma demo_rows_ok [simp]: "user_rows_ok demo_users" "users_ok demo_users"
  by (simp_all add: user_rows_ok_def users_ok_def demo_users_def demo_user_def known_user_status_def
      UserRole_parse_def I64_MAX_def)

lemma demo_guards [simp]:
  "user_exists 2 demo_users" "\<not> last_owner_sql 2 demo_users" "allow_mutate_sql 2 demo_users"
  by (simp_all add: user_exists_def last_owner_sql_def allow_mutate_sql_def demo_users_def demo_user_def
      active_owner_def rows_affected_def)

text \<open>Owner 2 is deleted.\<close>

lemma demo_delete:
  "\<exists>s' res. run_user_op (DeleteUser 2) (demo_ctx ''op'' 7) demo_user_system = Some (s', res)
    \<and> a_data s' = deleted_user 2 demo_users \<and> res_status res = ''ok'' \<and> unit_from_atomic 2 res = Inr ()"
proof -
  have "run_plan (plan_inner (DeleteUser 2) (ctx_now (demo_ctx ''op'' 7))) (a_data demo_user_system)
      = Some (deleted_user 2 demo_users, ''ok'')"
    by (simp add: run_plan_delete_user) (simp add: plan_delete_user_def)
  from run_user_op_fresh [OF demo_fresh this] obtain s' where
    "run_user_op (DeleteUser 2) (demo_ctx ''op'' 7) demo_user_system = Some (s', first_reply (demo_ctx ''op'' 7) PayloadNone ''ok'' None)"
    "a_data s' = deleted_user 2 demo_users" by (auto simp: plan_result_def plan_delete_user_def)
  then show ?thesis by (intro exI conjI) (assumption | simp add: reply_simps)+
qed

theorem last_owner_survives_witness:
  "\<exists>t. user_step demo_user_system t \<and> length (users (a_data t)) = 2
     \<and> (\<exists>u \<in> set (users (a_data t)). u_role u = ''owner'' \<and> u_status u = ''active'')"
proof -
  obtain t res where run: "run_user_op (DeleteUser 2) (demo_ctx ''op'' 7) demo_user_system = Some (t, res)"
    and t: "a_data t = deleted_user 2 demo_users" using demo_delete by blast
  have step: "user_step demo_user_system t" using run by (rule step_user_op)
  have "owner_ok demo_users" by (simp add: owner_ok_def demo_users_def demo_user_def active_owner_def)
  with last_owner_survives [of demo_user_system t, OF r_into_rtranclp [of user_step, OF step]]
  have "\<exists>u \<in> set (users (a_data t)). u_role u = ''owner'' \<and> u_status u = ''active''" by simp
  moreover have "length (users (a_data t)) = 2"
    by (simp add: t deleted_user_def demo_users_def demo_user_def delete_many_def)
  ultimately show ?thesis using step by blast
qed

theorem delete_user_agrees_witness:
  "\<exists>s' res. run_user_op (DeleteUser 2) (demo_ctx ''op'' 7) demo_user_system = Some (s', res)
    \<and> (case delete_user_on 2 demo_users of
         Inl err \<Rightarrow> a_data s' = demo_users \<and> unit_from_atomic 2 res = Inl err
       | Inr d \<Rightarrow> a_data s' = d \<and> unit_from_atomic 2 res = Inr ())"
  using delete_user_agrees [of "demo_ctx ''op'' 7" demo_user_system 2] unfolding demo_data by simp

theorem deleted_user_leaves_no_trace_witness:
  "\<exists>s' res. run_user_op (DeleteUser 2) (demo_ctx ''op'' 7) demo_user_system = Some (s', res)
    \<and> no_trace 2 demo_users (a_data s') \<and> account_links (a_data s') = []"
proof -
  obtain s' res where "run_user_op (DeleteUser 2) (demo_ctx ''op'' 7) demo_user_system = Some (s', res)"
    and "unit_from_atomic 2 res = Inr ()" using demo_delete by blast
  with deleted_user_leaves_no_trace [of "demo_ctx ''op'' 7" demo_user_system 2 s' res]
  have "no_trace 2 demo_users (a_data s')" by simp
  moreover have "a_data s' = deleted_user 2 demo_users"
    using demo_delete \<open>run_user_op _ _ _ = _\<close> by auto
  then have "account_links (a_data s') = []"
    by (simp add: deleted_user_def delete_user_writes_def demo_users_def identity_of_def delete_many_def)
  ultimately show ?thesis using \<open>run_user_op _ _ _ = _\<close> by blast
qed

theorem user_updates_agree_witness:
  "update_agrees (SetUserStatus 2 Disabled) 2 (demo_ctx ''op'' 7) demo_user_system
      (set_user_status_on 2 Disabled 7 demo_users)
    \<and> update_agrees (SetUserRole 2 Member) 2 (demo_ctx ''op'' 7) demo_user_system (set_user_role_on 2 Member 7 demo_users)
    \<and> update_agrees (SetUserPasswordHash 2 (Some ''x'')) 2 (demo_ctx ''op'' 7) demo_user_system
      (set_user_password_hash_on 2 (Some ''x'') 7 demo_users)"
  using user_updates_agree [of "demo_ctx ''op'' 7" demo_user_system "Some ''x''" 2 Disabled Member]
  by (simp add: demo_ctx_def)

theorem security_change_revokes_elevation_witness:
  "\<exists>s' res. run_user_op (DeleteUser 2) (demo_ctx ''op'' 7) demo_user_system = Some (s', res)
    \<and> Some 2 \<in> op_elevated_from_user_id ` set (operator_sessions demo_users)
    \<and> Some 2 \<notin> op_elevated_from_user_id ` set (operator_sessions (a_data s'))"
proof -
  obtain s' res where run: "run_user_op (DeleteUser 2) (demo_ctx ''op'' 7) demo_user_system = Some (s', res)"
    and ok: "res_status res = ''ok''" using demo_delete by blast
  from security_change_revokes_elevation [OF demo_fresh run ok]
  have "\<forall>r \<in> set (operator_sessions (a_data s')). op_elevated_from_user_id r \<noteq> Some 2" by simp
  then have "Some 2 \<notin> op_elevated_from_user_id ` set (operator_sessions (a_data s'))" by force
  with run show ?thesis by (auto simp: demo_users_def demo_session_def)
qed

end
