(* ===== verification/Claim_Tickets.thy ===== *)
theory Claim_Tickets
  imports User_Safety
begin

text \<open>
  Redeeming claim tickets (\<open>plan_redeem_claim\<close>): the outcome of every redemption under a fresh
  operation id, and that a redeemed ticket opens no second session.
\<close>

section \<open>What a redemption leaves\<close>

text \<open>A batch without just-redeemed tickets changes nothing after the marking.\<close>

lemma redeem_insert_none:
  "(\<And>t. t \<in> set ts \<Longrightarrow> \<not> just_redeemed rq now t) \<Longrightarrow> redeem_insert_sessions rq now ts d = Some d"
  by (induction ts) (auto split: option.split)

lemma claimed_user_none:
  "(\<And>t. t \<in> set (claim_tickets d) \<Longrightarrow> \<not> just_redeemed rq now t) \<Longrightarrow> \<not> claimed_user rq now d uid"
  by (auto simp: claimed_user_def)

definition redeem_writes :: "redeem_request \<Rightarrow> timestamp \<Rightarrow> userdb \<Rightarrow> userdb option" where
  "redeem_writes rq now d =
     (let d3 = redeem_set_password rq now (redeem_drop_elevated rq now (redeem_mark rq now d))
      in redeem_insert_sessions rq now (claim_tickets d3) d3)"

lemma run_plan_redeem:
  "run_plan (plan_redeem_claim rq now) d =
     map_option (\<lambda>d'. (d', redeem_outcome rq now d')) (redeem_writes rq now d)"
  by (simp add: run_plan_def plan_redeem_claim_def redeem_writes_def Let_def split: option.split)

lemma redeem_writes_none:
  assumes "\<And>t. t \<in> set (claim_tickets d) \<Longrightarrow> \<not> redeemable rq now d t \<and> \<not> just_redeemed rq now t"
  shows "redeem_writes rq now d = Some d"
proof -
  have "redeem_mark rq now d = d" using assms by (simp add: redeem_mark_def update_many_id)
  moreover have "\<not> claimed_user rq now d uid" for uid using assms by (intro claimed_user_none) blast
  ultimately show ?thesis using assms
    by (simp add: redeem_writes_def redeem_drop_elevated_def redeem_set_password_def update_many_def
        delete_many_def redeem_insert_none)
qed

lemma redeem_insert_one:
  assumes "\<And>u. u \<in> set ts \<Longrightarrow> just_redeemed rq now u \<longleftrightarrow> u = t" and "distinct ts" and "t \<in> set ts"
    and "ct_identity_id t = Some i" and "\<forall>p \<in> set (portal_sessions d). ps_token_hash p \<noteq> rq_session_hash rq"
  shows "redeem_insert_sessions rq now ts d =
    Some (d\<lparr>portal_sessions := portal_sessions d @ [new_portal_session rq now (portal_session_seq d + 1) i],
            portal_session_seq := portal_session_seq d + 1\<rparr>)"
  using assms
proof (induction ts)
  case (Cons u ts)
  show ?case
  proof (cases "u = t")
    case True
    with Cons.prems have "\<And>v. v \<in> set ts \<Longrightarrow> \<not> just_redeemed rq now v" by auto
    with True Cons.prems show ?thesis by (simp add: redeem_insert_none)
  next
    case False
    with Cons show ?thesis by (simp split: option.split)
  qed
qed simp

text \<open>The ticket of a request, and the identity it was issued for.\<close>

definition ticket_of :: "redeem_request \<Rightarrow> userdb \<Rightarrow> ticket_row option" where
  "ticket_of rq d = find_by ct_token_hash (rq_token_hash rq) (claim_tickets d)"

definition mark_ticket :: "timestamp \<Rightarrow> ticket_row \<Rightarrow> ticket_row" where
  "mark_ticket now t = t\<lparr>ct_redeemed_at := Some now\<rparr>"

text \<open>Keys are unique; the session token is new; no ticket of this token was redeemed at this instant.\<close>

definition redeem_ready :: "redeem_request \<Rightarrow> timestamp \<Rightarrow> userdb \<Rightarrow> bool" where
  "redeem_ready rq now d \<longleftrightarrow>
     distinct (map ct_token_hash (claim_tickets d)) \<and> distinct (map pi_id (portal_identities d))
     \<and> (\<forall>p \<in> set (portal_sessions d). ps_token_hash p \<noteq> rq_session_hash rq)
     \<and> (\<forall>t \<in> set (claim_tickets d). \<not> just_redeemed rq now t)"

text \<open>A local user without a password gets the one of the request.\<close>

definition claims_password :: "redeem_request \<Rightarrow> identity_row \<Rightarrow> user_row \<Rightarrow> bool" where
  "claims_password rq i u \<longleftrightarrow> rq_new_password_hash rq \<noteq> None \<and> u_password_hash u = None
     \<and> pi_provider i = ''local'' \<and> pi_user_id i = Some (u_id u)"

definition redeem_result :: "redeem_request \<Rightarrow> timestamp \<Rightarrow> identity_row \<Rightarrow> userdb \<Rightarrow> userdb" where
  "redeem_result rq now i d =
     d\<lparr>claim_tickets := update_many (\<lambda>t. ct_token_hash t = rq_token_hash rq) (mark_ticket now) (claim_tickets d),
       operator_sessions := delete_many (\<lambda>r. \<exists>u \<in> set (users d). op_elevated_from_user_id r = Some (u_id u)
           \<and> claims_password rq i u) (operator_sessions d),
       users := update_many (claims_password rq i) (password_row (rq_new_password_hash rq) now) (users d),
       portal_sessions := portal_sessions d @ [new_portal_session rq now (portal_session_seq d + 1) (pi_id i)],
       portal_session_seq := portal_session_seq d + 1\<rparr>"

lemma redeemable_unique:
  assumes "distinct (map ct_token_hash (claim_tickets d))" and "ticket_of rq d = Some t" and "redeemable rq now d t"
  shows "u \<in> set (claim_tickets d) \<Longrightarrow> redeemable rq now d u \<longleftrightarrow> ct_token_hash u = rq_token_hash rq"
proof -
  assume u: "u \<in> set (claim_tickets d)"
  have t: "t \<in> set (claim_tickets d)" "ct_token_hash t = rq_token_hash rq"
    using assms(2) by (auto simp: ticket_of_def dest: find_by_SomeD)
  show ?thesis
  proof
    assume "ct_token_hash u = rq_token_hash rq"
    then have "u = t" using u t assms(1) by (auto dest: distinct_key_unique)
    with assms(3) show "redeemable rq now d u" by simp
  qed (simp add: redeemable_def)
qed

lemma marked_tickets:
  assumes ready: "redeem_ready rq now d" and t: "ticket_of rq d = Some t"
    and u: "u \<in> set (update_many (\<lambda>t. ct_token_hash t = rq_token_hash rq) (mark_ticket now) (claim_tickets d))"
  shows "just_redeemed rq now u \<longleftrightarrow> u = mark_ticket now t"
proof -
  have t': "t \<in> set (claim_tickets d)" "ct_token_hash t = rq_token_hash rq"
    using t by (auto simp: ticket_of_def dest: find_by_SomeD)
  from u obtain v where v: "v \<in> set (claim_tickets d)"
    "u = (if ct_token_hash v = rq_token_hash rq then mark_ticket now v else v)"
    unfolding update_many_def set_map by (rule imageE)
  show ?thesis
  proof (cases "ct_token_hash v = rq_token_hash rq")
    case True
    then have "v = t" using v t' ready by (auto simp: redeem_ready_def dest: distinct_key_unique)
    with v True show ?thesis by (simp add: just_redeemed_def mark_ticket_def)
  next
    case False
    with v t' show ?thesis by (auto simp: just_redeemed_def mark_ticket_def)
  qed
qed

lemma redeem_mark_eq:
  assumes "redeem_ready rq now d" and "ticket_of rq d = Some t" and "redeemable rq now d t"
  shows "redeem_mark rq now d =
    d\<lparr>claim_tickets := update_many (\<lambda>t. ct_token_hash t = rq_token_hash rq) (mark_ticket now) (claim_tickets d)\<rparr>"
proof -
  have "update_many (redeemable rq now d) (mark_ticket now) (claim_tickets d) =
      update_many (\<lambda>t. ct_token_hash t = rq_token_hash rq) (mark_ticket now) (claim_tickets d)"
    using assms redeemable_unique by (intro update_many_cong) (auto simp: redeem_ready_def)
  then show ?thesis by (simp add: redeem_mark_def mark_ticket_def [abs_def])
qed

lemma claimed_user_marked:
  assumes ready: "redeem_ready rq now d" and t: "ticket_of rq d = Some t"
    and i: "i \<in> set (portal_identities d)" "ticket_identity t i"
    and tickets: "claim_tickets d' = update_many (\<lambda>t. ct_token_hash t = rq_token_hash rq) (mark_ticket now) (claim_tickets d)"
    and identities: "portal_identities d' = portal_identities d"
  shows "claimed_user rq now d' uid \<longleftrightarrow> pi_provider i = ''local'' \<and> pi_user_id i = Some uid"
    and "(\<exists>u \<in> set (claim_tickets d'). just_redeemed rq now u \<and> ticket_identity u j) \<longleftrightarrow> pi_id j = pi_id i"
    and "\<exists>u \<in> set (claim_tickets d'). just_redeemed rq now u"
proof -
  have "t \<in> set (claim_tickets d)" "ct_token_hash t = rq_token_hash rq"
    using t by (auto simp: ticket_of_def dest: find_by_SomeD)
  then have m: "mark_ticket now t \<in> set (claim_tickets d')" by (auto simp: tickets table_simps)
  have just: "just_redeemed rq now u \<longleftrightarrow> u = mark_ticket now t" if "u \<in> set (claim_tickets d')" for u
    using marked_tickets [OF ready t] that by (simp add: tickets)
  have ti: "ticket_identity (mark_ticket now t) j \<longleftrightarrow> pi_id j = pi_id i" for j
    using i(2) by (auto simp: ticket_identity_def mark_ticket_def)
  have inj: "j \<in> set (portal_identities d) \<Longrightarrow> pi_id j = pi_id i \<longleftrightarrow> j = i" for j
    using ready i(1) by (auto simp: redeem_ready_def dest: distinct_key_unique)
  show "\<exists>u \<in> set (claim_tickets d'). just_redeemed rq now u" using m just by auto
  show "(\<exists>u \<in> set (claim_tickets d'). just_redeemed rq now u \<and> ticket_identity u j) \<longleftrightarrow> pi_id j = pi_id i"
    using m just ti by auto
  show "claimed_user rq now d' uid \<longleftrightarrow> pi_provider i = ''local'' \<and> pi_user_id i = Some uid"
    unfolding claimed_user_def identities using m just ti inj i(1) by auto
qed

lemma redeem_writes_some:
  assumes ready: "redeem_ready rq now d" and t: "ticket_of rq d = Some t" and ok: "redeemable rq now d t"
    and i: "i \<in> set (portal_identities d)" "ticket_identity t i"
  shows "redeem_writes rq now d = Some (redeem_result rq now i d)"
proof -
  let ?tickets = "update_many (\<lambda>t. ct_token_hash t = rq_token_hash rq) (mark_ticket now) (claim_tickets d)"
  note claimed = claimed_user_marked(1) [OF ready t i]
  define d1 where "d1 = redeem_mark rq now d"
  have d1: "d1 = d\<lparr>claim_tickets := ?tickets\<rparr>" using redeem_mark_eq [OF ready t ok] by (simp add: d1_def)
  define d2 where "d2 = redeem_drop_elevated rq now d1"
  have d2: "d2 = d1\<lparr>operator_sessions := delete_many (\<lambda>r. \<exists>u \<in> set (users d). op_elevated_from_user_id r = Some (u_id u)
      \<and> claims_password rq i u) (operator_sessions d)\<rparr>"
    unfolding d2_def redeem_drop_elevated_def claimed [of d1, simplified d1, simplified] d1
    by (auto simp: claims_password_def delete_many_def intro!: userdb.fold_congs filter_cong)
  define d3 where "d3 = redeem_set_password rq now d2"
  have "claimed_user rq now d2 = (\<lambda>uid. pi_provider i = ''local'' \<and> pi_user_id i = Some uid)"
    by (intro ext claimed) (simp_all add: d2 d1)
  then have d3: "d3 = d2\<lparr>users := update_many (claims_password rq i) (password_row (rq_new_password_hash rq) now) (users d)\<rparr>"
    unfolding d3_def redeem_set_password_def row_folds
    by (auto simp: d2 d1 claims_password_def update_many_def intro!: userdb.fold_congs map_cong)
  have "distinct (map ct_token_hash ?tickets)"
    using ready by (subst map_update_many_key) (auto simp: redeem_ready_def mark_ticket_def)
  then have "distinct ?tickets" by (simp add: distinct_map)
  moreover have "mark_ticket now t \<in> set ?tickets"
    using t by (auto simp: ticket_of_def table_simps dest!: find_by_SomeD)
  moreover have "ct_identity_id (mark_ticket now t) = Some (pi_id i)"
    using i(2) by (simp add: mark_ticket_def ticket_identity_def)
  ultimately have "redeem_insert_sessions rq now ?tickets d3 =
      Some (d3\<lparr>portal_sessions := portal_sessions d3 @ [new_portal_session rq now (portal_session_seq d3 + 1) (pi_id i)],
        portal_session_seq := portal_session_seq d3 + 1\<rparr>)"
    using marked_tickets [OF ready t] ready
    by (intro redeem_insert_one [where t = "mark_ticket now t"]) (auto simp: d3 d2 d1 redeem_ready_def)
  moreover have "claim_tickets d3 = ?tickets" by (simp add: d3 d2 d1)
  ultimately show ?thesis
    by (simp add: redeem_writes_def Let_def flip: d1_def d2_def d3_def) (simp add: redeem_result_def d3 d2 d1)
qed

section \<open>Outcomes\<close>

definition password_required :: "redeem_request \<Rightarrow> timestamp \<Rightarrow> userdb \<Rightarrow> bool" where
  "password_required rq now d \<longleftrightarrow>
     (\<exists>t \<in> set (claim_tickets d). ct_token_hash t = rq_token_hash rq \<and> ct_redeemed_at t = None
        \<and> now < ct_expires_at t \<and> needs_password d t \<and> rq_new_password_hash rq = None)"

lemma run_redeem_refused:
  assumes "fresh_op ctx s"
    and none: "\<And>t. t \<in> set (claim_tickets (a_data s)) \<Longrightarrow>
      \<not> redeemable rq (ctx_now ctx) (a_data s) t \<and> \<not> just_redeemed rq (ctx_now ctx) t"
  shows "\<exists>s' res. run_user_op (RedeemClaimTicket rq) ctx s = Some (s', res) \<and> a_data s' = a_data s
    \<and> res_status res = (if password_required rq (ctx_now ctx) (a_data s) then ''passwordRequired'' else ''claimInvalid'')"
proof -
  let ?now = "ctx_now ctx" and ?d = "a_data s"
  have "run_plan (plan_inner (RedeemClaimTicket rq) ?now) ?d = Some (?d, redeem_outcome rq ?now ?d)"
    using redeem_writes_none [OF none] by (simp add: run_plan_redeem)
  moreover have "redeem_outcome rq ?now ?d =
      (if password_required rq ?now ?d then ''passwordRequired'' else ''claimInvalid'')"
    using none by (auto simp: redeem_outcome_def password_required_def)
  ultimately show ?thesis
    using run_user_op_fresh [OF assms(1), of "RedeemClaimTicket rq"]
    by (auto simp: first_reply_def recorded_status_eq known_statuses_def)
qed

lemma run_redeem_ok:
  assumes fresh: "fresh_op ctx s" and ready: "redeem_ready rq (ctx_now ctx) (a_data s)"
    and t: "ticket_of rq (a_data s) = Some t" and ok: "redeemable rq (ctx_now ctx) (a_data s) t"
    and i: "i \<in> set (portal_identities (a_data s))" "ticket_identity t i"
  shows "\<exists>s' res. run_user_op (RedeemClaimTicket rq) ctx s = Some (s', res)
    \<and> a_data s' = redeem_result rq (ctx_now ctx) i (a_data s)
    \<and> res_status res = ''ok'' \<and> res_payload res = Some (IdentityJson i)"
proof -
  let ?now = "ctx_now ctx" and ?d = "a_data s"
  let ?d' = "redeem_result rq ?now i ?d"
  note marked = claimed_user_marked [OF ready t i, of ?d']
  have "redeem_outcome rq ?now ?d' = ''ok''"
    using marked(3) by (auto simp: redeem_outcome_def redeem_result_def new_portal_session_def)
  then have run: "run_plan (plan_inner (RedeemClaimTicket rq) ?now) ?d = Some (?d', ''ok'')"
    using redeem_writes_some [OF ready t ok i] by (simp add: run_plan_redeem)
  have "find (\<lambda>j. pi_id j = pi_id i) (portal_identities ?d) = Some i"
    using find_by_eq_Some [of pi_id "portal_identities ?d" i "pi_id i"] ready i(1)
    by (simp add: find_by_def redeem_ready_def)
  then have "redeem_identity rq ?now ?d' = Some (IdentityJson i)"
    unfolding redeem_identity_def using marked(2) by (simp add: redeem_result_def)
  with run_user_op_fresh [OF fresh run] show ?thesis
    by (auto simp: first_reply_def recorded_status_eq known_statuses_def payload_statuses_def plan_result_def plan_redeem_claim_def)
qed

lemma redeem_outcomes:
  assumes "fresh_op ctx s" and "redeem_ready rq (ctx_now ctx) (a_data s)"
  shows "\<exists>s' res. run_user_op (RedeemClaimTicket rq) ctx s = Some (s', res)
    \<and> (case ticket_of rq (a_data s) of
         Some t \<Rightarrow>
           if redeemable rq (ctx_now ctx) (a_data s) t
           then \<exists>i. ticket_identity t i \<and> a_data s' = redeem_result rq (ctx_now ctx) i (a_data s)
                  \<and> res_status res = ''ok'' \<and> res_payload res = Some (IdentityJson i)
           else a_data s' = a_data s \<and> res_status res =
             (if password_required rq (ctx_now ctx) (a_data s) then ''passwordRequired'' else ''claimInvalid'')
       | None \<Rightarrow> a_data s' = a_data s \<and> res_status res = ''claimInvalid'')"
proof (cases "ticket_of rq (a_data s)")
  case None
  then have none: "\<And>t. t \<in> set (claim_tickets (a_data s)) \<Longrightarrow> ct_token_hash t \<noteq> rq_token_hash rq"
    by (simp add: ticket_of_def find_by_None_iff)
  then have "\<not> password_required rq (ctx_now ctx) (a_data s)" by (auto simp: password_required_def)
  with run_redeem_refused [OF assms(1), of rq] none None show ?thesis
    by (auto simp: redeemable_def just_redeemed_def)
next
  case (Some t)
  show ?thesis
  proof (cases "redeemable rq (ctx_now ctx) (a_data s) t")
    case True
    then obtain i where i: "i \<in> set (portal_identities (a_data s))" "ticket_identity t i" by (auto simp: redeemable_def)
    from run_redeem_ok [OF assms Some True i] Some True i show ?thesis by auto
  next
    case False
    have "\<not> redeemable rq (ctx_now ctx) (a_data s) u \<and> \<not> just_redeemed rq (ctx_now ctx) u"
      if "u \<in> set (claim_tickets (a_data s))" for u
    proof -
      have "u = t" if "ct_token_hash u = rq_token_hash rq"
        using Some that \<open>u \<in> _\<close> assms(2)
        by (auto simp: ticket_of_def redeem_ready_def dest!: find_by_SomeD dest: distinct_key_unique)
      with False that assms(2) show ?thesis by (auto simp: redeemable_def redeem_ready_def)
    qed
    from run_redeem_refused [OF assms(1) this] Some False show ?thesis by auto
  qed
qed

text \<open>
  What redeeming a claim ticket does, in every case. A ticket that is unredeemed, unexpired and
  bound to a live identity opens exactly one session for that identity, is marked, sets the password
  of a local user who has none (revoking the sessions elevated from that user) and answers with the
  identity. Otherwise no table changes, and the answer is \<open>passwordRequired\<close> when only the password
  was missing and \<open>claimInvalid\<close> in all other cases.
\<close>

theorem redeem_claim_outcomes:
  assumes "fresh_op ctx s" and "redeem_ready rq (ctx_now ctx) (a_data s)"
  shows "\<exists>s' res. run_user_op (RedeemClaimTicket rq) ctx s = Some (s', res)
    \<and> (case ticket_of rq (a_data s) of
         Some t \<Rightarrow>
           if redeemable rq (ctx_now ctx) (a_data s) t
           then \<exists>i. ticket_identity t i \<and> a_data s' = redeem_result rq (ctx_now ctx) i (a_data s)
                  \<and> res_status res = ''ok'' \<and> res_payload res = Some (IdentityJson i)
           else a_data s' = a_data s \<and> res_status res =
             (if password_required rq (ctx_now ctx) (a_data s) then ''passwordRequired'' else ''claimInvalid'')
       | None \<Rightarrow> a_data s' = a_data s \<and> res_status res = ''claimInvalid'')"
  using redeem_outcomes [OF assms] .


section \<open>A concrete ticket\<close>

definition demo_ticket :: ticket_row where
  "demo_ticket =
     \<lparr>ct_id = 1, ct_token_hash = ''tok'', ct_identity_id = Some 5, ct_expires_at = 100,
      ct_redeemed_at = None, ct_created_by = ''op'', ct_created_at = 0\<rparr>"

definition demo_request :: redeem_request where
  "demo_request =
     \<lparr>rq_token_hash = ''tok'', rq_session_hash = ''sess'', rq_expires_at = 500, rq_user_agent = None,
      rq_device_type = None, rq_client_label = None, rq_new_password_hash = None\<rparr>"

definition demo_claims :: user_system where
  "demo_claims = \<lparr>a_data = demo_users\<lparr>claim_tickets := [demo_ticket]\<rparr>, a_receipts = [], a_slots = []\<rparr>"

lemma demo_claims_ready [simp]:
  "fresh_op ctx demo_claims" "redeem_ready demo_request now (a_data demo_claims)"
  "ticket_of demo_request (a_data demo_claims) = Some demo_ticket"
  "redeemable demo_request 7 (a_data demo_claims) demo_ticket"
  by (simp_all add: demo_claims_def fresh_op_def find_by_def redeem_ready_def demo_users_def just_redeemed_def
      demo_ticket_def demo_request_def ticket_of_def redeemable_def ticket_identity_def orphaned_identity_def
      needs_password_def demo_user_def)

lemma demo_ctx_now [simp]: "ctx_now (demo_ctx op now) = now" "ctx_operation_id (demo_ctx op now) = op"
  by (simp_all add: demo_ctx_def)

theorem redeem_claim_outcomes_witness:
  "\<exists>s' res i. run_user_op (RedeemClaimTicket demo_request) (demo_ctx ''op'' 7) demo_claims = Some (s', res)
    \<and> res_status res = ''ok'' \<and> res_payload res = Some (IdentityJson i) \<and> pi_id i = 5
    \<and> portal_sessions (a_data s') = [new_portal_session demo_request 7 1 5]"
proof -
  from redeem_claim_outcomes [of "demo_ctx ''op'' 7" demo_claims demo_request]
  obtain s' res i where r: "run_user_op (RedeemClaimTicket demo_request) (demo_ctx ''op'' 7) demo_claims = Some (s', res)"
    "res_status res = ''ok''" "res_payload res = Some (IdentityJson i)"
    and i: "ticket_identity demo_ticket i" and s': "a_data s' = redeem_result demo_request 7 i (a_data demo_claims)"
    by auto
  have "pi_id i = 5" using i by (simp add: ticket_identity_def demo_ticket_def)
  moreover have "portal_sessions (a_data s') = [new_portal_session demo_request 7 1 (pi_id i)]"
    by (simp add: s' redeem_result_def demo_claims_def demo_users_def)
  ultimately show ?thesis using r by auto
qed


end
