(* ===== verification/Event_Model.thy ===== *)
theory Event_Model
  imports Rust_Std
begin

text \<open>
  Domain events and subscriptions (\<^verbatim>\<open>crates/bookclerk-library/src/models.rs\<close>): JSON payload filters,
  their intersection, wake grants, the subscriber catalog and its collapse over nodes.

  JSON text is produced and read by \<^verbatim>\<open>serde_json\<close>, which is not part of the repository: the record
  \<open>event_codec\<close> holds the conversions the code calls, and the round trips it relies on are named
  hypotheses. \<open>plain_codec\<close> style instances are in the theories that need concrete values.
\<close>

section \<open>JSON values\<close>

text \<open>\<open>serde_json::Map\<close> is an ordered map; it is kept as its list of entries in key order.\<close>

datatype Value =
    Null
  | Bool bool
  | Number string
  | String string
  | Array "Value list"
  | Object "(string \<times> Value) list"

definition is_object :: "Value \<Rightarrow> bool" where
  "is_object v \<longleftrightarrow> (case v of Object _ \<Rightarrow> True | _ \<Rightarrow> False)"

fun btree_insert :: "string \<Rightarrow> 'a \<Rightarrow> (string \<times> 'a) list \<Rightarrow> (string \<times> 'a) list" where
  "btree_insert k v [] = [(k, v)]"
| "btree_insert k v ((k', v') # m) =
     (if k < k' then (k, v) # (k', v') # m
      else if k = k' then (k, v) # m
      else (k', v') # btree_insert k v m)"

lemma map_of_btree_insert:
  "map_of m k = None \<Longrightarrow> map_of (btree_insert k v m) = (map_of m)(k \<mapsto> v)"
  by (induction k v m rule: btree_insert.induct) (auto simp: fun_upd_twist split: if_splits)

lemma set_btree_insert: "map_of m k = None \<Longrightarrow> set (btree_insert k v m) = insert (k, v) (set m)"
  by (induction k v m rule: btree_insert.induct) (auto split: if_splits)

section \<open>Payload filters\<close>

type_synonym json_from_str = "string \<Rightarrow> Value option"

definition event_filter_matches :: "json_from_str \<Rightarrow> Value option \<Rightarrow> string \<Rightarrow> bool" where
  "event_filter_matches json flt payload_json =
     (case flt of
        None \<Rightarrow> True
      | Some (Object filter_obj) \<Rightarrow>
          filter_obj = []
          \<or> (case json payload_json of
                Some (Object payload_obj) \<Rightarrow>
                  list_all (\<lambda>(key, value). map_of payload_obj key = Some value) filter_obj
              | _ \<Rightarrow> False)
      | Some _ \<Rightarrow> False)"

definition as_map :: "Value option \<Rightarrow> (string \<times> Value) list option" where
  "as_map v =
     (case v of Some (Object m) \<Rightarrow> (if m = [] then None else Some m) | _ \<Rightarrow> None)"

fun merge_entries :: "(string \<times> Value) list \<Rightarrow> (string \<times> Value) list \<Rightarrow> (string \<times> Value) list option" where
  "merge_entries out [] = Some out"
| "merge_entries out ((key, val) # right) =
     (case map_of out key of
        Some existing \<Rightarrow> if existing \<noteq> val then None else merge_entries out right
      | None \<Rightarrow> merge_entries (btree_insert key val out) right)"

definition intersect_event_filters :: "Value option \<Rightarrow> Value option \<Rightarrow> Value option" where
  "intersect_event_filters declared requested =
     (case (as_map declared, as_map requested) of
        (None, None) \<Rightarrow> Some (Object [])
      | (Some m, None) \<Rightarrow> Some (Object m)
      | (None, Some m) \<Rightarrow> Some (Object m)
      | (Some left, Some right) \<Rightarrow> map_option Object (merge_entries left right))"

section \<open>Subscriptions and events\<close>

definition EVENT_RESOURCE_CLASS_NETWORK :: string where
  "EVENT_RESOURCE_CLASS_NETWORK = ''network''"

definition EVENT_SUBSCRIBER_HEARTBEAT_TTL_SECS :: int where
  "EVENT_SUBSCRIBER_HEARTBEAT_TTL_SECS = 60"

definition EVENT_DELIVERY_MAX_ATTEMPTS :: int where
  "EVENT_DELIVERY_MAX_ATTEMPTS = 8"

record EventSubscriber =
  es_plugin_id :: string
  es_resource_class :: string

definition EventSubscriber_plugin :: "string \<Rightarrow> EventSubscriber" where
  "EventSubscriber_plugin plugin_id =
     \<lparr>es_plugin_id = plugin_id, es_resource_class = EVENT_RESOURCE_CLASS_NETWORK\<rparr>"

record EventCatalogSubscription =
  sub_event_type :: string
  sub_schema_versions :: "nat list"
  sub_supports_suspend :: bool
  sub_resource_class :: string
  sub_filter :: "Value option"

record EventWakeGrant =
  grant_schema_versions :: "nat list"
  grant_filter :: "Value option"

record PublishDomainEventSpec =
  pub_id :: string
  pub_event_type :: string
  pub_schema_version :: int
  pub_account_id :: string
  pub_source :: string
  pub_correlation_id :: string
  pub_causation_id :: string
  pub_dedup_key :: string
  pub_payload :: string
  pub_ordering_key :: string

datatype PublishDomainEventOutcome = PublishCreated string | PublishDuplicate string

record DomainEventRecord =
  ev_id :: string
  ev_event_type :: string
  ev_schema_version :: int
  ev_occurred_at :: timestamp
  ev_account_id :: string
  ev_source :: string
  ev_correlation_id :: string
  ev_causation_id :: string
  ev_dedup_key :: string
  ev_payload :: string
  ev_ordering_key :: string
  ev_dispatch_state :: string
  ev_created_at :: timestamp
  ev_wake_pending :: bool

record EventDeliveryFence =
  df_delivery_id :: string
  df_owner :: string
  df_generation :: int

text \<open>The JSON conversions of the outbox columns.\<close>

record event_codec =
  json_of :: json_from_str
  grants_to_string :: "EventWakeGrant list \<Rightarrow> string"
  grants_from_str :: "string \<Rightarrow> EventWakeGrant list option"
  subs_to_string :: "EventCatalogSubscription list \<Rightarrow> string"
  subs_from_str :: "string \<Rightarrow> EventCatalogSubscription list option"
  ids_to_string :: "string list \<Rightarrow> string"
  ids_from_str :: "string \<Rightarrow> string list option"

definition schema_listed :: "nat list \<Rightarrow> int \<Rightarrow> bool" where
  "schema_listed versions schema_version \<longleftrightarrow> list_ex (\<lambda>v. int v = schema_version) versions"

definition class_or_network :: "string \<Rightarrow> string" where
  "class_or_network c = (if trim c = [] then EVENT_RESOURCE_CLASS_NETWORK else trim c)"

definition subscription_matches_event ::
  "event_codec \<Rightarrow> EventCatalogSubscription \<Rightarrow> DomainEventRecord \<Rightarrow> bool" where
  "subscription_matches_event J sub event \<longleftrightarrow>
     class_or_network (sub_resource_class sub) = EVENT_RESOURCE_CLASS_NETWORK
     \<and> sub_event_type sub = ev_event_type event
     \<and> schema_listed (sub_schema_versions sub) (ev_schema_version event)
     \<and> event_filter_matches (json_of J) (sub_filter sub) (ev_payload event)"

section \<open>Wake grants\<close>

definition requested_filter :: "event_codec \<Rightarrow> string \<Rightarrow> string + Value option" where
  "requested_filter J requested_filter_json =
     (if trim requested_filter_json = [] then Inr None
      else case json_of J requested_filter_json of
        None \<Rightarrow> Inl ''wake filter not within subscription''
      | Some parsed \<Rightarrow>
          if is_object parsed then Inr (Some parsed) else Inl ''wake filter not within subscription'')"

definition grant_of :: "Value option \<Rightarrow> EventCatalogSubscription \<Rightarrow> EventWakeGrant option" where
  "grant_of requested sub =
     (case intersect_event_filters (sub_filter sub) requested of
        None \<Rightarrow> None
      | Some flt \<Rightarrow>
          Some \<lparr>grant_schema_versions = sub_schema_versions sub,
                grant_filter = (if flt = Object [] then None else Some flt)\<rparr>)"

definition wake_grants_from_subscriptions ::
  "event_codec \<Rightarrow> EventCatalogSubscription list \<Rightarrow> string \<Rightarrow> string \<Rightarrow> string + EventWakeGrant list" where
  "wake_grants_from_subscriptions J subs wake_type requested_filter_json =
     (let wake = trim wake_type in
      if wake = [] then Inr []
      else case requested_filter J requested_filter_json of
        Inl err \<Rightarrow> Inl err
      | Inr requested \<Rightarrow>
          let eligible = filter (\<lambda>s. sub_event_type s = wake) subs;
              grants = List.map_filter (grant_of requested) eligible
          in if eligible = [] then Inl ''wake event type not subscribed''
             else if grants = [] then Inl ''wake filter not within subscription''
             else Inr grants)"

definition grant_matches :: "event_codec \<Rightarrow> int \<Rightarrow> string \<Rightarrow> EventWakeGrant \<Rightarrow> bool" where
  "grant_matches J schema_version payload grant \<longleftrightarrow>
     schema_listed (grant_schema_versions grant) schema_version
     \<and> event_filter_matches (json_of J) (grant_filter grant) payload"

definition event_matches_wake_grants ::
  "event_codec \<Rightarrow> string \<Rightarrow> string \<Rightarrow> int \<Rightarrow> string \<Rightarrow> bool" where
  "event_matches_wake_grants J grants_json legacy_filter_json schema_version payload =
     (let grants_json = trim grants_json in
      if grants_json = [] \<or> grants_json = ''[]'' then
        event_filter_matches (json_of J)
          (if trim legacy_filter_json = [] then None else json_of J legacy_filter_json) payload
      else case grants_from_str J grants_json of
        None \<Rightarrow> False
      | Some grants \<Rightarrow> list_ex (grant_matches J schema_version payload) grants)"

section \<open>The subscriber catalog\<close>

record EventSubscriberNodeRecord =
  nr_node_id :: string
  nr_plugin_id :: string
  nr_subscriptions :: "EventCatalogSubscription list"
  nr_enabled :: bool
  nr_heartbeat_at :: timestamp

record EventSubscriberCatalogRecord =
  cr_plugin_id :: string
  cr_subscriptions :: "EventCatalogSubscription list"
  cr_enabled :: bool
  cr_updated_at :: timestamp

definition collapse_entry ::
  "EventSubscriberNodeRecord \<Rightarrow> EventSubscriberCatalogRecord option \<Rightarrow> EventSubscriberCatalogRecord" where
  "collapse_entry row entry =
     (let e = (case entry of
                 Some e \<Rightarrow> e
               | None \<Rightarrow> \<lparr>cr_plugin_id = nr_plugin_id row, cr_subscriptions = [], cr_enabled = False,
                          cr_updated_at = nr_heartbeat_at row\<rparr>);
          e1 = (if cr_updated_at e < nr_heartbeat_at row then e\<lparr>cr_updated_at := nr_heartbeat_at row\<rparr> else e)
      in if nr_enabled row
         then e1\<lparr>cr_enabled := True, cr_subscriptions := cr_subscriptions e1 @ nr_subscriptions row\<rparr>
         else e1)"

definition collapse_live_subscriber_nodes ::
  "EventSubscriberNodeRecord list \<Rightarrow> EventSubscriberCatalogRecord list" where
  "collapse_live_subscriber_nodes rows =
     map snd (fold (\<lambda>row m. btree_insert (nr_plugin_id row) (collapse_entry row (map_of m (nr_plugin_id row))) m) rows [])"

definition catalog_subscribers_for_event ::
  "event_codec \<Rightarrow> EventSubscriberCatalogRecord list \<Rightarrow> DomainEventRecord \<Rightarrow> EventSubscriber list" where
  "catalog_subscribers_for_event J catalog event =
     map (\<lambda>row. EventSubscriber_plugin (cr_plugin_id row))
       (filter (\<lambda>row. cr_enabled row \<and> list_ex (\<lambda>s. subscription_matches_event J s event) (cr_subscriptions row))
          catalog)"

section \<open>Filters: laws\<close>

lemma event_filter_matches_Object:
  "event_filter_matches json (Some (Object m)) p \<longleftrightarrow>
     m = [] \<or> (\<exists>obj. json p = Some (Object obj) \<and> (\<forall>(k, v) \<in> set m. map_of obj k = Some v))"
  by (auto simp: event_filter_matches_def list_all_iff split: option.split Value.split)

lemma merge_entries_Some:
  "merge_entries out right = Some m \<Longrightarrow> set m = set out \<union> set right"
proof (induction out right arbitrary: m rule: merge_entries.induct)
  case (2 out key val right)
  then show ?case
    by (auto simp: set_btree_insert split: option.splits if_splits dest: map_of_SomeD)
qed simp

lemma merge_entries_None:
  assumes "merge_entries out right = None" and "\<forall>(k, v) \<in> set out. f k = Some v"
  shows "\<not> (\<forall>(k, v) \<in> set right. f k = Some v)"
  using assms
proof (induction out right rule: merge_entries.induct)
  case (2 out key val right)
  show ?case
  proof (cases "map_of out key")
    case None
    show ?thesis
    proof
      assume all: "\<forall>(k, v) \<in> set ((key, val) # right). f k = Some v"
      then have "\<forall>(k, v) \<in> set (btree_insert key val out). f k = Some v"
        using 2(4) None by (auto simp: set_btree_insert)
      with 2(1) [OF None] 2(3) None all show False by auto
    qed
  next
    case (Some existing)
    then have "f key = Some existing" using 2(4) by (auto dest: map_of_SomeD)
    with 2(2) [OF Some] 2(3,4) Some show ?thesis by (auto split: if_splits)
  qed
qed simp

text \<open>A filter that is absent or an object, as the manifest declares them.\<close>

definition filter_ok :: "Value option \<Rightarrow> bool" where
  "filter_ok f \<longleftrightarrow> (case f of None \<Rightarrow> True | Some v \<Rightarrow> is_object v)"

lemma as_map_matches:
  assumes "filter_ok f"
  shows "event_filter_matches json f p \<longleftrightarrow>
    (case as_map f of None \<Rightarrow> True | Some m \<Rightarrow> event_filter_matches json (Some (Object m)) p)"
  using assms
  by (auto simp: filter_ok_def as_map_def is_object_def event_filter_matches_def split: option.splits Value.splits)

lemma as_map_Some: "as_map f = Some m \<Longrightarrow> m \<noteq> []"
  by (auto simp: as_map_def split: option.splits Value.splits if_splits)

lemma intersect_matches:
  assumes "filter_ok declared" and "filter_ok requested"
  shows "(case intersect_event_filters declared requested of
            None \<Rightarrow> False | Some f \<Rightarrow> event_filter_matches json (Some f) p)
    \<longleftrightarrow> event_filter_matches json declared p \<and> event_filter_matches json requested p"
proof (cases "as_map declared")
  case None
  then show ?thesis
    using as_map_matches [OF assms(1)] as_map_matches [OF assms(2)]
    by (cases "as_map requested") (auto simp: intersect_event_filters_def event_filter_matches_Object)
next
  case (Some left)
  note declared = this
  show ?thesis
  proof (cases "as_map requested")
    case None
    then show ?thesis
      using as_map_matches [OF assms(1)] as_map_matches [OF assms(2)] declared
      by (auto simp: intersect_event_filters_def)
  next
    case (Some right)
    have ne: "left \<noteq> []" "right \<noteq> []" using declared Some as_map_Some by auto
    show ?thesis
    proof (cases "merge_entries left right")
      case None
      have "\<not> (event_filter_matches json (Some (Object left)) p \<and> event_filter_matches json (Some (Object right)) p)"
        unfolding event_filter_matches_Object using ne merge_entries_None [OF None] by fastforce
      with None declared Some show ?thesis
        using as_map_matches [OF assms(1)] as_map_matches [OF assms(2)] by (simp add: intersect_event_filters_def)
    next
      case (Some m)
      then have "set m = set left \<union> set right" by (rule merge_entries_Some)
      moreover from this ne have "m \<noteq> []" by auto
      ultimately show ?thesis
        using as_map_matches [OF assms(1)] as_map_matches [OF assms(2)] declared \<open>as_map requested = Some right\<close> Some ne
        by (auto simp: intersect_event_filters_def event_filter_matches_Object)
    qed
  qed
qed



section \<open>Wake grants: law\<close>

lemma requested_filter_ok: "requested_filter J s = Inr f \<Longrightarrow> filter_ok f"
  by (auto simp: requested_filter_def filter_ok_def split: if_splits option.splits)

lemma grant_of_matches:
  assumes "grant_of requested sub = Some g" and "filter_ok (sub_filter sub)" and "filter_ok requested"
  shows "event_filter_matches json (grant_filter g) p \<longleftrightarrow>
      event_filter_matches json (sub_filter sub) p \<and> event_filter_matches json requested p"
    and "grant_schema_versions g = sub_schema_versions sub"
proof -
  from assms(1) obtain f where f: "intersect_event_filters (sub_filter sub) requested = Some f"
    and g: "g = \<lparr>grant_schema_versions = sub_schema_versions sub,
      grant_filter = (if f = Object [] then None else Some f)\<rparr>"
    by (auto simp: grant_of_def split: option.splits)
  have "event_filter_matches json (grant_filter g) p \<longleftrightarrow> event_filter_matches json (Some f) p"
    by (auto simp: g event_filter_matches_def)
  with intersect_matches [OF assms(2,3), of json p] f
  show "event_filter_matches json (grant_filter g) p \<longleftrightarrow>
      event_filter_matches json (sub_filter sub) p \<and> event_filter_matches json requested p" by simp
  show "grant_schema_versions g = sub_schema_versions sub" by (simp add: g)
qed

text \<open>What the code relies on for the grants column: it reads back what was written, which is not blank.\<close>

definition grants_codec_ok :: "event_codec \<Rightarrow> EventWakeGrant list \<Rightarrow> bool" where
  "grants_codec_ok J grants \<longleftrightarrow>
     trim (grants_to_string J grants) = grants_to_string J grants
     \<and> grants_to_string J grants \<notin> {[], ''[]''}
     \<and> grants_from_str J (grants_to_string J grants) = Some grants"

text \<open>
  Event-driven wakes never see more than the subscription allows. When the grants stored with a
  suspended delivery were derived from the plugin's subscriptions, an event matches them exactly when
  some subscription of that type lists its schema version, accepts its payload, and the filter the
  plugin asked for accepts it too.
\<close>

theorem wake_grants_exact:
  assumes grants: "wake_grants_from_subscriptions J subs wake_type requested_json = Inr grants"
    and type: "trim wake_type \<noteq> []" and filters: "\<forall>s \<in> set subs. filter_ok (sub_filter s)"
    and codec: "grants_codec_ok J grants"
  shows "event_matches_wake_grants J (grants_to_string J grants) legacy schema payload \<longleftrightarrow>
    (\<exists>sub \<in> set subs. sub_event_type sub = trim wake_type
       \<and> schema_listed (sub_schema_versions sub) schema
       \<and> event_filter_matches (json_of J) (sub_filter sub) payload
       \<and> (\<exists>requested. requested_filter J requested_json = Inr requested
             \<and> event_filter_matches (json_of J) requested payload))"
proof -
  obtain requested where req: "requested_filter J requested_json = Inr requested"
    and gs: "grants = List.map_filter (grant_of requested) (filter (\<lambda>s. sub_event_type s = trim wake_type) subs)"
    using grants type by (auto simp: wake_grants_from_subscriptions_def Let_def split: sum.splits if_splits)
  note rok = requested_filter_ok [OF req]
  have "event_matches_wake_grants J (grants_to_string J grants) legacy schema payload
      \<longleftrightarrow> (\<exists>g \<in> set grants. grant_matches J schema payload g)"
    using codec by (auto simp: event_matches_wake_grants_def grants_codec_ok_def Let_def list_ex_iff)
  also have "\<dots> \<longleftrightarrow> (\<exists>sub \<in> set subs. sub_event_type sub = trim wake_type
      \<and> (\<exists>g. grant_of requested sub = Some g \<and> grant_matches J schema payload g))"
    by (auto simp: gs map_filter_def)
  also have "\<dots> \<longleftrightarrow> (\<exists>sub \<in> set subs. sub_event_type sub = trim wake_type
       \<and> schema_listed (sub_schema_versions sub) schema
       \<and> event_filter_matches (json_of J) (sub_filter sub) payload \<and> event_filter_matches (json_of J) requested payload)"
  proof (intro bex_cong refl conj_cong)
    fix sub assume "sub \<in> set subs"
    then have ok: "filter_ok (sub_filter sub)" using filters by blast
    show "(\<exists>g. grant_of requested sub = Some g \<and> grant_matches J schema payload g) \<longleftrightarrow>
        schema_listed (sub_schema_versions sub) schema
        \<and> event_filter_matches (json_of J) (sub_filter sub) payload \<and> event_filter_matches (json_of J) requested payload"
    proof (cases "grant_of requested sub")
      case None
      then have "intersect_event_filters (sub_filter sub) requested = None"
        by (auto simp: grant_of_def split: option.splits)
      with None intersect_matches [OF ok rok, of "json_of J" payload] show ?thesis by simp
    next
      case (Some g)
      with grant_of_matches [OF Some ok rok] show ?thesis by (auto simp: grant_matches_def)
    qed
  qed
  finally show ?thesis using req by auto
qed

text \<open>A codec for one subscription list, one grant list and the payload \<open>{"kind":"x"}\<close>.\<close>

definition demo_sub :: EventCatalogSubscription where
  "demo_sub =
     \<lparr>sub_event_type = ''book_acquired'', sub_schema_versions = [1], sub_supports_suspend = True,
      sub_resource_class = ''network'', sub_filter = Some (Object [(''kind'', String ''x'')])\<rparr>"

definition demo_grant :: EventWakeGrant where
  "demo_grant = \<lparr>grant_schema_versions = [1], grant_filter = Some (Object [(''kind'', String ''x'')])\<rparr>"

definition demo_event_codec :: event_codec where
  "demo_event_codec =
     \<lparr>json_of = (\<lambda>s. if s = ''x'' then Some (Object [(''kind'', String ''x'')]) else None),
      grants_to_string = (\<lambda>gs. if gs = [] then ''[]'' else ''g''),
      grants_from_str = (\<lambda>s. if s = ''g'' then Some [demo_grant] else if s = ''[]'' then Some [] else None),
      subs_to_string = (\<lambda>subs. if subs = [] then ''[]'' else ''s''),
      subs_from_str = (\<lambda>s. if s = ''s'' then Some [demo_sub] else if s = ''[]'' then Some [] else None),
      ids_to_string = (\<lambda>ids. ''['' @ concat (map (\<lambda>i. i @ '','') ids) @ '']''),
      ids_from_str = (\<lambda>s. if s = ''[abs,]'' then Some [''abs''] else if s = ''[]'' then Some [] else None)\<rparr>"

lemma demo_trims [simp]:
  "trim ''g'' = ''g''" "trim ''book_acquired'' = ''book_acquired''" "trim ''network'' = ''network''"
  by code_simp+

theorem wake_grants_exact_witness:
  "wake_grants_from_subscriptions demo_event_codec [demo_sub] ''book_acquired'' [] = Inr [demo_grant]
   \<and> event_matches_wake_grants demo_event_codec ''g'' [] 1 ''x''
   \<and> \<not> event_matches_wake_grants demo_event_codec ''g'' [] 2 ''x''"
proof -
  have grants: "wake_grants_from_subscriptions demo_event_codec [demo_sub] ''book_acquired'' [] = Inr [demo_grant]"
    by (simp add: wake_grants_from_subscriptions_def demo_sub_def requested_filter_def map_filter_simps
        grant_of_def intersect_event_filters_def as_map_def demo_grant_def)
  have str: "grants_to_string demo_event_codec [demo_grant] = ''g''" by (simp add: demo_event_codec_def)
  have codec: "grants_codec_ok demo_event_codec [demo_grant]"
    by (simp add: grants_codec_ok_def demo_event_codec_def)
  have ok: "\<forall>s \<in> set [demo_sub]. filter_ok (sub_filter s)" by (simp add: demo_sub_def filter_ok_def is_object_def)
  have "requested_filter demo_event_codec [] = Inr None" by (simp add: requested_filter_def)
  then show ?thesis
    using grants wake_grants_exact [OF grants _ ok codec, of "[]" 1 "''x''"]
      wake_grants_exact [OF grants _ ok codec, of "[]" 2 "''x''"]
    unfolding str
    by (simp add: demo_sub_def schema_listed_def event_filter_matches_def demo_event_codec_def)
qed

end
