(* ===== verification/Event_Outbox.thy ===== *)
theory Event_Outbox
  imports Event_Model Job_Queue
begin

text \<open>
  The event outbox (\<^verbatim>\<open>crates/bookclerk-library/src/store/event_outbox.rs\<close>): publishing, dispatch into
  per-subscriber deliveries, claiming under a lease, the fenced outcomes of a handler, reclaiming,
  operator actions and retention, as the library's own transactions run them.

  Each operation takes the one clock reading \<open>now\<close> it uses. Rows keep their state columns as the text
  stored in the database; an empty cursor column is \<open>None\<close>. Database statements do not fail; a
  unique violation is where an insert is refused. \<open>lock_plugin_in_flight\<close> only serializes
  concurrent transactions and has no other effect. Fault injection of tests is left out.
\<close>

section \<open>Tables\<close>

record event_row =
  e_id :: string
  e_event_type :: string
  e_schema_version :: int
  e_occurred_at :: timestamp
  e_account_id :: string
  e_source :: string
  e_correlation_id :: string
  e_causation_id :: string
  e_dedup_key :: string
  e_payload :: string
  e_ordering_key :: string
  e_dispatch_state :: string
  e_created_at :: timestamp
  e_wake_pending :: int
  e_wake_lease_owner :: "string option"
  e_wake_lease_expires_at :: "timestamp option"
  e_wake_cursor_at :: "timestamp option"
  e_wake_cursor_id :: string
  e_dispatch_snapshot_json :: string

record delivery_row =
  d_id :: string
  d_event_id :: string
  d_plugin_id :: string
  d_idempotency_key :: string
  d_state :: string
  d_attempt_count :: int
  d_max_attempts :: int
  d_lease_owner :: "string option"
  d_lease_expires_at :: "timestamp option"
  d_lease_generation :: int
  d_run_after :: timestamp
  d_invocation_sequence :: int
  d_resume_pending :: int
  d_checkpoint_json :: "string option"
  d_checkpoint_schema_version :: int
  d_ordering_key :: string
  d_outcome :: "string option"
  d_error_message :: "string option"
  d_created_at :: timestamp
  d_updated_at :: timestamp
  d_cancel_requested :: int
  d_resource_class :: string
  d_wake_event_type :: string
  d_wake_filter_json :: string
  d_wake_grants_json :: string

record node_row =
  n_node_id :: string
  n_plugin_id :: string
  n_subscriptions_json :: string
  n_enabled :: int
  n_heartbeat_at :: timestamp

record stats_row =
  st_retries_total :: int
  st_suspensions_total :: int
  st_dead_letters_total :: int
  st_dispatch_latency_ms_sum :: int
  st_dispatch_count :: int
  st_handler_latency_ms_sum :: int
  st_handler_count :: int

text \<open>\<open>event_outbox_stats\<close> holds at most its singleton row.\<close>

record outbox =
  domain_events :: "event_row list"
  event_deliveries :: "delivery_row list"
  event_subscriber_nodes :: "node_row list"
  event_outbox_stats :: "stats_row option"

datatype event_error = EventOther string | EventNotFound string | EventOrm string

definition d_pending :: "delivery_row \<Rightarrow> bool" where
  "d_pending r \<longleftrightarrow> d_state r = ''pending''"

definition d_running :: "delivery_row \<Rightarrow> bool" where
  "d_running r \<longleftrightarrow> d_state r = ''running''"

text \<open>An \<open>update_many\<close> on deliveries and whether it hit exactly one row.\<close>

definition d_cas :: "(delivery_row \<Rightarrow> bool) \<Rightarrow> (delivery_row \<Rightarrow> delivery_row) \<Rightarrow> outbox \<Rightarrow> outbox \<times> bool" where
  "d_cas P f db =
     (db\<lparr>event_deliveries := update_many P f (event_deliveries db)\<rparr>,
      rows_affected P (event_deliveries db) = 1)"

definition map_event :: "event_row \<Rightarrow> DomainEventRecord" where
  "map_event m =
     \<lparr>ev_id = e_id m, ev_event_type = e_event_type m, ev_schema_version = e_schema_version m,
      ev_occurred_at = e_occurred_at m, ev_account_id = e_account_id m, ev_source = e_source m,
      ev_correlation_id = e_correlation_id m, ev_causation_id = e_causation_id m,
      ev_dedup_key = e_dedup_key m, ev_payload = e_payload m, ev_ordering_key = e_ordering_key m,
      ev_dispatch_state = e_dispatch_state m, ev_created_at = e_created_at m,
      ev_wake_pending = (e_wake_pending m \<noteq> 0)\<rparr>"

record EventDeliveryRecord =
  dr_id :: string
  dr_event_id :: string
  dr_plugin_id :: string
  dr_idempotency_key :: string
  dr_state :: string
  dr_attempt_count :: int
  dr_max_attempts :: int
  dr_lease_owner :: "string option"
  dr_lease_expires_at :: "timestamp option"
  dr_lease_generation :: int
  dr_run_after :: timestamp
  dr_invocation_sequence :: int
  dr_resume_pending :: bool
  dr_checkpoint_json :: "string option"
  dr_checkpoint_schema_version :: int
  dr_ordering_key :: string
  dr_outcome :: "string option"
  dr_error_message :: "string option"
  dr_created_at :: timestamp
  dr_updated_at :: timestamp
  dr_cancel_requested :: bool
  dr_resource_class :: string
  dr_wake_event_type :: string
  dr_wake_filter_json :: string
  dr_wake_grants_json :: string

definition map_delivery :: "delivery_row \<Rightarrow> EventDeliveryRecord" where
  "map_delivery m =
     \<lparr>dr_id = d_id m, dr_event_id = d_event_id m, dr_plugin_id = d_plugin_id m,
      dr_idempotency_key = d_idempotency_key m, dr_state = d_state m,
      dr_attempt_count = d_attempt_count m, dr_max_attempts = d_max_attempts m,
      dr_lease_owner = d_lease_owner m, dr_lease_expires_at = d_lease_expires_at m,
      dr_lease_generation = d_lease_generation m, dr_run_after = d_run_after m,
      dr_invocation_sequence = d_invocation_sequence m, dr_resume_pending = (d_resume_pending m \<noteq> 0),
      dr_checkpoint_json = d_checkpoint_json m,
      dr_checkpoint_schema_version = d_checkpoint_schema_version m,
      dr_ordering_key = d_ordering_key m, dr_outcome = d_outcome m,
      dr_error_message = d_error_message m, dr_created_at = d_created_at m,
      dr_updated_at = d_updated_at m, dr_cancel_requested = (d_cancel_requested m \<noteq> 0),
      dr_resource_class =
        (if trim (d_resource_class m) = [] then EVENT_RESOURCE_CLASS_NETWORK else d_resource_class m),
      dr_wake_event_type = d_wake_event_type m, dr_wake_filter_json = d_wake_filter_json m,
      dr_wake_grants_json = d_wake_grants_json m\<rparr>"

definition delivery_fence :: "EventDeliveryRecord \<Rightarrow> EventDeliveryFence" where
  "delivery_fence r =
     \<lparr>df_delivery_id = dr_id r,
      df_owner = (case dr_lease_owner r of None \<Rightarrow> [] | Some w \<Rightarrow> w),
      df_generation = dr_lease_generation r\<rparr>"

section \<open>Statistics\<close>

definition empty_stats :: stats_row where
  "empty_stats =
     \<lparr>st_retries_total = 0, st_suspensions_total = 0, st_dead_letters_total = 0,
      st_dispatch_latency_ms_sum = 0, st_dispatch_count = 0, st_handler_latency_ms_sum = 0,
      st_handler_count = 0\<rparr>"

definition ensure_event_outbox_stats :: "outbox \<Rightarrow> stats_row" where
  "ensure_event_outbox_stats db = (case event_outbox_stats db of Some row \<Rightarrow> row | None \<Rightarrow> empty_stats)"

definition sample :: "int option \<Rightarrow> int \<times> int" where
  "sample latency_ms = (case latency_ms of Some ms \<Rightarrow> (ms, 1) | None \<Rightarrow> (0, 0))"

definition bump_event_stats ::
  "int \<Rightarrow> int \<Rightarrow> int \<Rightarrow> int option \<Rightarrow> int option \<Rightarrow> outbox \<Rightarrow> outbox" where
  "bump_event_stats retries suspensions dead_letters dispatch_latency_ms handler_latency_ms db =
     (let s = ensure_event_outbox_stats db;
          (dispatch_sum, dispatch_n) = sample dispatch_latency_ms;
          (handler_sum, handler_n) = sample handler_latency_ms
      in db\<lparr>event_outbox_stats :=
           Some \<lparr>st_retries_total = st_retries_total s + retries,
                 st_suspensions_total = st_suspensions_total s + suspensions,
                 st_dead_letters_total = st_dead_letters_total s + dead_letters,
                 st_dispatch_latency_ms_sum = st_dispatch_latency_ms_sum s + dispatch_sum,
                 st_dispatch_count = st_dispatch_count s + dispatch_n,
                 st_handler_latency_ms_sum = st_handler_latency_ms_sum s + handler_sum,
                 st_handler_count = st_handler_count s + handler_n\<rparr>\<rparr>)"

definition record_event_handler_latency :: "int \<Rightarrow> outbox \<Rightarrow> outbox" where
  "record_event_handler_latency duration_ms = bump_event_stats 0 0 0 None (Some (max 0 duration_ms))"

section \<open>Publishing\<close>

fun has_double_underscore :: "string \<Rightarrow> bool" where
  "has_double_underscore (a # b # s) \<longleftrightarrow> a = CHR ''_'' \<and> b = CHR ''_'' \<or> has_double_underscore (b # s)"
| "has_double_underscore _ \<longleftrightarrow> False"

definition name_char :: "char \<Rightarrow> bool" where
  "name_char c \<longleftrightarrow> is_ascii_lowercase c \<or> is_ascii_digit c \<or> c = CHR ''_''"

definition en_dash :: string where
  "en_dash = [CHR 0xE2, CHR 0x80, CHR 0x93]"

definition validate_event_source :: "string \<Rightarrow> event_error + unit" where
  "validate_event_source source =
     (if source = [] then Inr ()
      else if source \<noteq> trim source then
        Inl (EventOther (''event source '' @ quoted source @ '' must not have leading or trailing whitespace''))
      else if length source < 2 \<or> 32 < length source then
        Inl (EventOther (''event source '' @ quoted source @ '' must be 2'' @ en_dash @ ''32 characters''))
      else if \<not> list_all name_char source then
        Inl (EventOther (''event source '' @ quoted source
               @ '' must be lowercase ascii letters, digits, or '' @ quoted ''_''))
      else if hd source = CHR ''_'' \<or> last source = CHR ''_'' \<or> has_double_underscore source then
        Inl (EventOther (''event source '' @ quoted source @ '' must not start/end with '' @ quoted ''_''
               @ '' or contain '' @ quoted ''__''))
      else Inr ())"

definition MAX_PAYLOAD :: nat where
  "MAX_PAYLOAD = 65536"

definition prepare_publish_domain_event ::
  "string \<Rightarrow> PublishDomainEventSpec \<Rightarrow> event_error + PublishDomainEventSpec" where
  "prepare_publish_domain_event uuid spec =
     (if MAX_PAYLOAD < length (pub_payload spec) then
        Inl (EventOther (''domain event payload of '' @ nat_str (length (pub_payload spec))
               @ '' bytes exceeds '' @ nat_str MAX_PAYLOAD))
      else if trim (pub_event_type spec) = [] \<or> trim (pub_dedup_key spec) = [] then
        Inl (EventOther ''domain event type and dedup_key are required'')
      else case validate_event_source (pub_source spec) of
        Inl err \<Rightarrow> Inl err
      | Inr () \<Rightarrow>
          Inr (spec\<lparr>pub_id := (if trim (pub_id spec) = [] then uuid else trim (pub_id spec))\<rparr>))"

definition same_event_key :: "PublishDomainEventSpec \<Rightarrow> event_row \<Rightarrow> bool" where
  "same_event_key spec e \<longleftrightarrow>
     e_account_id e = pub_account_id spec \<and> e_source e = pub_source spec
     \<and> e_event_type e = pub_event_type spec \<and> e_dedup_key e = pub_dedup_key spec"

definition new_event_row :: "timestamp \<Rightarrow> PublishDomainEventSpec \<Rightarrow> event_row" where
  "new_event_row now spec =
     \<lparr>e_id = pub_id spec, e_event_type = pub_event_type spec,
      e_schema_version = max 1 (pub_schema_version spec), e_occurred_at = now,
      e_account_id = pub_account_id spec, e_source = pub_source spec,
      e_correlation_id = pub_correlation_id spec, e_causation_id = pub_causation_id spec,
      e_dedup_key = pub_dedup_key spec, e_payload = pub_payload spec,
      e_ordering_key = pub_ordering_key spec, e_dispatch_state = ''pending'', e_created_at = now,
      e_wake_pending = 1, e_wake_lease_owner = None, e_wake_lease_expires_at = None,
      e_wake_cursor_at = None, e_wake_cursor_id = [], e_dispatch_snapshot_json = []\<rparr>"

definition publish_domain_event_on ::
  "string \<Rightarrow> timestamp \<Rightarrow> PublishDomainEventSpec \<Rightarrow> outbox
   \<Rightarrow> outbox \<times> (event_error + PublishDomainEventOutcome)" where
  "publish_domain_event_on uuid now spec0 db =
     (case prepare_publish_domain_event uuid spec0 of
        Inl err \<Rightarrow> (db, Inl err)
      | Inr spec \<Rightarrow>
          (case find (same_event_key spec) (domain_events db) of
             Some existing \<Rightarrow> (db, Inr (PublishDuplicate (e_id existing)))
           | None \<Rightarrow>
               if pub_id spec \<in> e_id ` set (domain_events db)
               then (db, Inl (EventOrm ''UNIQUE constraint failed: domain_events.id''))
               else (db\<lparr>domain_events := domain_events db @ [new_event_row now spec]\<rparr>,
                     Inr (PublishCreated (pub_id spec)))))"

definition publish_domain_event ::
  "string \<Rightarrow> timestamp \<Rightarrow> PublishDomainEventSpec \<Rightarrow> outbox
   \<Rightarrow> outbox \<times> (event_error + PublishDomainEventOutcome)" where
  "publish_domain_event uuid now spec0 db =
     (case prepare_publish_domain_event uuid spec0 of
        Inl err \<Rightarrow> (db, Inl err)
      | Inr spec \<Rightarrow> in_txn (publish_domain_event_on uuid now spec) db)"

section \<open>Dispatch\<close>

definition new_delivery_row :: "timestamp \<Rightarrow> event_row \<Rightarrow> string \<Rightarrow> delivery_row" where
  "new_delivery_row now event plugin_id =
     \<lparr>d_id = e_id event @ '':'' @ plugin_id, d_event_id = e_id event, d_plugin_id = plugin_id,
      d_idempotency_key = e_id event @ '':'' @ plugin_id, d_state = ''pending'', d_attempt_count = 0,
      d_max_attempts = EVENT_DELIVERY_MAX_ATTEMPTS, d_lease_owner = None, d_lease_expires_at = None,
      d_lease_generation = 0, d_run_after = now, d_invocation_sequence = 0, d_resume_pending = 0,
      d_checkpoint_json = None, d_checkpoint_schema_version = 0,
      d_ordering_key = e_ordering_key event, d_outcome = None, d_error_message = None,
      d_created_at = now, d_updated_at = now, d_cancel_requested = 0,
      d_resource_class = EVENT_RESOURCE_CLASS_NETWORK, d_wake_event_type = [],
      d_wake_filter_json = [], d_wake_grants_json = []\<rparr>"

text \<open>The uniqueness constraints of the deliveries table.\<close>

definition delivery_clash :: "delivery_row \<Rightarrow> delivery_row \<Rightarrow> bool" where
  "delivery_clash row r \<longleftrightarrow>
     d_id r = d_id row \<or> d_event_id r = d_event_id row \<and> d_plugin_id r = d_plugin_id row
     \<or> d_idempotency_key r = d_idempotency_key row"

definition insert_delivery :: "delivery_row \<Rightarrow> outbox \<Rightarrow> outbox option" where
  "insert_delivery row db =
     (if \<exists>r \<in> set (event_deliveries db). delivery_clash row r then None
      else Some (db\<lparr>event_deliveries := event_deliveries db @ [row]\<rparr>))"

definition dispatchable :: "EventSubscriber \<Rightarrow> bool" where
  "dispatchable sub \<longleftrightarrow>
     trim (es_plugin_id sub) \<noteq> []
     \<and> class_or_network (es_resource_class sub) = EVENT_RESOURCE_CLASS_NETWORK"

fun dispatch_loop :: "timestamp \<Rightarrow> event_row \<Rightarrow> EventSubscriber list \<Rightarrow> outbox \<Rightarrow> outbox \<times> nat" where
  "dispatch_loop now event [] db = (db, 0)"
| "dispatch_loop now event (sub # subs) db =
     (if \<not> dispatchable sub then dispatch_loop now event subs db
      else case insert_delivery (new_delivery_row now event (es_plugin_id sub)) db of
        None \<Rightarrow> dispatch_loop now event subs db
      | Some db' \<Rightarrow> (case dispatch_loop now event subs db' of (db'', n) \<Rightarrow> (db'', Suc n)))"

definition mark_dispatched :: "string \<Rightarrow> outbox \<Rightarrow> outbox" where
  "mark_dispatched event_id db =
     db\<lparr>domain_events :=
         update_many (\<lambda>e. e_id e = event_id \<and> e_dispatch_state e = ''pending'')
           (\<lambda>e. e\<lparr>e_dispatch_state := ''dispatched''\<rparr>) (domain_events db)\<rparr>"

definition latency_ms :: "timestamp \<Rightarrow> timestamp \<Rightarrow> int" where
  "latency_ms now created_at = max 0 ((now - created_at) div 1000000)"

definition dispatch_event_deliveries_on ::
  "timestamp \<Rightarrow> string \<Rightarrow> EventSubscriber list \<Rightarrow> outbox \<Rightarrow> outbox \<times> nat" where
  "dispatch_event_deliveries_on now event_id subscribers db =
     (case find_by e_id event_id (domain_events db) of
        None \<Rightarrow> (db, 0)
      | Some event \<Rightarrow>
          (case dispatch_loop now event subscribers db of
             (db1, created) \<Rightarrow>
               let db2 = mark_dispatched event_id db1;
                   hit = rows_affected (\<lambda>e. e_id e = event_id \<and> e_dispatch_state e = ''pending'') (domain_events db1)
               in (if e_dispatch_state event = ''pending'' \<and> hit = 1
                   then bump_event_stats 0 0 0 (Some (latency_ms now (e_created_at event))) None db2 else db2,
                   created)))"

definition next_undispatched_event :: "outbox \<Rightarrow> DomainEventRecord option" where
  "next_undispatched_event db =
     (case order_by e_created_at (filter (\<lambda>e. e_dispatch_state e = ''pending'') (domain_events db)) of
        [] \<Rightarrow> None | e # _ \<Rightarrow> Some (map_event e))"

section \<open>The subscriber catalog\<close>

definition map_node_row :: "event_codec \<Rightarrow> node_row \<Rightarrow> EventSubscriberNodeRecord" where
  "map_node_row J m =
     \<lparr>nr_node_id = n_node_id m, nr_plugin_id = n_plugin_id m,
      nr_subscriptions = (case subs_from_str J (n_subscriptions_json m) of None \<Rightarrow> [] | Some subs \<Rightarrow> subs),
      nr_enabled = (n_enabled m \<noteq> 0), nr_heartbeat_at = n_heartbeat_at m\<rparr>"

definition node_plugin_subscriptions ::
  "event_codec \<Rightarrow> outbox \<Rightarrow> string \<Rightarrow> string \<Rightarrow> EventCatalogSubscription list option" where
  "node_plugin_subscriptions J db node_id plugin_id =
     (case find (\<lambda>n. n_node_id n = node_id \<and> n_plugin_id n = plugin_id) (event_subscriber_nodes db) of
        None \<Rightarrow> None
      | Some row \<Rightarrow>
          if n_enabled row = 0 then None
          else Some (case subs_from_str J (n_subscriptions_json row) of None \<Rightarrow> [] | Some subs \<Rightarrow> subs))"

definition delivery_model_matches_node_catalog ::
  "event_codec \<Rightarrow> outbox \<Rightarrow> string \<Rightarrow> delivery_row \<Rightarrow> bool" where
  "delivery_model_matches_node_catalog J db node_id model =
     (case find_by e_id (d_event_id model) (domain_events db) of
        None \<Rightarrow> False
      | Some event_row \<Rightarrow>
          (case node_plugin_subscriptions J db node_id (d_plugin_id model) of
             None \<Rightarrow> False
           | Some subs \<Rightarrow> list_ex (\<lambda>s. subscription_matches_event J s (map_event event_row)) subs))"

definition upsert_event_subscriber_at ::
  "event_codec \<Rightarrow> string \<Rightarrow> string \<Rightarrow> EventCatalogSubscription list \<Rightarrow> bool \<Rightarrow> timestamp \<Rightarrow> outbox \<Rightarrow> outbox" where
  "upsert_event_subscriber_at J node_id0 plugin_id0 subscriptions enabled heartbeat_at db =
     (let node_id = trim node_id0; plugin_id = trim plugin_id0;
          same = (\<lambda>n. n_node_id n = node_id \<and> n_plugin_id n = plugin_id);
          flag = (if enabled then 1 else 0); json = subs_to_string J subscriptions
      in if node_id = [] \<or> plugin_id = [] then db
         else if \<exists>n \<in> set (event_subscriber_nodes db). same n
         then db\<lparr>event_subscriber_nodes :=
                update_many same
                  (\<lambda>n. n\<lparr>n_subscriptions_json := json, n_enabled := flag, n_heartbeat_at := heartbeat_at\<rparr>)
                  (event_subscriber_nodes db)\<rparr>
         else db\<lparr>event_subscriber_nodes :=
                event_subscriber_nodes db
                @ [\<lparr>n_node_id = node_id, n_plugin_id = plugin_id, n_subscriptions_json = json,
                    n_enabled = flag, n_heartbeat_at = heartbeat_at\<rparr>]\<rparr>)"

definition list_live_event_subscriber_nodes ::
  "event_codec \<Rightarrow> timestamp \<Rightarrow> int \<Rightarrow> outbox \<Rightarrow> EventSubscriberNodeRecord list" where
  "list_live_event_subscriber_nodes J now ttl_secs db =
     map (map_node_row J)
       (order_by (\<lambda>n. (n_plugin_id n, n_node_id n))
          (filter (\<lambda>n. now - seconds (max 1 ttl_secs) \<le> n_heartbeat_at n) (event_subscriber_nodes db)))"

definition list_live_event_subscribers ::
  "event_codec \<Rightarrow> timestamp \<Rightarrow> outbox \<Rightarrow> EventSubscriberCatalogRecord list" where
  "list_live_event_subscribers J now db =
     collapse_live_subscriber_nodes
       (list_live_event_subscriber_nodes J now EVENT_SUBSCRIBER_HEARTBEAT_TTL_SECS db)"

definition dispatch_catalog_matches ::
  "event_codec \<Rightarrow> timestamp \<Rightarrow> DomainEventRecord \<Rightarrow> outbox \<Rightarrow> outbox \<times> nat" where
  "dispatch_catalog_matches J now event db =
     dispatch_event_deliveries_on now (ev_id event)
       (catalog_subscribers_for_event J (list_live_event_subscribers J now db) event) db"

end
