(* ===== verification/Event_Delivery.thy ===== *)
theory Event_Delivery
  imports Event_Outbox
begin

text \<open>
  Deliveries: claiming with per-plugin caps and per-key order, the outcomes a worker reports under its
  fence, reclaiming expired leases, operator actions, retention and the status counters.
  Operations that read a row and then write under their fence have a \<open>_from\<close> variant whose reading is an
  argument, so that it can be stale.
\<close>

section \<open>Claiming\<close>

definition sanitize_one :: "timestamp \<Rightarrow> delivery_row \<Rightarrow> outbox \<Rightarrow> outbox" where
  "sanitize_one now model db =
     fst (d_cas (\<lambda>r. d_id r = d_id model \<and> d_pending r)
            (\<lambda>r. r\<lparr>d_state := ''rejected'', d_outcome := Some ''reject'',
                   d_error_message := Some (''unknown event resource class '' @ quoted (d_resource_class model)),
                   d_updated_at := now\<rparr>) db)"

definition sanitize_unknown_event_resource_class_on :: "timestamp \<Rightarrow> outbox \<Rightarrow> outbox" where
  "sanitize_unknown_event_resource_class_on now db =
     fold (sanitize_one now)
       (take 32 (filter (\<lambda>r. d_pending r \<and> d_resource_class r \<noteq> EVENT_RESOURCE_CLASS_NETWORK
                              \<and> d_resource_class r \<noteq> []) (event_deliveries db))) db"

definition fifo_blocked :: "outbox \<Rightarrow> delivery_row \<Rightarrow> bool" where
  "fifo_blocked db candidate \<longleftrightarrow>
     d_ordering_key candidate \<noteq> []
     \<and> 0 < rows_affected (\<lambda>r. d_plugin_id r = d_plugin_id candidate
              \<and> d_ordering_key r = d_ordering_key candidate
              \<and> d_created_at r < d_created_at candidate \<and> (d_pending r \<or> d_running r)) (event_deliveries db)"

definition in_flight :: "outbox \<Rightarrow> string \<Rightarrow> string \<Rightarrow> nat" where
  "in_flight db plugin_id class =
     rows_affected (\<lambda>r. d_plugin_id r = plugin_id \<and> d_running r \<and> d_resource_class r = class) (event_deliveries db)"

definition plugin_in_flight_at_cap :: "outbox \<Rightarrow> string \<Rightarrow> string \<Rightarrow> nat \<Rightarrow> bool" where
  "plugin_in_flight_at_cap db plugin_id class max_in_flight \<longleftrightarrow>
     max_in_flight = 0 \<or> max_in_flight \<le> in_flight db plugin_id (class_or_network class)"

definition claim_key :: "delivery_row \<Rightarrow> timestamp \<times> string" where
  "claim_key r = (d_created_at r, d_id r)"

text \<open>The keyset condition; no cursor before the first page.\<close>

definition claim_keyset_after :: "(timestamp \<times> string) option \<Rightarrow> delivery_row \<Rightarrow> bool" where
  "claim_keyset_after cursor r =
     (case cursor of
        None \<Rightarrow> True
      | Some (created_at, did) \<Rightarrow> created_at < d_created_at r \<or> d_created_at r = created_at \<and> did < d_id r)"

definition claim_ready_delivery :: "timestamp \<Rightarrow> string list \<Rightarrow> delivery_row \<Rightarrow> bool" where
  "claim_ready_delivery now plugin_ids r \<longleftrightarrow>
     d_pending r \<and> d_run_after r \<le> now \<and> d_plugin_id r \<in> set plugin_ids
     \<and> d_resource_class r = EVENT_RESOURCE_CLASS_NETWORK"

definition claim_page_rows ::
  "nat \<Rightarrow> timestamp \<Rightarrow> string list \<Rightarrow> (timestamp \<times> string) option \<Rightarrow> outbox \<Rightarrow> delivery_row list" where
  "claim_page_rows page now plugin_ids cursor db =
     take page (order_by claim_key
       (filter (\<lambda>r. claim_ready_delivery now plugin_ids r \<and> claim_keyset_after cursor r) (event_deliveries db)))"

definition claim_delivery_update :: "timestamp \<Rightarrow> string \<Rightarrow> nat \<Rightarrow> delivery_row \<Rightarrow> delivery_row \<Rightarrow> delivery_row" where
  "claim_delivery_update now owner lease_secs model r =
     r\<lparr>d_state := ''running'',
       d_attempt_count := (if d_resume_pending model \<noteq> 0 then max 1 (d_attempt_count model) else d_attempt_count model + 1),
       d_lease_owner := Some owner, d_lease_expires_at := Some (lease_until now lease_secs),
       d_lease_generation := d_lease_generation model + 1, d_updated_at := now,
       d_resume_pending := (if d_resume_pending model \<noteq> 0 then 0 else d_resume_pending r)\<rparr>"

definition claim_eligible :: "event_codec \<Rightarrow> nat \<Rightarrow> string \<Rightarrow> outbox \<Rightarrow> delivery_row \<Rightarrow> bool" where
  "claim_eligible J max_in_flight node_id db model \<longleftrightarrow>
     \<not> fifo_blocked db model
     \<and> (trim node_id = [] \<or> delivery_model_matches_node_catalog J db node_id model)
     \<and> \<not> plugin_in_flight_at_cap db (d_plugin_id model) (d_resource_class model) max_in_flight"

text \<open>The candidates of one page; \<open>None\<close> when none of them could be claimed. Before it counts, the code takes
  the plugin's serialization slot (\<open>lock_plugin_in_flight\<close>), a row of a table of its own that makes count and update
  one atomic step; the model's transactions are atomic, so the slot table is not part of the state.\<close>

fun claim_try ::
  "event_codec \<Rightarrow> timestamp \<Rightarrow> string \<Rightarrow> nat \<Rightarrow> nat \<Rightarrow> string \<Rightarrow> delivery_row list \<Rightarrow> outbox
   \<Rightarrow> (outbox \<times> EventDeliveryRecord) option" where
  "claim_try J now owner lease_secs max_in_flight node_id [] db = None"
| "claim_try J now owner lease_secs max_in_flight node_id (model # ms) db =
     (if \<not> claim_eligible J max_in_flight node_id db model
      then claim_try J now owner lease_secs max_in_flight node_id ms db
      else case d_cas (\<lambda>r. d_id r = d_id model \<and> d_pending r) (claim_delivery_update now owner lease_secs model) db of
        (db', hit) \<Rightarrow>
          if \<not> hit then claim_try J now owner lease_secs max_in_flight node_id ms db
          else case find_by d_id (d_id model) (event_deliveries db') of
            None \<Rightarrow> claim_try J now owner lease_secs max_in_flight node_id ms db'
          | Some updated \<Rightarrow> Some (db', map_delivery updated))"

lemma claim_page_rows_set:
  "set (claim_page_rows page now plugin_ids cursor db) \<subseteq>
     {r \<in> set (event_deliveries db). claim_ready_delivery now plugin_ids r \<and> claim_keyset_after cursor r}"
  using set_take_subset [of page] by (fastforce simp: claim_page_rows_def table_simps)

lemma keyset_after_trans:
  "claim_keyset_after cursor r \<Longrightarrow> claim_keyset_after (Some (claim_key r)) r' \<Longrightarrow> claim_keyset_after cursor r'"
  by (auto simp: claim_keyset_after_def claim_key_def split: option.splits)

lemma keyset_after_irrefl: "\<not> claim_keyset_after (Some (claim_key r)) r"
  by (simp add: claim_keyset_after_def claim_key_def)

lemma filter_strict_subset:
  assumes "\<And>x. Q x \<Longrightarrow> P x" and "r \<in> set xs" and "P r" and "\<not> Q r"
  shows "length (filter Q xs) < length (filter P xs)"
proof -
  have "filter Q xs = filter Q (filter P xs)" using assms(1) by (auto intro: filter_cong)
  moreover have "length (filter Q (filter P xs)) < length (filter P xs)"
    using assms(2-4) by (intro length_filter_less [of r]) auto
  ultimately show ?thesis by simp
qed

text \<open>
  The pages of candidates. \<open>attempt\<close> tries those of one page; a page without a claim leaves the
  tables as they are.
\<close>

function claim_pages ::
  "(delivery_row list \<Rightarrow> outbox \<Rightarrow> (outbox \<times> EventDeliveryRecord) option) \<Rightarrow> nat \<Rightarrow> timestamp \<Rightarrow> string list
   \<Rightarrow> (timestamp \<times> string) option \<Rightarrow> outbox \<Rightarrow> outbox \<times> EventDeliveryRecord option" where
  "claim_pages attempt page now plugin_ids cursor db =
     (let candidates = claim_page_rows page now plugin_ids cursor db
      in if candidates = [] then (db, None)
         else case attempt candidates db of
           Some (db', row) \<Rightarrow> (db', Some row)
         | None \<Rightarrow> claim_pages attempt page now plugin_ids (Some (claim_key (last candidates))) db)"
  by pat_completeness auto
termination
proof (relation "measure (\<lambda>(attempt, page, now, plugin_ids, cursor, db).
    length (filter (claim_keyset_after cursor) (event_deliveries db)))")
  fix attempt page now plugin_ids cursor db candidates
  assume cs: "candidates = claim_page_rows page now plugin_ids cursor db" and ne: "candidates \<noteq> []"
  have "last candidates \<in> set candidates" using ne by simp
  then have l: "last candidates \<in> set (event_deliveries db)" "claim_keyset_after cursor (last candidates)"
    using claim_page_rows_set [of page now plugin_ids cursor db] unfolding cs by auto
  have "length (filter (claim_keyset_after (Some (claim_key (last candidates)))) (event_deliveries db))
      < length (filter (claim_keyset_after cursor) (event_deliveries db))"
    using keyset_after_trans [OF l(2)] l keyset_after_irrefl by (rule filter_strict_subset)
  then show "((attempt, page, now, plugin_ids, Some (claim_key (last candidates)), db),
      (attempt, page, now, plugin_ids, cursor, db))
    \<in> measure (\<lambda>(attempt, page, now, plugin_ids, cursor, db).
        length (filter (claim_keyset_after cursor) (event_deliveries db)))" by simp
qed simp

declare claim_pages.simps [simp del]

definition EVENT_CLAIM_PAGE :: nat where
  "EVENT_CLAIM_PAGE = 64"

definition claim_next_event_delivery_on ::
  "event_codec \<Rightarrow> timestamp \<Rightarrow> string \<Rightarrow> nat \<Rightarrow> string list \<Rightarrow> nat \<Rightarrow> string \<Rightarrow> outbox
   \<Rightarrow> outbox \<times> EventDeliveryRecord option" where
  "claim_next_event_delivery_on J now owner lease_secs plugin_ids max_in_flight node_id db =
     (if plugin_ids = [] then (db, None)
      else claim_pages (claim_try J now owner lease_secs max_in_flight node_id) EVENT_CLAIM_PAGE now plugin_ids None
             (sanitize_unknown_event_resource_class_on now db))"

subsection \<open>Claiming through a database plugin\<close>

text \<open>
  The host reads the candidates itself and claims one row per batch. The batch checks the state of the row
  and the plugin's running deliveries again; a batch that misses writes nothing to these tables.
\<close>

definition cas_claim_row :: "timestamp \<Rightarrow> string \<Rightarrow> nat \<Rightarrow> delivery_row \<Rightarrow> delivery_row" where
  "cas_claim_row now owner lease_secs r =
     r\<lparr>d_state := ''running'',
       d_attempt_count := (if d_resume_pending r = 1 then max (d_attempt_count r) 1 else d_attempt_count r + 1),
       d_resume_pending := 0, d_lease_owner := Some owner,
       d_lease_expires_at := Some (now + seconds (max 5 (i64_or 60 lease_secs))),
       d_lease_generation := d_lease_generation r + 1, d_updated_at := now\<rparr>"

definition plan_claim_event_delivery_cas ::
  "timestamp \<Rightarrow> string \<Rightarrow> nat \<Rightarrow> string \<Rightarrow> string \<Rightarrow> string \<Rightarrow> nat \<Rightarrow> outbox \<Rightarrow> outbox \<times> EventDeliveryRecord option" where
  "plan_claim_event_delivery_cas now owner lease_secs delivery_id plugin_id class max_in_flight db =
     (let ok = (\<lambda>r. d_id r = delivery_id \<and> d_pending r \<and> in_flight db plugin_id (class_or_network class) < max_in_flight);
          db' = db\<lparr>event_deliveries := update_many ok (cas_claim_row now owner lease_secs) (event_deliveries db)\<rparr>
      in (db', map_option map_delivery
                 (find (\<lambda>r. d_id r = delivery_id \<and> d_running r \<and> d_lease_owner r = Some owner \<and> d_updated_at r = now)
                    (event_deliveries db'))))"

fun claim_try_cas ::
  "event_codec \<Rightarrow> timestamp \<Rightarrow> string \<Rightarrow> nat \<Rightarrow> nat \<Rightarrow> string \<Rightarrow> delivery_row list \<Rightarrow> outbox
   \<Rightarrow> (outbox \<times> EventDeliveryRecord) option" where
  "claim_try_cas J now owner lease_secs max_in_flight node_id [] db = None"
| "claim_try_cas J now owner lease_secs max_in_flight node_id (model # ms) db =
     (if fifo_blocked db model \<or> trim node_id \<noteq> [] \<and> \<not> delivery_model_matches_node_catalog J db node_id model
      then claim_try_cas J now owner lease_secs max_in_flight node_id ms db
      else case plan_claim_event_delivery_cas now owner lease_secs (d_id model) (d_plugin_id model)
                  (d_resource_class model) max_in_flight db of
        (db', Some row) \<Rightarrow> Some (db', row)
      | (db', None) \<Rightarrow> claim_try_cas J now owner lease_secs max_in_flight node_id ms db')"

definition claim_next_event_delivery_host_cas ::
  "event_codec \<Rightarrow> timestamp \<Rightarrow> string \<Rightarrow> nat \<Rightarrow> string list \<Rightarrow> nat \<Rightarrow> string \<Rightarrow> outbox
   \<Rightarrow> outbox \<times> EventDeliveryRecord option" where
  "claim_next_event_delivery_host_cas J now owner lease_secs plugin_ids max_in_flight node_id db =
     (if plugin_ids = [] then (db, None)
      else claim_pages (claim_try_cas J now owner lease_secs max_in_flight node_id) EVENT_CLAIM_PAGE now plugin_ids None
             (sanitize_unknown_event_resource_class_on now db))"

section \<open>Fenced outcomes\<close>

definition d_fenced :: "EventDeliveryFence \<Rightarrow> delivery_row \<Rightarrow> bool" where
  "d_fenced f r \<longleftrightarrow>
     d_id r = df_delivery_id f \<and> d_running r \<and> d_lease_owner r = Some (df_owner f)
     \<and> d_lease_generation r = df_generation f"

definition release_unexecuted_event_delivery ::
  "timestamp \<Rightarrow> EventDeliveryFence \<Rightarrow> bool \<Rightarrow> outbox \<Rightarrow> outbox \<times> bool" where
  "release_unexecuted_event_delivery now f restore_resume =
     d_cas (d_fenced f)
       (\<lambda>r. let r' = r\<lparr>d_state := ''pending'', d_lease_owner := None, d_lease_expires_at := None, d_updated_at := now\<rparr>
            in if restore_resume then r'\<lparr>d_resume_pending := 1\<rparr>
               else r'\<lparr>d_attempt_count := (if 0 < d_attempt_count r then d_attempt_count r - 1 else 0)\<rparr>)"

definition heartbeat_event_delivery ::
  "timestamp \<Rightarrow> EventDeliveryFence \<Rightarrow> nat \<Rightarrow> outbox \<Rightarrow> outbox \<times> bool" where
  "heartbeat_event_delivery now f lease_secs =
     d_cas (d_fenced f) (\<lambda>r. r\<lparr>d_lease_expires_at := Some (lease_until now lease_secs), d_updated_at := now\<rparr>)"

definition finalize_delivery ::
  "timestamp \<Rightarrow> EventDeliveryFence \<Rightarrow> string \<Rightarrow> string option \<Rightarrow> string option \<Rightarrow> outbox \<Rightarrow> outbox \<times> bool" where
  "finalize_delivery now f state outcome error =
     d_cas (d_fenced f)
       (\<lambda>r. r\<lparr>d_state := state, d_outcome := outcome, d_error_message := error, d_lease_owner := None,
              d_lease_expires_at := None, d_updated_at := now\<rparr>)"

definition ack_event_delivery :: "timestamp \<Rightarrow> EventDeliveryFence \<Rightarrow> outbox \<Rightarrow> outbox \<times> bool" where
  "ack_event_delivery now f = finalize_delivery now f ''acked'' (Some ''ack'') None"

definition reject_event_delivery :: "timestamp \<Rightarrow> EventDeliveryFence \<Rightarrow> string \<Rightarrow> outbox \<Rightarrow> outbox \<times> bool" where
  "reject_event_delivery now f reason = finalize_delivery now f ''rejected'' (Some ''reject'') (Some reason)"

definition dead_letter_event_delivery :: "timestamp \<Rightarrow> EventDeliveryFence \<Rightarrow> string \<Rightarrow> outbox \<Rightarrow> outbox \<times> bool" where
  "dead_letter_event_delivery now f reason db =
     (case finalize_delivery now f ''dead_letter'' (Some ''dead_letter'') (Some reason) db of
        (db', ok) \<Rightarrow> (if ok then bump_event_stats 0 0 1 None None db' else db', ok))"

definition retry_event_delivery_from ::
  "delivery_row option \<Rightarrow> timestamp \<Rightarrow> EventDeliveryFence \<Rightarrow> timestamp \<Rightarrow> string \<Rightarrow> outbox \<Rightarrow> outbox \<times> bool" where
  "retry_event_delivery_from reading now f run_after reason db =
     (case reading of
        None \<Rightarrow> (db, False)
      | Some row \<Rightarrow>
          if \<not> (d_running row \<and> d_lease_owner row = Some (df_owner f) \<and> d_lease_generation row = df_generation f)
          then (db, False)
          else if d_max_attempts row \<le> d_attempt_count row then
            dead_letter_event_delivery now f
              (''retry exhausted after '' @ nat_str (nat (d_attempt_count row)) @ '' attempts: '' @ reason) db
          else
            (case d_cas (d_fenced f)
                (\<lambda>r. r\<lparr>d_state := ''pending'', d_run_after := run_after, d_lease_owner := None,
                       d_lease_expires_at := None, d_error_message := Some reason, d_updated_at := now\<rparr>) db of
               (db', hit) \<Rightarrow> if hit then (bump_event_stats 1 0 0 None None db', True) else (db', False)))"

definition retry_event_delivery ::
  "timestamp \<Rightarrow> EventDeliveryFence \<Rightarrow> timestamp \<Rightarrow> string \<Rightarrow> outbox \<Rightarrow> outbox \<times> bool" where
  "retry_event_delivery now f run_after reason db =
     retry_event_delivery_from (find_by d_id (df_delivery_id f) (event_deliveries db)) now f run_after reason db"

definition validate_wake_event_type :: "string \<Rightarrow> event_error + unit" where
  "validate_wake_event_type event_type =
     (if 64 < length event_type \<or> event_type = [] \<or> \<not> list_all name_char event_type then
        Inl (EventOther (''wake event type '' @ quoted event_type @ '' must be 1'' @ en_dash
               @ ''64 lowercase ascii letters, digits, or '' @ quoted ''_''))
      else Inr ())"

text \<open>9999-12-31T23:59:59Z.\<close>

definition EVENT_WAKE_FAR_FUTURE :: timestamp where
  "EVENT_WAKE_FAR_FUTURE = seconds 253402300799"

definition wake_filter_check :: "event_codec \<Rightarrow> string \<Rightarrow> event_error + unit" where
  "wake_filter_check J wake_filter_json =
     (if wake_filter_json = [] then Inr ()
      else case json_of J wake_filter_json of
        None \<Rightarrow> Inl (EventOther ''wake filter JSON is invalid'')
      | Some parsed \<Rightarrow>
          if is_object parsed then Inr () else Inl (EventOther ''wake filter JSON must be an object''))"

definition suspend_delivery_row ::
  "delivery_row \<Rightarrow> timestamp \<Rightarrow> string \<Rightarrow> int \<Rightarrow> timestamp \<Rightarrow> string \<Rightarrow> string \<Rightarrow> string \<Rightarrow> delivery_row \<Rightarrow> delivery_row" where
  "suspend_delivery_row row now checkpoint version wake_at wake_type wake_filter wake_grants r =
     r\<lparr>d_state := ''pending'',
       d_run_after := (if wake_type \<noteq> [] \<and> wake_at div 1000000 \<le> 0 then EVENT_WAKE_FAR_FUTURE else wake_at),
       d_checkpoint_json := Some checkpoint, d_checkpoint_schema_version := version,
       d_invocation_sequence := d_invocation_sequence row + 1, d_resume_pending := 1,
       d_wake_event_type := wake_type, d_wake_filter_json := wake_filter, d_wake_grants_json := wake_grants,
       d_lease_owner := None, d_lease_expires_at := None, d_updated_at := now\<rparr>"

definition suspend_event_delivery_from ::
  "delivery_row option \<Rightarrow> event_codec \<Rightarrow> timestamp \<Rightarrow> EventDeliveryFence \<Rightarrow> string \<Rightarrow> int \<Rightarrow> timestamp
   \<Rightarrow> string \<Rightarrow> string \<Rightarrow> string \<Rightarrow> outbox \<Rightarrow> outbox \<times> (event_error + bool)" where
  "suspend_event_delivery_from reading J now f checkpoint version wake_at wake_type0 wake_filter0 wake_grants db =
     (let wake_type = trim wake_type0; wake_filter = trim wake_filter0 in
      if 65536 < length checkpoint then
        (db, Inl (EventOther (''event checkpoint of '' @ nat_str (length checkpoint) @ '' bytes exceeds 65536'')))
      else case (if wake_type = [] then Inr () else validate_wake_event_type wake_type) of
        Inl err \<Rightarrow> (db, Inl err)
      | Inr () \<Rightarrow>
          (case wake_filter_check J wake_filter of
             Inl err \<Rightarrow> (db, Inl err)
           | Inr () \<Rightarrow>
               (case reading of
                  None \<Rightarrow> (db, Inr False)
                | Some row \<Rightarrow>
                    if \<not> (d_running row \<and> d_lease_owner row = Some (df_owner f) \<and> d_lease_generation row = df_generation f)
                    then (db, Inr False)
                    else (case d_cas (d_fenced f)
                              (suspend_delivery_row row now checkpoint version wake_at wake_type wake_filter wake_grants) db of
                            (db', hit) \<Rightarrow>
                              if hit then (bump_event_stats 0 1 0 None None db', Inr True) else (db', Inr False)))))"

definition suspend_event_delivery ::
  "event_codec \<Rightarrow> timestamp \<Rightarrow> EventDeliveryFence \<Rightarrow> string \<Rightarrow> int \<Rightarrow> timestamp
   \<Rightarrow> string \<Rightarrow> string \<Rightarrow> string \<Rightarrow> outbox \<Rightarrow> outbox \<times> (event_error + bool)" where
  "suspend_event_delivery J now f checkpoint version wake_at wake_type wake_filter wake_grants db =
     suspend_event_delivery_from (find_by d_id (df_delivery_id f) (event_deliveries db))
       J now f checkpoint version wake_at wake_type wake_filter wake_grants db"

definition fail_event_delivery_from ::
  "delivery_row option \<Rightarrow> delivery_row option \<Rightarrow> timestamp \<Rightarrow> EventDeliveryFence \<Rightarrow> string \<Rightarrow> outbox \<Rightarrow> outbox \<times> bool" where
  "fail_event_delivery_from reading reading2 now f reason db =
     (case reading of
        None \<Rightarrow> (db, False)
      | Some row \<Rightarrow>
          if \<not> (d_running row \<and> d_lease_owner row = Some (df_owner f) \<and> d_lease_generation row = df_generation f)
          then (db, False)
          else if d_max_attempts row \<le> d_attempt_count row then dead_letter_event_delivery now f reason db
          else retry_event_delivery_from reading2 now f (job_backoff_run_after (d_attempt_count row) now) reason db)"

definition fail_event_delivery ::
  "timestamp \<Rightarrow> EventDeliveryFence \<Rightarrow> string \<Rightarrow> outbox \<Rightarrow> outbox \<times> bool" where
  "fail_event_delivery now f reason db =
     (let reading = find_by d_id (df_delivery_id f) (event_deliveries db)
      in fail_event_delivery_from reading reading now f reason db)"

section \<open>Reclaiming\<close>

definition d_lease_expired :: "timestamp \<Rightarrow> delivery_row \<Rightarrow> bool" where
  "d_lease_expired now r = (case d_lease_expires_at r of None \<Rightarrow> True | Some t \<Rightarrow> t \<le> now)"

definition cancelled_delivery :: "timestamp \<Rightarrow> delivery_row \<Rightarrow> delivery_row" where
  "cancelled_delivery now r =
     r\<lparr>d_state := ''rejected'', d_outcome := Some ''reject'', d_error_message := Some ''cancelled by operator'',
       d_lease_owner := None, d_lease_expires_at := None, d_cancel_requested := 0, d_updated_at := now\<rparr>"

definition reclaimed_delivery :: "timestamp \<Rightarrow> delivery_row \<Rightarrow> delivery_row" where
  "reclaimed_delivery now r =
     r\<lparr>d_state := ''pending'', d_lease_owner := None, d_lease_expires_at := None, d_updated_at := now,
       d_resume_pending := (if d_checkpoint_json r \<noteq> None then 1 else d_resume_pending r)\<rparr>"

definition reclaim_cancelled :: "timestamp \<Rightarrow> outbox \<Rightarrow> outbox \<times> nat" where
  "reclaim_cancelled now db =
     (let P = (\<lambda>r. d_running r \<and> d_cancel_requested r = 1 \<and> d_lease_expired now r)
      in (db\<lparr>event_deliveries := update_many P (cancelled_delivery now) (event_deliveries db)\<rparr>,
          rows_affected P (event_deliveries db)))"

definition reclaim_pending :: "timestamp \<Rightarrow> outbox \<Rightarrow> outbox \<times> nat" where
  "reclaim_pending now db =
     (let P = (\<lambda>r. d_running r \<and> d_lease_expired now r);
          n = rows_affected P (event_deliveries db);
          db' = db\<lparr>event_deliveries := update_many P (reclaimed_delivery now) (event_deliveries db)\<rparr>
      in (if 0 < n then bump_event_stats (i64_or 0 n) 0 0 None None db' else db', n))"

definition reclaim_expired_event_deliveries :: "timestamp \<Rightarrow> outbox \<Rightarrow> outbox \<times> nat" where
  "reclaim_expired_event_deliveries now db =
     (case reclaim_cancelled now db of
        (db1, cancelled) \<Rightarrow>
          (case reclaim_pending now db1 of (db2, n) \<Rightarrow> (db2, min U32_MAX (cancelled + n))))"

section \<open>Operator actions\<close>

definition get_event_delivery :: "string \<Rightarrow> outbox \<Rightarrow> EventDeliveryRecord option" where
  "get_event_delivery did db = map_option map_delivery (find_by d_id did (event_deliveries db))"

definition retry_dead_letter_delivery :: "timestamp \<Rightarrow> string \<Rightarrow> outbox \<Rightarrow> outbox \<times> bool" where
  "retry_dead_letter_delivery now did =
     d_cas (\<lambda>r. d_id r = did \<and> d_state r = ''dead_letter'')
       (\<lambda>r. r\<lparr>d_state := ''pending'', d_run_after := now, d_outcome := None, d_error_message := None,
              d_attempt_count := 0, d_resume_pending := 0, d_invocation_sequence := 0,
              d_checkpoint_json := None, d_checkpoint_schema_version := 0, d_updated_at := now\<rparr>)"

definition acknowledge_dead_letter_delivery :: "timestamp \<Rightarrow> string \<Rightarrow> outbox \<Rightarrow> outbox \<times> bool" where
  "acknowledge_dead_letter_delivery now did =
     d_cas (\<lambda>r. d_id r = did \<and> d_state r = ''dead_letter'')
       (\<lambda>r. r\<lparr>d_state := ''rejected'', d_outcome := Some ''ack'', d_updated_at := now\<rparr>)"

definition cancel_pending_delivery :: "timestamp \<Rightarrow> string \<Rightarrow> outbox \<Rightarrow> outbox \<times> bool" where
  "cancel_pending_delivery now did =
     d_cas (\<lambda>r. d_id r = did \<and> d_pending r)
       (\<lambda>r. r\<lparr>d_state := ''rejected'', d_outcome := Some ''reject'',
              d_error_message := Some ''cancelled by operator'', d_cancel_requested := 0, d_updated_at := now\<rparr>)"

definition flag_running_delivery :: "timestamp \<Rightarrow> string \<Rightarrow> outbox \<Rightarrow> outbox \<times> bool" where
  "flag_running_delivery now did =
     d_cas (\<lambda>r. d_id r = did \<and> d_running r) (\<lambda>r. r\<lparr>d_cancel_requested := 1, d_updated_at := now\<rparr>)"

text \<open>One round of the cancel loop: \<open>None\<close> when it has to look again.\<close>

definition cancel_round :: "timestamp \<Rightarrow> string \<Rightarrow> outbox \<Rightarrow> outbox \<times> EventDeliveryRecord option option" where
  "cancel_round now did db =
     (case find_by d_id did (event_deliveries db) of
        None \<Rightarrow> (db, Some None)
      | Some model \<Rightarrow>
          if \<not> d_pending model \<and> \<not> d_running model then (db, Some (Some (map_delivery model)))
          else case (if d_pending model then cancel_pending_delivery now did db else flag_running_delivery now did db) of
            (db', hit) \<Rightarrow> (db', if hit then Some (get_event_delivery did db') else None))"

fun cancel_loop :: "nat \<Rightarrow> timestamp \<Rightarrow> string \<Rightarrow> outbox \<Rightarrow> outbox \<times> EventDeliveryRecord option" where
  "cancel_loop 0 now did db = (db, get_event_delivery did db)"
| "cancel_loop (Suc n) now did db =
     (case cancel_round now did db of
        (db', Some res) \<Rightarrow> (db', res)
      | (db', None) \<Rightarrow> cancel_loop n now did db')"

definition request_event_delivery_cancel :: "timestamp \<Rightarrow> string \<Rightarrow> outbox \<Rightarrow> outbox \<times> EventDeliveryRecord option" where
  "request_event_delivery_cancel = cancel_loop 16"

definition event_delivery_cancel_requested :: "string \<Rightarrow> outbox \<Rightarrow> bool" where
  "event_delivery_cancel_requested did db =
     (case find_by d_id did (event_deliveries db) of None \<Rightarrow> False | Some model \<Rightarrow> d_cancel_requested model \<noteq> 0)"

definition resume_event_delivery :: "timestamp \<Rightarrow> string \<Rightarrow> outbox \<Rightarrow> outbox \<times> bool" where
  "resume_event_delivery now did =
     d_cas (\<lambda>r. d_id r = did \<and> d_pending r \<and> d_checkpoint_json r \<noteq> None)
       (\<lambda>r. r\<lparr>d_run_after := now, d_resume_pending := 1, d_updated_at := now\<rparr>)"

section \<open>Retention\<close>

definition prune_delivery :: "timestamp \<Rightarrow> nat \<Rightarrow> nat \<Rightarrow> delivery_row \<Rightarrow> bool" where
  "prune_delivery now retention_days dead_letter_retention_days r \<longleftrightarrow>
     d_state r \<in> {''acked'', ''rejected''} \<and> d_updated_at r \<le> now - days (i64_or 7 retention_days)
     \<or> d_state r = ''dead_letter'' \<and> d_updated_at r \<le> now - days (i64_or 30 dead_letter_retention_days)"

definition prune_event_deliveries :: "timestamp \<Rightarrow> nat \<Rightarrow> nat \<Rightarrow> outbox \<Rightarrow> outbox \<times> nat" where
  "prune_event_deliveries now retention_days dead_letter_retention_days db =
     (let terminal_cutoff = now - days (i64_or 7 retention_days);
          dead_letter_cutoff = now - days (i64_or 30 dead_letter_retention_days);
          heartbeat_cutoff = now - seconds EVENT_SUBSCRIBER_HEARTBEAT_TTL_SECS;
          A = (\<lambda>r. d_state r \<in> {''acked'', ''rejected''} \<and> d_updated_at r \<le> terminal_cutoff);
          D = (\<lambda>r. d_state r = ''dead_letter'' \<and> d_updated_at r \<le> dead_letter_cutoff);
          H = (\<lambda>n. n_heartbeat_at n < heartbeat_cutoff);
          ds1 = delete_many A (event_deliveries db);
          ds2 = delete_many D ds1;
          E = (\<lambda>e. e_dispatch_state e = ''dispatched'' \<and> e_created_at e \<le> terminal_cutoff
                   \<and> \<not> (\<exists>r \<in> set ds2. d_event_id r = e_id e))
      in (db\<lparr>event_deliveries := ds2,
             event_subscriber_nodes := delete_many H (event_subscriber_nodes db),
             domain_events := delete_many E (domain_events db)\<rparr>,
          rows_affected A (event_deliveries db) + rows_affected D ds1
          + rows_affected H (event_subscriber_nodes db) + rows_affected E (domain_events db)))"

section \<open>Status counters\<close>

definition count_event_deliveries :: "string \<Rightarrow> outbox \<Rightarrow> int" where
  "count_event_deliveries state db = int (rows_affected (\<lambda>r. d_state r = state) (event_deliveries db))"

record EventDeliveryMetrics =
  dm_pending :: int
  dm_running :: int
  dm_suspended :: int
  dm_dead_letter :: int
  dm_acked :: int
  dm_oldest_pending_age_secs :: "int option"
  dm_retries_total :: int
  dm_suspensions_total :: int
  dm_dead_letters_total :: int
  dm_dispatch_latency_ms_avg :: "int option"
  dm_handler_latency_ms_avg :: "int option"

definition average :: "int \<Rightarrow> int \<Rightarrow> int option" where
  "average sum_ms n = (if 0 < n then Some (sum_ms div n) else None)"

definition event_delivery_metrics :: "timestamp \<Rightarrow> outbox \<Rightarrow> EventDeliveryMetrics" where
  "event_delivery_metrics now db =
     (let suspended = int (rows_affected (\<lambda>r. d_pending r \<and> d_checkpoint_json r \<noteq> None) (event_deliveries db));
          oldest = order_by d_created_at (filter d_pending (event_deliveries db));
          stats = ensure_event_outbox_stats db
      in \<lparr>dm_pending = max 0 (count_event_deliveries ''pending'' db - suspended),
          dm_running = count_event_deliveries ''running'' db, dm_suspended = suspended,
          dm_dead_letter = count_event_deliveries ''dead_letter'' db,
          dm_acked = count_event_deliveries ''acked'' db,
          dm_oldest_pending_age_secs =
            (case oldest of [] \<Rightarrow> None | r # _ \<Rightarrow> Some (max 0 ((now - d_created_at r) div 1000000000))),
          dm_retries_total = st_retries_total stats, dm_suspensions_total = st_suspensions_total stats,
          dm_dead_letters_total = st_dead_letters_total stats,
          dm_dispatch_latency_ms_avg = average (st_dispatch_latency_ms_sum stats) (st_dispatch_count stats),
          dm_handler_latency_ms_avg = average (st_handler_latency_ms_sum stats) (st_handler_count stats)\<rparr>)"

end
