(* ===== verification/Event_Wake.thy ===== *)
theory Event_Wake
  imports Event_Delivery
begin

text \<open>
  Event-driven wakes: a published event is \<open>wake_pending\<close> until a pass over the suspended deliveries
  that wait for its type has finished. The pass is paged; a page runs under a lease with a fresh token,
  and the cursor of the next page is stored with the event.
\<close>

function chunks :: "nat \<Rightarrow> 'a list \<Rightarrow> 'a list list" where
  "chunks n xs = (if xs = [] then [] else take (max 1 n) xs # chunks n (drop (max 1 n) xs))"
  by pat_completeness auto
termination
  by (relation "measure (\<lambda>(n, xs). length xs)") auto

declare chunks.simps [simp del]

definition WAKE_UPDATE_FIXED_BINDS :: nat where
  "WAKE_UPDATE_FIXED_BINDS = 4"

definition wake_in_chunk_size :: "nat \<Rightarrow> nat" where
  "wake_in_chunk_size max_binds = max 1 (max_binds - WAKE_UPDATE_FIXED_BINDS)"

text \<open>The page size of a wake pass.\<close>

definition wake_page_for_max_binds :: "nat \<Rightarrow> nat" where
  "wake_page_for_max_binds max_binds = min 256 (max 8 (max_binds - 4))"

definition wake_holds :: "string \<Rightarrow> string \<Rightarrow> event_row \<Rightarrow> bool" where
  "wake_holds event_id owner e \<longleftrightarrow>
     e_id e = event_id \<and> e_wake_pending e = 1 \<and> e_wake_lease_owner e = Some owner"

definition woken_delivery :: "timestamp \<Rightarrow> delivery_row \<Rightarrow> delivery_row" where
  "woken_delivery now r =
     r\<lparr>d_run_after := now, d_resume_pending := 1, d_wake_event_type := [], d_wake_filter_json := [],
       d_wake_grants_json := [], d_updated_at := now\<rparr>"

text \<open>\<open>wake_fenced_update_sql\<close> on one chunk of ids.\<close>

definition wake_chunk :: "string \<Rightarrow> string \<Rightarrow> timestamp \<Rightarrow> string list \<Rightarrow> outbox \<Rightarrow> outbox \<times> nat" where
  "wake_chunk event_id owner now ids db =
     (let P = (\<lambda>r. d_id r \<in> set ids \<and> d_pending r \<and> (\<exists>e \<in> set (domain_events db). wake_holds event_id owner e))
      in (db\<lparr>event_deliveries := update_many P (woken_delivery now) (event_deliveries db)\<rparr>,
          rows_affected P (event_deliveries db)))"

fun wake_chunks :: "string \<Rightarrow> string \<Rightarrow> timestamp \<Rightarrow> string list list \<Rightarrow> nat \<Rightarrow> outbox \<Rightarrow> outbox \<times> nat" where
  "wake_chunks event_id owner now [] woken db = (db, woken)"
| "wake_chunks event_id owner now (ids # rest) woken db =
     (case wake_chunk event_id owner now ids db of
        (db', affected) \<Rightarrow>
          wake_chunks event_id owner now rest
            (u32_saturating_add woken (if affected \<le> U32_MAX then affected else 0)) db')"

definition wake_deliveries_fenced_on ::
  "string \<Rightarrow> string \<Rightarrow> string list \<Rightarrow> timestamp \<Rightarrow> nat \<Rightarrow> outbox \<Rightarrow> outbox \<times> nat" where
  "wake_deliveries_fenced_on event_id owner ids now max_binds db =
     (if ids = [] then (db, 0)
      else wake_chunks event_id owner now (chunks (wake_in_chunk_size max_binds) ids) 0 db)"

definition e_cas :: "(event_row \<Rightarrow> bool) \<Rightarrow> (event_row \<Rightarrow> event_row) \<Rightarrow> outbox \<Rightarrow> outbox \<times> bool" where
  "e_cas P f db =
     (db\<lparr>domain_events := update_many P f (domain_events db)\<rparr>, rows_affected P (domain_events db) = 1)"

definition release_wake_cursor_on ::
  "string \<Rightarrow> string \<Rightarrow> timestamp option \<Rightarrow> string \<Rightarrow> outbox \<Rightarrow> outbox \<times> bool" where
  "release_wake_cursor_on event_id owner cursor_at cursor_id =
     e_cas (wake_holds event_id owner)
       (\<lambda>e. e\<lparr>e_wake_cursor_at := cursor_at, e_wake_cursor_id := cursor_id, e_wake_lease_owner := None,
              e_wake_lease_expires_at := None\<rparr>)"

definition finish_wake_on :: "string \<Rightarrow> string \<Rightarrow> outbox \<Rightarrow> outbox \<times> bool" where
  "finish_wake_on event_id owner =
     e_cas (wake_holds event_id owner)
       (\<lambda>e. e\<lparr>e_wake_pending := 0, e_wake_lease_owner := None, e_wake_lease_expires_at := None,
              e_wake_cursor_at := None, e_wake_cursor_id := []\<rparr>)"

definition after_wake_cursor :: "event_row \<Rightarrow> delivery_row \<Rightarrow> bool" where
  "after_wake_cursor row r =
     (case e_wake_cursor_at row of
        None \<Rightarrow> True
      | Some t \<Rightarrow> t < d_created_at r \<or> d_created_at r = t \<and> e_wake_cursor_id row < d_id r)"

definition waits_for :: "event_row \<Rightarrow> delivery_row \<Rightarrow> bool" where
  "waits_for row r \<longleftrightarrow> d_pending r \<and> d_wake_event_type r = e_event_type row \<and> d_event_id r \<noteq> e_id row"

definition wake_page_rows :: "nat \<Rightarrow> event_row \<Rightarrow> outbox \<Rightarrow> delivery_row list" where
  "wake_page_rows page row db =
     take page (order_by claim_key
       (filter (\<lambda>r. waits_for row r \<and> after_wake_cursor row r) (event_deliveries db)))"

definition wake_matches :: "event_codec \<Rightarrow> outbox \<Rightarrow> event_row \<Rightarrow> delivery_row \<Rightarrow> bool" where
  "wake_matches J db row r \<longleftrightarrow>
     map_option e_account_id (find_by e_id (d_event_id r) (domain_events db)) = Some (e_account_id row)
     \<and> event_matches_wake_grants J (d_wake_grants_json r) (d_wake_filter_json r) (e_schema_version row) (e_payload row)"

definition wake_one_page_on ::
  "event_codec \<Rightarrow> timestamp \<Rightarrow> event_row \<Rightarrow> string \<Rightarrow> nat \<Rightarrow> nat \<Rightarrow> outbox \<Rightarrow> outbox \<times> nat" where
  "wake_one_page_on J now row owner page max_binds db =
     (if trim (e_event_type row) = [] then (fst (finish_wake_on (e_id row) owner db), 0)
      else
        let rows = wake_page_rows page row db in
        if rows = [] then (fst (finish_wake_on (e_id row) owner db), 0)
        else
          let ids = map d_id (filter (wake_matches J db row) rows) in
          case wake_deliveries_fenced_on (e_id row) owner ids now max_binds db of
            (db', woken) \<Rightarrow>
              if length rows < page then (fst (finish_wake_on (e_id row) owner db'), woken)
              else (fst (release_wake_cursor_on (e_id row) owner (Some (d_created_at (last rows))) (d_id (last rows)) db'),
                    woken))"

definition wake_lease_free :: "timestamp \<Rightarrow> event_row \<Rightarrow> bool" where
  "wake_lease_free now e \<longleftrightarrow> (case e_wake_lease_expires_at e of None \<Rightarrow> True | Some t \<Rightarrow> t \<le> now)"

definition wake_claimable :: "timestamp \<Rightarrow> event_row \<Rightarrow> bool" where
  "wake_claimable now e \<longleftrightarrow> e_wake_pending e = 1 \<and> wake_lease_free now e"

definition claim_wake :: "timestamp \<Rightarrow> nat \<Rightarrow> string \<Rightarrow> string \<Rightarrow> outbox \<Rightarrow> outbox \<times> bool" where
  "claim_wake now lease_secs token event_id =
     e_cas (\<lambda>e. e_id e = event_id \<and> wake_claimable now e)
       (\<lambda>e. e\<lparr>e_wake_lease_owner := Some token, e_wake_lease_expires_at := Some (lease_until now lease_secs)\<rparr>)"

text \<open>One candidate of a tick: the number of claims (0 or 1) and whether the event is still pending.\<close>

definition wake_event ::
  "event_codec \<Rightarrow> timestamp \<Rightarrow> nat \<Rightarrow> nat \<Rightarrow> nat \<Rightarrow> string \<Rightarrow> string \<Rightarrow> outbox \<Rightarrow> outbox \<times> nat \<times> bool" where
  "wake_event J now lease_secs page max_binds token event_id db =
     (case claim_wake now lease_secs token event_id db of
        (db1, hit) \<Rightarrow>
          if \<not> hit then (db1, 0, False)
          else case find_by e_id event_id (domain_events db1) of
            None \<Rightarrow> (db1, 1, False)
          | Some fresh \<Rightarrow>
              let db2 = fst (wake_one_page_on J now fresh token page max_binds db1)
              in (db2, 1, (case find_by e_id event_id (domain_events db2) of
                             None \<Rightarrow> False | Some after \<Rightarrow> e_wake_pending after \<noteq> 0)))"

record PendingWakeProgress =
  wp_claimed :: nat
  wp_still_pending :: bool

fun wake_events ::
  "event_codec \<Rightarrow> timestamp \<Rightarrow> nat \<Rightarrow> nat \<Rightarrow> nat \<Rightarrow> (string \<Rightarrow> string) \<Rightarrow> string list \<Rightarrow> PendingWakeProgress \<Rightarrow> outbox
   \<Rightarrow> outbox \<times> PendingWakeProgress" where
  "wake_events J now lease_secs page max_binds token [] p db = (db, p)"
| "wake_events J now lease_secs page max_binds token (i # ids) p db =
     (case wake_event J now lease_secs page max_binds (token i) i db of
        (db', n, still) \<Rightarrow>
          wake_events J now lease_secs page max_binds token ids
            (p\<lparr>wp_claimed := u32_saturating_add (wp_claimed p) n, wp_still_pending := wp_still_pending p \<or> still\<rparr>) db')"

definition process_pending_wakes ::
  "event_codec \<Rightarrow> timestamp \<Rightarrow> nat \<Rightarrow> nat \<Rightarrow> nat \<Rightarrow> (string \<Rightarrow> string) \<Rightarrow> nat \<Rightarrow> outbox \<Rightarrow> outbox \<times> PendingWakeProgress" where
  "process_pending_wakes J now limit page max_binds token lease_secs db =
     (let candidates = take (max 1 limit)
            (order_by (\<lambda>e. (e_created_at e, e_id e)) (filter (wake_claimable now) (domain_events db)))
      in wake_events J now lease_secs page max_binds token (map e_id candidates)
           \<lparr>wp_claimed = 0, wp_still_pending = max 1 limit \<le> length candidates\<rparr> db)"

end
