(* ===== verification/Event_Steps.thy ===== *)
theory Event_Steps
  imports Event_Wake Fenced_Lease
begin

text \<open>
  The outbox as a concurrent system: publishers, the dispatcher, workers on several nodes, the
  reclaimer and operators each issue the statements of \<open>Event_Outbox\<close> and \<open>Event_Delivery\<close> in any order.
  An operation that decides on an earlier reading of a row may have read anything: its reading is
  arbitrary here. Retention is not one of these steps: a pruned delivery may be created again with the
  same id, so fences are only comparable between two prunes; its own safety is stated separately.
\<close>

section \<open>Well-formed outboxes\<close>

definition delivery_states :: "string list" where
  "delivery_states = [''pending'', ''running'', ''acked'', ''rejected'', ''dead_letter'']"

definition delivery_ok :: "delivery_row \<Rightarrow> bool" where
  "delivery_ok r \<longleftrightarrow>
     d_state r \<in> set delivery_states
     \<and> (d_running r \<longrightarrow> d_lease_owner r \<noteq> None \<and> d_lease_expires_at r \<noteq> None \<and> 1 \<le> d_attempt_count r)
     \<and> (\<not> d_running r \<longrightarrow> d_lease_owner r = None \<and> d_lease_expires_at r = None)
     \<and> 0 \<le> d_attempt_count r \<and> 0 \<le> d_lease_generation r
     \<and> d_max_attempts r = EVENT_DELIVERY_MAX_ATTEMPTS \<and> d_resource_class r = EVENT_RESOURCE_CLASS_NETWORK
     \<and> d_id r = d_event_id r @ '':'' @ d_plugin_id r \<and> d_idempotency_key r = d_id r
     \<and> d_cancel_requested r \<in> {0, 1} \<and> d_resume_pending r \<in> {0, 1}"

definition event_ok :: "event_row \<Rightarrow> bool" where
  "event_ok e \<longleftrightarrow> e_dispatch_state e \<in> {''pending'', ''dispatched''} \<and> e_wake_pending e \<in> {0, 1}
     \<and> 1 \<le> e_schema_version e \<and> length (e_payload e) \<le> MAX_PAYLOAD"

definition event_key :: "event_row \<Rightarrow> string \<times> string \<times> string \<times> string" where
  "event_key e = (e_account_id e, e_source e, e_event_type e, e_dedup_key e)"

definition outbox_ok :: "outbox \<Rightarrow> bool" where
  "outbox_ok db \<longleftrightarrow>
     distinct (map d_id (event_deliveries db))
     \<and> distinct (map (\<lambda>r. (d_event_id r, d_plugin_id r)) (event_deliveries db))
     \<and> list_all delivery_ok (event_deliveries db)
     \<and> distinct (map e_id (domain_events db)) \<and> distinct (map event_key (domain_events db))
     \<and> list_all event_ok (domain_events db)
     \<and> d_event_id ` set (event_deliveries db) \<subseteq> e_id ` set (domain_events db)"

text \<open>How a statement other than a claim may change a delivery, and what a claim does.\<close>

definition d_same :: "delivery_row \<Rightarrow> delivery_row \<Rightarrow> bool" where
  "d_same r r' \<longleftrightarrow>
     d_id r' = d_id r \<and> d_event_id r' = d_event_id r \<and> d_plugin_id r' = d_plugin_id r
     \<and> d_ordering_key r' = d_ordering_key r \<and> d_created_at r' = d_created_at r"

definition d_evolves :: "delivery_row \<Rightarrow> delivery_row \<Rightarrow> bool" where
  "d_evolves r r' \<longleftrightarrow>
     d_same r r' \<and> (d_state r \<in> {''acked'', ''rejected''} \<longrightarrow> r' = r)
     \<and> d_lease_generation r' = d_lease_generation r
     \<and> (d_running r' \<longrightarrow> d_running r \<and> d_lease_owner r' = d_lease_owner r \<and> d_attempt_count r' = d_attempt_count r)"

definition d_claims :: "delivery_row \<Rightarrow> delivery_row \<Rightarrow> bool" where
  "d_claims r r' \<longleftrightarrow>
     d_same r r' \<and> d_pending r \<and> d_running r' \<and> d_lease_generation r' = d_lease_generation r + 1"

lemmas d_state_defs = d_pending_def d_running_def

lemma d_evolves_refl [simp]: "d_evolves r r"
  by (auto simp: d_evolves_def d_same_def d_state_defs)

definition e_evolves :: "event_row \<Rightarrow> event_row \<Rightarrow> bool" where
  "e_evolves e e' \<longleftrightarrow> e_id e' = e_id e \<and> event_key e' = event_key e \<and> e_created_at e' = e_created_at e
     \<and> e_payload e' = e_payload e \<and> e_ordering_key e' = e_ordering_key e
     \<and> (e_dispatch_state e = ''dispatched'' \<longrightarrow> e_dispatch_state e' = ''dispatched'')"

lemma e_evolves_refl [simp]: "e_evolves e e"
  by (simp add: e_evolves_def)

text \<open>Rows change in place, as \<open>d_evolves\<close> and \<open>e_evolves\<close> allow.\<close>

definition evolves_in_place :: "outbox \<Rightarrow> outbox \<Rightarrow> bool" where
  "evolves_in_place db db' \<longleftrightarrow>
     list_all2 (\<lambda>e e'. e_evolves e e' \<and> event_ok e') (domain_events db) (domain_events db')
     \<and> list_all2 (\<lambda>r r'. d_evolves r r' \<and> delivery_ok r') (event_deliveries db) (event_deliveries db')"

lemma outbox_okD:
  assumes "outbox_ok db"
  shows "distinct (map d_id (event_deliveries db))" "r \<in> set (event_deliveries db) \<Longrightarrow> delivery_ok r"
    "distinct (map e_id (domain_events db))" "e \<in> set (domain_events db) \<Longrightarrow> event_ok e"
    "distinct (map event_key (domain_events db))"
  using assms by (auto simp: outbox_ok_def list_all_iff)

lemma list_all2_update_many:
  assumes "\<And>r. r \<in> set xs \<Longrightarrow> P r \<Longrightarrow> R r (f r)" and "\<And>r. r \<in> set xs \<Longrightarrow> \<not> P r \<Longrightarrow> R r r"
  shows "list_all2 R xs (update_many P f xs)"
  using assms by (auto simp: update_many_def list_all2_map2 intro!: list.rel_refl_strong)

lemma evolves_update_deliveries:
  assumes "outbox_ok db" and "event_deliveries db' = update_many P f (event_deliveries db)"
    and "domain_events db' = domain_events db"
    and "\<And>r. r \<in> set (event_deliveries db) \<Longrightarrow> delivery_ok r \<Longrightarrow> P r \<Longrightarrow> d_evolves r (f r) \<and> delivery_ok (f r)"
  shows "evolves_in_place db db'"
  using assms outbox_okD [OF assms(1)]
  by (auto simp: evolves_in_place_def intro!: list_all2_update_many list.rel_refl_strong)

lemma evolves_update_events:
  assumes "outbox_ok db" and "domain_events db' = update_many P f (domain_events db)"
    and "event_deliveries db' = event_deliveries db"
    and "\<And>e. e \<in> set (domain_events db) \<Longrightarrow> event_ok e \<Longrightarrow> P e \<Longrightarrow> e_evolves e (f e) \<and> event_ok (f e)"
  shows "evolves_in_place db db'"
  using assms outbox_okD [OF assms(1)]
  by (auto simp: evolves_in_place_def intro!: list_all2_update_many list.rel_refl_strong)

lemma evolves_cas:
  assumes "outbox_ok db"
    and "\<And>r. r \<in> set (event_deliveries db) \<Longrightarrow> delivery_ok r \<Longrightarrow> P r \<Longrightarrow> d_evolves r (f r) \<and> delivery_ok (f r)"
  shows "evolves_in_place db (fst (d_cas P f db))"
  using assms by (intro evolves_update_deliveries [where P = P and f = f]) (auto simp: d_cas_def)

lemma evolves_e_cas:
  assumes "outbox_ok db"
    and "\<And>e. e \<in> set (domain_events db) \<Longrightarrow> event_ok e \<Longrightarrow> P e \<Longrightarrow> e_evolves e (f e) \<and> event_ok (f e)"
  shows "evolves_in_place db (fst (e_cas P f db))"
  using assms by (intro evolves_update_events [where P = P and f = f]) (auto simp: e_cas_def)

lemma list_all2_map_eq: "list_all2 P xs ys \<Longrightarrow> (\<And>x y. P x y \<Longrightarrow> f y = f x) \<Longrightarrow> map f ys = map f xs"
  by (induction rule: list_all2_induct) auto

lemma list_all2_all: "list_all2 (\<lambda>x y. P x y \<and> Q y) xs ys \<Longrightarrow> list_all Q ys"
  by (induction rule: list_all2_induct) auto

text \<open>Keeping every row and its keys is enough for well-formedness.\<close>

definition keeps_rows :: "outbox \<Rightarrow> outbox \<Rightarrow> bool" where
  "keeps_rows db db' \<longleftrightarrow>
     list_all2 (\<lambda>e e'. e_evolves e e' \<and> event_ok e') (domain_events db) (domain_events db')
     \<and> list_all2 (\<lambda>r r'. d_same r r' \<and> delivery_ok r') (event_deliveries db) (event_deliveries db')"

lemma evolves_keeps_rows: "evolves_in_place db db' \<Longrightarrow> keeps_rows db db'"
  unfolding evolves_in_place_def keeps_rows_def by (auto simp: d_evolves_def elim: list_all2_mono)

lemma keeps_rows_keys:
  assumes "keeps_rows db db'"
  shows "map d_id (event_deliveries db') = map d_id (event_deliveries db)"
    "map (\<lambda>r. (d_event_id r, d_plugin_id r)) (event_deliveries db') = map (\<lambda>r. (d_event_id r, d_plugin_id r)) (event_deliveries db)"
    "map d_event_id (event_deliveries db') = map d_event_id (event_deliveries db)"
    "map e_id (domain_events db') = map e_id (domain_events db)"
    "map event_key (domain_events db') = map event_key (domain_events db)"
  using assms unfolding keeps_rows_def
  by (auto simp: d_same_def e_evolves_def elim!: list_all2_map_eq)

lemma outbox_ok_keeps_rows:
  assumes "outbox_ok db" and "keeps_rows db db'"
  shows "outbox_ok db'"
proof -
  have "list_all delivery_ok (event_deliveries db')" "list_all event_ok (domain_events db')"
    using assms(2) by (auto simp: keeps_rows_def dest: list_all2_all)
  moreover have "d_event_id ` set (event_deliveries db') = d_event_id ` set (event_deliveries db)"
    "e_id ` set (domain_events db') = e_id ` set (domain_events db)"
    using keeps_rows_keys [OF assms(2)] by (metis set_map)+
  ultimately show ?thesis
    using assms(1) keeps_rows_keys [OF assms(2)] unfolding outbox_ok_def by simp
qed

lemmas outbox_ok_evolves = outbox_ok_keeps_rows [OF _ evolves_keeps_rows]

lemma evolves_trans:
  assumes "evolves_in_place a b" and "evolves_in_place b c"
  shows "evolves_in_place a c"
  unfolding evolves_in_place_def
proof
  show "list_all2 (\<lambda>e e'. e_evolves e e' \<and> event_ok e') (domain_events a) (domain_events c)"
    by (rule list_all2_trans [OF _ assms [unfolded evolves_in_place_def, THEN conjunct1]]) (simp add: e_evolves_def)
  show "list_all2 (\<lambda>r r'. d_evolves r r' \<and> delivery_ok r') (event_deliveries a) (event_deliveries c)"
    by (rule list_all2_trans [OF _ assms [unfolded evolves_in_place_def, THEN conjunct2]])
      (auto simp: d_evolves_def d_same_def)
qed

lemma in_place_refl: "outbox_ok db \<Longrightarrow> evolves_in_place db db"
  by (auto simp: evolves_in_place_def outbox_okD intro!: list.rel_refl_strong)

section \<open>The fenced outcomes\<close>

lemma outbox_ok_bump [simp]: "outbox_ok (bump_event_stats a b c x y db) = outbox_ok db"
  by (simp add: bump_event_stats_def outbox_ok_def Let_def split: prod.split)

lemma evolves_bump [simp]: "evolves_in_place db (bump_event_stats a b c x y db') = evolves_in_place db db'"
  by (simp add: bump_event_stats_def evolves_in_place_def Let_def split: prod.split)

lemmas delivery_row_defs = d_evolves_def d_same_def delivery_ok_def delivery_states_def d_state_defs

lemma fenced_evolves:
  assumes "outbox_ok db"
  shows "evolves_in_place db (fst (release_unexecuted_event_delivery now f b db))"
    and "evolves_in_place db (fst (heartbeat_event_delivery now f lease_secs db))"
    and "state \<in> {''acked'', ''rejected'', ''dead_letter''} \<Longrightarrow>
      evolves_in_place db (fst (finalize_delivery now f state outcome error db))"
  using assms unfolding release_unexecuted_event_delivery_def heartbeat_event_delivery_def finalize_delivery_def
  by (intro evolves_cas; (assumption | force simp: delivery_row_defs d_fenced_def Let_def))+

lemma final_evolves:
  assumes "outbox_ok db"
  shows "evolves_in_place db (fst (ack_event_delivery now f db))"
    and "evolves_in_place db (fst (reject_event_delivery now f reason db))"
    and "evolves_in_place db (fst (dead_letter_event_delivery now f reason db))"
  using fenced_evolves(3) [OF assms]
  by (simp_all add: ack_event_delivery_def reject_event_delivery_def dead_letter_event_delivery_def case_prod_beta)

lemma retry_evolves:
  assumes "outbox_ok db"
  shows "evolves_in_place db (fst (retry_event_delivery_from reading now f run_after reason db))"
proof -
  have "evolves_in_place db (fst (d_cas (d_fenced f)
      (\<lambda>r. r\<lparr>d_state := ''pending'', d_run_after := run_after, d_lease_owner := None, d_lease_expires_at := None,
             d_error_message := Some reason, d_updated_at := now\<rparr>) db))"
    using assms by (intro evolves_cas; (assumption | force simp: delivery_row_defs d_fenced_def))
  then show ?thesis
    using final_evolves(3) [OF assms] in_place_refl [OF assms]
    by (auto simp: retry_event_delivery_from_def case_prod_beta split: option.split)
qed

lemma suspend_evolves:
  assumes "outbox_ok db"
  shows "evolves_in_place db
    (fst (suspend_event_delivery_from reading J now f checkpoint version wake_at wake_type wake_filter wake_grants db))"
proof -
  have "evolves_in_place db (fst (d_cas (d_fenced f)
      (suspend_delivery_row row now checkpoint version wake_at ty fl wake_grants) db))" for row ty fl
    using assms by (intro evolves_cas; (assumption | force simp: delivery_row_defs d_fenced_def suspend_delivery_row_def))
  then show ?thesis
    using in_place_refl [OF assms]
    by (auto simp: suspend_event_delivery_from_def Let_def case_prod_beta split: option.split sum.split unit.split)
qed

lemma fail_evolves:
  assumes "outbox_ok db"
  shows "evolves_in_place db (fst (fail_event_delivery_from reading reading2 now f reason db))"
  using final_evolves(3) [OF assms] in_place_refl [OF assms] retry_evolves [OF assms]
  by (auto simp: fail_event_delivery_from_def split: option.split)

lemma reclaim_evolves:
  assumes "outbox_ok db"
  shows "evolves_in_place db (fst (reclaim_cancelled now db))" and "evolves_in_place db (fst (reclaim_pending now db))"
proof -
  show "evolves_in_place db (fst (reclaim_cancelled now db))"
    using assms unfolding reclaim_cancelled_def Let_def fst_conv
    by (rule evolves_update_deliveries [where P = "\<lambda>r. d_running r \<and> d_cancel_requested r = 1 \<and> d_lease_expired now r"
          and f = "cancelled_delivery now"]) (auto simp: delivery_row_defs cancelled_delivery_def)
  have "evolves_in_place db (db\<lparr>event_deliveries :=
      update_many (\<lambda>r. d_running r \<and> d_lease_expired now r) (reclaimed_delivery now) (event_deliveries db)\<rparr>)"
    using assms
    by (rule evolves_update_deliveries [where P = "\<lambda>r. d_running r \<and> d_lease_expired now r"
          and f = "reclaimed_delivery now"]) (auto simp: delivery_row_defs reclaimed_delivery_def)
  then show "evolves_in_place db (fst (reclaim_pending now db))" by (simp add: reclaim_pending_def Let_def)
qed

lemma operator_evolves:
  assumes "outbox_ok db"
  shows "evolves_in_place db (fst (retry_dead_letter_delivery now did db))"
    and "evolves_in_place db (fst (acknowledge_dead_letter_delivery now did db))"
    and "evolves_in_place db (fst (cancel_pending_delivery now did db))"
    and "evolves_in_place db (fst (flag_running_delivery now did db))"
    and "evolves_in_place db (fst (resume_event_delivery now did db))"
  subgoal unfolding retry_dead_letter_delivery_def by (rule evolves_cas [OF assms]) (clarsimp simp: delivery_row_defs)
  subgoal unfolding acknowledge_dead_letter_delivery_def by (rule evolves_cas [OF assms]) (clarsimp simp: delivery_row_defs)
  subgoal unfolding cancel_pending_delivery_def by (rule evolves_cas [OF assms]) (clarsimp simp: delivery_row_defs)
  subgoal unfolding flag_running_delivery_def by (rule evolves_cas [OF assms]) (clarsimp simp: delivery_row_defs)
  subgoal unfolding resume_event_delivery_def by (rule evolves_cas [OF assms]) (clarsimp simp: delivery_row_defs)
  done

section \<open>Claims\<close>

text \<open>No row of a well-formed outbox has an unknown resource class.\<close>

lemma sanitize_ok: "outbox_ok db \<Longrightarrow> sanitize_unknown_event_resource_class_on now db = db"
proof -
  assume ok: "outbox_ok db"
  have "filter (\<lambda>r. d_pending r \<and> d_resource_class r \<noteq> EVENT_RESOURCE_CLASS_NETWORK \<and> d_resource_class r \<noteq> [])
      (event_deliveries db) = []"
    using outbox_okD(2) [OF ok] by (auto simp: filter_empty_conv delivery_ok_def)
  then show ?thesis by (simp add: sanitize_unknown_event_resource_class_on_def)
qed

lemma claim_hit:
  assumes "outbox_ok db" and "m \<in> set (event_deliveries db)" and "d_pending m"
  shows "rows_affected (\<lambda>r. d_id r = d_id m \<and> d_pending r) (event_deliveries db) = 1"
    and "update_many (\<lambda>r. d_id r = d_id m \<and> d_pending r) (claim_delivery_update now w l m) (event_deliveries db)
      = update_many (\<lambda>r. r = m) (claim_delivery_update now w l m) (event_deliveries db)"
    and "find_by d_id (d_id m) (update_many (\<lambda>r. r = m) (claim_delivery_update now w l m) (event_deliveries db))
      = Some (claim_delivery_update now w l m m)"
proof -
  note dist = outbox_okD(1) [OF assms(1)]
  show "rows_affected (\<lambda>r. d_id r = d_id m \<and> d_pending r) (event_deliveries db) = 1"
    using assms(2,3) dist by (subst rows_affected_key_eq_1_iff [where key = d_id and k = "d_id m"]) auto
  have uniq: "r \<in> set (event_deliveries db) \<Longrightarrow> d_id r = d_id m \<Longrightarrow> r = m" for r
    using dist assms(2) by (auto dest: distinct_key_unique)
  show "update_many (\<lambda>r. d_id r = d_id m \<and> d_pending r) (claim_delivery_update now w l m) (event_deliveries db)
      = update_many (\<lambda>r. r = m) (claim_delivery_update now w l m) (event_deliveries db)"
    using uniq assms(3) by (intro update_many_cong) auto
  have "find_by d_id (d_id m) (event_deliveries db) = Some m" using dist assms(2) by (intro find_by_eq_Some) auto
  then show "find_by d_id (d_id m) (update_many (\<lambda>r. r = m) (claim_delivery_update now w l m) (event_deliveries db))
      = Some (claim_delivery_update now w l m m)"
    by (subst find_by_update_many) (auto simp: claim_delivery_update_def)
qed

definition claimed_outbox :: "timestamp \<Rightarrow> string \<Rightarrow> nat \<Rightarrow> delivery_row \<Rightarrow> outbox \<Rightarrow> outbox" where
  "claimed_outbox now w l m db =
     db\<lparr>event_deliveries := update_many (\<lambda>r. r = m) (claim_delivery_update now w l m) (event_deliveries db)\<rparr>"

lemma claim_try_find:
  assumes "outbox_ok db" and "\<And>m. m \<in> set ms \<Longrightarrow> m \<in> set (event_deliveries db) \<and> d_pending m"
  shows "claim_try J now w l cap node ms db =
    map_option (\<lambda>m. (claimed_outbox now w l m db, map_delivery (claim_delivery_update now w l m m)))
      (find (claim_eligible J cap node db) ms)"
  using assms(2)
proof (induction ms)
  case (Cons m ms)
  then have m: "m \<in> set (event_deliveries db)" "d_pending m" by auto
  show ?case
    using Cons claim_hit [OF assms(1) m] by (simp add: d_cas_def claimed_outbox_def)
qed simp

text \<open>The candidates of all pages, in claim order.\<close>

definition claim_queue :: "timestamp \<Rightarrow> string list \<Rightarrow> (timestamp \<times> string) option \<Rightarrow> outbox \<Rightarrow> delivery_row list" where
  "claim_queue now plugin_ids cursor db =
     order_by claim_key
       (filter (\<lambda>r. claim_ready_delivery now plugin_ids r \<and> claim_keyset_after cursor r) (event_deliveries db))"

lemma keyset_after_iff: "claim_keyset_after (Some k) r \<longleftrightarrow> k < claim_key r"
  by (cases k) (auto simp: claim_keyset_after_def claim_key_def less_prod_def less_le)

lemma sorted_last_greatest:
  assumes "sorted_wrt (\<lambda>x y. key x < key y) q" and "x \<in> set (take p q)"
  shows "\<not> key (last (take p q)) < (key x :: 'k::linorder)"
proof -
  let ?a = "take p q"
  have ne: "?a \<noteq> []" using assms(2) by (cases "?a") simp_all
  then have split: "?a = butlast ?a @ [last ?a]" by simp
  then have "x = last ?a \<or> x \<in> set (butlast ?a)" using assms(2) by (metis Un_iff set_append empty_iff insert_iff list.set)
  moreover have "sorted_wrt (\<lambda>x y. key x < key y) ?a" using assms(1) by (metis append_take_drop_id sorted_wrt_append)
  then have "sorted_wrt (\<lambda>x y. key x < key y) (butlast ?a @ [last ?a])" using split by simp
  ultimately show ?thesis by (auto simp: sorted_wrt_append)
qed

lemma sorted_filter_greater:
  assumes "sorted_wrt (\<lambda>x y. key x < key y) q" and "take p q \<noteq> []"
  shows "filter (\<lambda>r. key (last (take p q)) < (key r :: 'k::linorder)) q = drop p q"
proof -
  let ?a = "take p q" and ?b = "drop p q"
  have split: "sorted_wrt (\<lambda>x y. key x < key y) (?a @ ?b)" using assms(1) by simp
  have "key (last ?a) < key y" if "y \<in> set ?b" for y
    using split that assms(2) unfolding sorted_wrt_append by (meson last_in_set)
  then have "filter (\<lambda>r. key (last ?a) < key r) (?a @ ?b) = ?b"
    unfolding filter_append using sorted_last_greatest [OF assms(1)] by (simp add: filter_True filter_False)
  then show ?thesis by simp
qed

lemma claim_queue_sorted:
  assumes "outbox_ok db"
  shows "sorted_wrt (\<lambda>x y. claim_key x < claim_key y) (claim_queue now plugin_ids cursor db)"
proof -
  have "distinct (map d_id (claim_queue now plugin_ids cursor db))"
    unfolding claim_queue_def using outbox_okD(1) [OF assms] by (simp add: distinct_map_order_by distinct_map_filter)
  then have "distinct (map claim_key (claim_queue now plugin_ids cursor db))"
    by (auto simp: distinct_map inj_on_def claim_key_def)
  moreover have "sorted (map claim_key (claim_queue now plugin_ids cursor db))"
    by (simp add: claim_queue_def order_by_def)
  ultimately have "sorted_wrt (<) (map claim_key (claim_queue now plugin_ids cursor db))"
    by (simp only: strict_sorted_iff)
  then show ?thesis by (simp only: sorted_wrt_map)
qed

lemma claim_queue_next:
  assumes "outbox_ok db" and "take p (claim_queue now plugin_ids cursor db) \<noteq> []"
  shows "claim_queue now plugin_ids (Some (claim_key (last (take p (claim_queue now plugin_ids cursor db))))) db
    = drop p (claim_queue now plugin_ids cursor db)"
proof -
  let ?q = "claim_queue now plugin_ids cursor db"
  let ?l = "last (take p ?q)"
  have "?l \<in> set (take p ?q)" using assms(2) by simp
  then have "?l \<in> set ?q" by (metis in_set_takeD)
  then have after: "claim_keyset_after cursor ?l" by (simp add: claim_queue_def table_simps)
  have "filter (\<lambda>r. claim_ready_delivery now plugin_ids r \<and> claim_keyset_after (Some (claim_key ?l)) r) (event_deliveries db)
      = filter (\<lambda>r. claim_key ?l < claim_key r)
          (filter (\<lambda>r. claim_ready_delivery now plugin_ids r \<and> claim_keyset_after cursor r) (event_deliveries db))"
    using keyset_after_trans [OF after] by (auto simp: keyset_after_iff intro!: filter_cong)
  then have "claim_queue now plugin_ids (Some (claim_key ?l)) db = filter (\<lambda>r. claim_key ?l < claim_key r) ?q"
    by (simp add: claim_queue_def order_by_def filter_sort)
  with sorted_filter_greater [OF claim_queue_sorted [OF assms(1)] assms(2)] show ?thesis by simp
qed

lemma find_append: "find P (xs @ ys) = (case find P xs of None \<Rightarrow> find P ys | Some x \<Rightarrow> Some x)"
  by (induction xs) auto

text \<open>Paging does not change what is claimed.\<close>

lemma claim_pages_find:
  assumes page: "0 < page" and ok: "outbox_ok db"
    and tried: "\<And>ms. (\<And>m. m \<in> set ms \<Longrightarrow> m \<in> set (event_deliveries db) \<and> d_pending m) \<Longrightarrow>
      attempt ms db = map_option g (find P ms)"
  shows "claim_pages attempt page now plugin_ids cursor db =
    (case find P (claim_queue now plugin_ids cursor db) of
       None \<Rightarrow> (db, None) | Some m \<Rightarrow> (fst (g m), Some (snd (g m))))"
  using assms
proof (induction attempt page now plugin_ids cursor db rule: claim_pages.induct)
  case (1 attempt page now plugin_ids cursor db)
  let ?q = "claim_queue now plugin_ids cursor db"
  have c: "claim_page_rows page now plugin_ids cursor db = take page ?q"
    by (simp add: claim_page_rows_def claim_queue_def)
  have "attempt (take page ?q) db = map_option g (find P (take page ?q))"
    by (rule 1(4)) (auto simp: claim_queue_def table_simps claim_ready_delivery_def dest!: in_set_takeD)
  note try_page = this
  have q: "find P ?q = (case find P (take page ?q) of None \<Rightarrow> find P (drop page ?q) | Some m \<Rightarrow> Some m)"
    using find_append [of P "take page ?q" "drop page ?q"] by simp
  show ?case
  proof (cases "take page ?q = []")
    case True
    then have "?q = []" using 1(2) by simp
    with True c show ?thesis by (simp add: claim_pages.simps)
  next
    case False
    show ?thesis
    proof (cases "find P (take page ?q)")
      case None
      with 1(1) [OF c [symmetric] False _ 1(2,3,4)] try_page
      have "claim_pages attempt page now plugin_ids (Some (claim_key (last (take page ?q)))) db =
          (case find P (drop page ?q) of None \<Rightarrow> (db, None) | Some m \<Rightarrow> (fst (g m), Some (snd (g m))))"
        by (simp add: claim_queue_next [OF 1(3) False])
      with None False c try_page q show ?thesis by (subst claim_pages.simps) (simp add: Let_def)
    next
      case (Some m)
      with False c try_page q show ?thesis by (subst claim_pages.simps) (simp add: Let_def case_prod_beta)
    qed
  qed
qed

end
