(* ===== verification/Event_Safety.thy ===== *)
theory Event_Safety
  imports Event_Steps
begin

text \<open>
  Safety of the event outbox under any interleaving of its statements: well-formedness, fences, the
  per-plugin cap, per-key order and retention.
\<close>

section \<open>One step of the outbox\<close>

text \<open>Rows with a known id are the old row, evolved or claimed; new rows have new ids.\<close>

definition outbox_change :: "outbox \<Rightarrow> outbox \<Rightarrow> bool" where
  "outbox_change db db' \<longleftrightarrow>
     outbox_ok db' \<and> d_id ` set (event_deliveries db) \<subseteq> d_id ` set (event_deliveries db')
     \<and> (\<forall>r' \<in> set (event_deliveries db'). d_id r' \<in> d_id ` set (event_deliveries db) \<longrightarrow>
          (\<exists>r \<in> set (event_deliveries db). d_evolves r r' \<or> d_claims r r'))"

lemma list_all2_in_set2: "list_all2 P xs ys \<Longrightarrow> y \<in> set ys \<Longrightarrow> \<exists>x \<in> set xs. P x y"
  by (induction rule: list_all2_induct) auto

lemma change_in_place:
  assumes "outbox_ok db" and "evolves_in_place db db'"
  shows "outbox_change db db'"
proof -
  have "d_id ` set (event_deliveries db') = d_id ` set (event_deliveries db)"
    using keeps_rows_keys(1) [OF evolves_keeps_rows [OF assms(2)]] by (metis set_map)
  with outbox_ok_evolves [OF assms] assms(2) show ?thesis
    unfolding outbox_change_def evolves_in_place_def by (auto dest!: list_all2_in_set2)
qed

lemma change_events:
  assumes "outbox_change db db1" and "event_deliveries db' = event_deliveries db1" and "outbox_ok db'"
  shows "outbox_change db db'"
  using assms by (simp add: outbox_change_def)

lemma claim_row:
  assumes "delivery_ok m" and "d_pending m"
  shows "d_claims m (claim_delivery_update now w l m m)" and "delivery_ok (claim_delivery_update now w l m m)"
  using assms by (auto simp: d_claims_def claim_delivery_update_def delivery_row_defs)

lemma change_claimed:
  assumes "outbox_ok db" and "m \<in> set (event_deliveries db)" and "d_pending m"
  shows "outbox_change db (claimed_outbox now w l m db)"
proof -
  let ?R = "\<lambda>r r'. (d_evolves r r' \<or> d_claims r r') \<and> delivery_ok r'"
  have rows: "list_all2 ?R (event_deliveries db) (event_deliveries (claimed_outbox now w l m db))"
    unfolding claimed_outbox_def
    using outbox_okD(2) [OF assms(1)] claim_row [OF outbox_okD(2) [OF assms(1,2)] assms(3)]
    by (auto intro!: list_all2_update_many)
  moreover have "list_all2 (\<lambda>e e'. e_evolves e e' \<and> event_ok e') (domain_events db) (domain_events db)"
    using outbox_okD(4) [OF assms(1)] by (auto intro!: list.rel_refl_strong)
  ultimately have keeps: "keeps_rows db (claimed_outbox now w l m db)"
    unfolding keeps_rows_def by (auto simp: d_evolves_def d_claims_def claimed_outbox_def elim: list_all2_mono)
  have "d_id ` set (event_deliveries (claimed_outbox now w l m db)) = d_id ` set (event_deliveries db)"
    using keeps_rows_keys(1) [OF keeps] by (metis set_map)
  with rows outbox_ok_keeps_rows [OF assms(1) keeps] show ?thesis
    unfolding outbox_change_def by (auto dest!: list_all2_in_set2)
qed

lemma change_append:
  assumes "outbox_ok db'" and "event_deliveries db' = event_deliveries db @ new"
  shows "outbox_change db db'"
proof -
  have "distinct (map d_id (event_deliveries db @ new))" using outbox_okD(1) [OF assms(1)] assms(2) by simp
  then have "d_id ` set (event_deliveries db) \<inter> d_id ` set new = {}"
    unfolding map_append distinct_append by (simp only: set_map)
  then have "d_evolves r r" "r \<in> set (event_deliveries db)"
    if "r \<in> set (event_deliveries db')" "d_id r \<in> d_id ` set (event_deliveries db)" for r
    using that assms(2) by (simp, unfold set_append assms(2), blast)
  moreover have "d_id ` set (event_deliveries db) \<subseteq> d_id ` set (event_deliveries db')"
    unfolding assms(2) set_append by (rule image_mono) simp
  ultimately show ?thesis using assms(1) unfolding outbox_change_def by blast
qed

subsection \<open>Publishing and dispatch\<close>

lemma publish_on_ok:
  assumes "outbox_ok db"
  shows "outbox_ok (fst (publish_domain_event_on uuid now spec db))"
proof (cases "prepare_publish_domain_event uuid spec")
  case (Inr p)
  then have len: "length (pub_payload p) \<le> MAX_PAYLOAD"
    by (auto simp: prepare_publish_domain_event_def split: if_splits sum.splits unit.splits)
  have "outbox_ok (db\<lparr>domain_events := domain_events db @ [new_event_row now p]\<rparr>)"
    if "find (same_event_key p) (domain_events db) = None" "pub_id p \<notin> e_id ` set (domain_events db)"
  proof -
    have "event_key (new_event_row now p) \<notin> event_key ` set (domain_events db)"
      using that(1) by (auto simp: find_None_iff same_event_key_def event_key_def new_event_row_def)
    then show ?thesis
      using assms that(2) len by (auto simp: outbox_ok_def new_event_row_def event_ok_def)
  qed
  with Inr assms show ?thesis by (auto simp: publish_domain_event_on_def split: option.split)
qed (simp add: publish_domain_event_on_def assms)

text \<open>Both only append, publishing to the events and dispatch to the deliveries.\<close>

definition appends_pending :: "outbox \<Rightarrow> outbox \<Rightarrow> bool" where
  "appends_pending db db' \<longleftrightarrow>
     outbox_ok db' \<and> (\<exists>new. event_deliveries db' = event_deliveries db @ new \<and> list_all d_pending new)"

lemma appends_pendingI:
  "outbox_ok db' \<Longrightarrow> event_deliveries db' = event_deliveries db @ new \<Longrightarrow> list_all d_pending new \<Longrightarrow> appends_pending db db'"
  by (auto simp: appends_pending_def)

lemma publish_appends:
  assumes "outbox_ok db"
  shows "appends_pending db (fst (publish_domain_event uuid now spec db))"
proof (rule appends_pendingI [where new = "[]"])
  show "outbox_ok (fst (publish_domain_event uuid now spec db))"
    using publish_on_ok [OF assms] assms
    by (auto simp: publish_domain_event_def in_txn_def case_prod_beta split: sum.split)
  show "event_deliveries (fst (publish_domain_event uuid now spec db)) = event_deliveries db @ []"
    by (auto simp: publish_domain_event_def in_txn_def publish_domain_event_on_def case_prod_beta
        split: sum.split option.split)
qed simp

lemma insert_delivery_ok:
  assumes "outbox_ok db" and "event \<in> set (domain_events db)"
    and "insert_delivery (new_delivery_row now event p) db = Some db'"
  shows "outbox_ok db'" and "event_deliveries db' = event_deliveries db @ [new_delivery_row now event p]"
    and "domain_events db' = domain_events db"
proof -
  have fresh: "\<not> delivery_clash (new_delivery_row now event p) r" if "r \<in> set (event_deliveries db)" for r
    using assms(3) that by (auto simp: insert_delivery_def split: if_splits)
  have db': "db' = db\<lparr>event_deliveries := event_deliveries db @ [new_delivery_row now event p]\<rparr>"
    using assms(3) by (auto simp: insert_delivery_def split: if_splits)
  have "delivery_ok (new_delivery_row now event p)" by (simp add: new_delivery_row_def delivery_row_defs)
  then show "outbox_ok db'"
    using assms(1,2) fresh unfolding db' by (fastforce simp: outbox_ok_def delivery_clash_def new_delivery_row_def)
qed (use assms(3) in \<open>auto simp: insert_delivery_def split: if_splits\<close>)

lemma dispatch_loop_ok:
  assumes "outbox_ok db" and "event \<in> set (domain_events db)"
  shows "outbox_ok (fst (dispatch_loop now event subs db))
    \<and> (\<exists>new. event_deliveries (fst (dispatch_loop now event subs db)) = event_deliveries db @ new \<and> list_all d_pending new)
    \<and> domain_events (fst (dispatch_loop now event subs db)) = domain_events db"
  using assms
proof (induction subs arbitrary: db)
  case (Cons sub subs)
  show ?case
  proof (cases "insert_delivery (new_delivery_row now event (es_plugin_id sub)) db")
    case None
    with Cons show ?thesis by simp
  next
    case (Some db1)
    note ins = insert_delivery_ok [OF Cons.prems Some]
    have "d_pending (new_delivery_row now event (es_plugin_id sub))" by (simp add: new_delivery_row_def d_pending_def)
    with Cons.IH [of db1] Cons.IH [of db] ins Cons.prems Some show ?thesis by (auto simp: case_prod_beta)
  qed
qed simp

lemma mark_dispatched_ok: "outbox_ok db \<Longrightarrow> outbox_ok (mark_dispatched i db)"
  by (rule outbox_ok_evolves, assumption, unfold mark_dispatched_def, rule evolves_update_events
      [where P = "\<lambda>e. e_id e = i \<and> e_dispatch_state e = ''pending''" and f = "\<lambda>e. e\<lparr>e_dispatch_state := ''dispatched''\<rparr>"])
    (auto simp: e_evolves_def event_ok_def event_key_def)

lemma dispatch_deliveries:
  "event_deliveries (fst (dispatch_event_deliveries_on now i subs db)) =
    (case find_by e_id i (domain_events db) of
       None \<Rightarrow> event_deliveries db
     | Some event \<Rightarrow> event_deliveries (fst (dispatch_loop now event subs db)))"
  by (simp add: dispatch_event_deliveries_on_def mark_dispatched_def bump_event_stats_def Let_def case_prod_beta
      split: option.split)

lemma dispatch_appends:
  assumes "outbox_ok db"
  shows "appends_pending db (fst (dispatch_event_deliveries_on now i subs db))"
proof (cases "find_by e_id i (domain_events db)")
  case None
  then show ?thesis
    using assms by (intro appends_pendingI [where new = "[]"]) (simp_all add: dispatch_event_deliveries_on_def)
next
  case (Some event)
  then have "event \<in> set (domain_events db)" by (auto dest: find_by_SomeD)
  from dispatch_loop_ok [OF assms this, of now subs] obtain new where
    ok: "outbox_ok (fst (dispatch_loop now event subs db))" and pending: "list_all d_pending new"
    and new: "event_deliveries (fst (dispatch_loop now event subs db)) = event_deliveries db @ new" by blast
  show ?thesis
  proof (rule appends_pendingI)
    show "outbox_ok (fst (dispatch_event_deliveries_on now i subs db))"
      using mark_dispatched_ok [OF ok] Some by (simp add: dispatch_event_deliveries_on_def Let_def case_prod_beta)
    show "event_deliveries (fst (dispatch_event_deliveries_on now i subs db)) = event_deliveries db @ new"
      using Some new by (simp add: dispatch_deliveries)
  qed (rule pending)
qed

subsection \<open>Wakes\<close>

lemma wake_chunk_evolves:
  assumes "outbox_ok db"
  shows "evolves_in_place db (fst (wake_chunk i w now ids db))"
  using assms unfolding wake_chunk_def Let_def fst_conv
  by (rule evolves_update_deliveries [where f = "woken_delivery now" and
        P = "\<lambda>r. d_id r \<in> set ids \<and> d_pending r \<and> (\<exists>e \<in> set (domain_events db). wake_holds i w e)"])
    (clarsimp simp: woken_delivery_def delivery_row_defs)+

lemma wake_chunks_evolves:
  "outbox_ok db \<Longrightarrow> evolves_in_place db (fst (wake_chunks i w now idss n db))"
proof (induction idss arbitrary: n db)
  case (Cons ids idss)
  note one = wake_chunk_evolves [OF Cons.prems, of i w now ids]
  have "evolves_in_place (fst (wake_chunk i w now ids db)) (fst (wake_chunks i w now idss m (fst (wake_chunk i w now ids db))))" for m
    by (rule Cons.IH [OF outbox_ok_evolves [OF Cons.prems one]])
  with evolves_trans [OF one] show ?case by (simp add: case_prod_beta)
qed (simp add: in_place_refl)

lemma wake_cursor_evolves:
  assumes "outbox_ok db"
  shows "evolves_in_place db (fst (release_wake_cursor_on i w cursor_at cursor_id db))"
    and "evolves_in_place db (fst (finish_wake_on i w db))"
    and "evolves_in_place db (fst (claim_wake now l w i db))"
  subgoal unfolding release_wake_cursor_on_def
    by (rule evolves_e_cas [OF assms]) (simp add: e_evolves_def event_ok_def event_key_def)
  subgoal unfolding finish_wake_on_def
    by (rule evolves_e_cas [OF assms]) (simp add: e_evolves_def event_ok_def event_key_def)
  subgoal unfolding claim_wake_def
    by (rule evolves_e_cas [OF assms]) (simp add: e_evolves_def event_ok_def event_key_def)
  done

lemma wake_one_page_evolves:
  assumes "outbox_ok db"
  shows "evolves_in_place db (fst (wake_one_page_on J now row w page max_binds db))"
proof -
  have woken: "evolves_in_place db (fst (wake_deliveries_fenced_on i w ids now max_binds db))" for i ids
    using wake_chunks_evolves [OF assms] in_place_refl [OF assms] by (simp add: wake_deliveries_fenced_on_def)
  note ok = outbox_ok_evolves [OF assms woken]
  show ?thesis
    using wake_cursor_evolves(2) [OF assms] evolves_trans [OF woken wake_cursor_evolves(1) [OF ok]]
      evolves_trans [OF woken wake_cursor_evolves(2) [OF ok]]
    by (simp add: wake_one_page_on_def Let_def case_prod_beta)
qed

subsection \<open>Claims\<close>

text \<open>A claim takes the oldest eligible candidate, whatever the page size.\<close>

definition claim_result :: "timestamp \<Rightarrow> string \<Rightarrow> nat \<Rightarrow> outbox \<Rightarrow> delivery_row option \<Rightarrow> outbox \<times> EventDeliveryRecord option" where
  "claim_result now w l db found =
     (case found of
        None \<Rightarrow> (db, None)
      | Some m \<Rightarrow> (claimed_outbox now w l m db, Some (map_delivery (claim_delivery_update now w l m m))))"

lemma claim_pages_result:
  assumes "outbox_ok db"
    and "\<And>ms. (\<And>m. m \<in> set ms \<Longrightarrow> m \<in> set (event_deliveries db) \<and> d_pending m) \<Longrightarrow>
      attempt ms db = map_option (\<lambda>m. (claimed_outbox now w l m db, map_delivery (claim_delivery_update now w l m m))) (find P ms)"
  shows "(if plugin_ids = [] then (db, None)
      else claim_pages attempt EVENT_CLAIM_PAGE now plugin_ids None (sanitize_unknown_event_resource_class_on now db))
    = claim_result now w l db (find P (claim_queue now plugin_ids None db))"
proof (cases "plugin_ids = []")
  case True
  then have "claim_queue now plugin_ids None db = []"
    by (simp add: claim_queue_def claim_ready_delivery_def order_by_def)
  with True show ?thesis by (simp add: claim_result_def)
next
  case False
  have "0 < EVENT_CLAIM_PAGE" by (simp add: EVENT_CLAIM_PAGE_def)
  from claim_pages_find [where attempt = attempt and P = P, OF this assms, of now plugin_ids None] False show ?thesis
    by (simp add: sanitize_ok [OF assms(1)] claim_result_def split: option.split)
qed

lemma claim_next_find:
  assumes "outbox_ok db"
  shows "claim_next_event_delivery_on J now w l plugin_ids cap node db =
    claim_result now w l db (find (claim_eligible J cap node db) (claim_queue now plugin_ids None db))"
  unfolding claim_next_event_delivery_on_def
  by (rule claim_pages_result, rule assms, rule claim_try_find [OF assms])

text \<open>The batch of a database plugin on a pending row: a claim with a lease of at least five seconds.\<close>

lemma cas_claim_row_eq:
  assumes "delivery_ok m"
  shows "cas_claim_row now w l m = claim_delivery_update now w (max 5 l) m m"
proof -
  have "max 5 (i64_or 60 l) = i64_or 60 (max 5 l)" by (auto simp: i64_or_def I64_MAX_def)
  then show ?thesis
    using assms by (auto simp: cas_claim_row_def claim_delivery_update_def lease_until_def delivery_ok_def max.commute)
qed

lemma plan_cas_claim:
  assumes ok: "outbox_ok db" and m: "m \<in> set (event_deliveries db)" "d_pending m"
  shows "plan_claim_event_delivery_cas now w l (d_id m) (d_plugin_id m) (d_resource_class m) cap db =
    (if plugin_in_flight_at_cap db (d_plugin_id m) (d_resource_class m) cap then (db, None)
     else (claimed_outbox now w (max 5 l) m db, Some (map_delivery (claim_delivery_update now w (max 5 l) m m))))"
proof (cases "plugin_in_flight_at_cap db (d_plugin_id m) (d_resource_class m) cap")
  case True
  then have full: "\<not> in_flight db (d_plugin_id m) (class_or_network (d_resource_class m)) < cap"
    by (auto simp: plugin_in_flight_at_cap_def)
  have "find (\<lambda>r. d_id r = d_id m \<and> d_running r \<and> d_lease_owner r = Some w \<and> d_updated_at r = now) (event_deliveries db) = None"
    using distinct_key_unique [OF outbox_okD(1) [OF ok] _ m(1)] m(2) unfolding find_None_iff d_state_defs by fastforce
  with True full show ?thesis by (simp add: plan_claim_event_delivery_cas_def update_many_id)
next
  case False
  let ?m = "claim_delivery_update now w (max 5 l) m m"
  have "in_flight db (d_plugin_id m) (class_or_network (d_resource_class m)) < cap"
    using False by (auto simp: plugin_in_flight_at_cap_def)
  then have "update_many (\<lambda>r. d_id r = d_id m \<and> d_pending r \<and> in_flight db (d_plugin_id m) (class_or_network (d_resource_class m)) < cap)
      (cas_claim_row now w l) (event_deliveries db)
    = update_many (\<lambda>r. r = m) (claim_delivery_update now w (max 5 l) m) (event_deliveries db)"
    using distinct_key_unique [OF outbox_okD(1) [OF ok] _ m(1)] m(2) cas_claim_row_eq [OF outbox_okD(2) [OF ok m(1)]]
    by (intro update_many_cong) auto
  moreover have "find_by d_id (d_id m) (update_many (\<lambda>r. r = m) (claim_delivery_update now w (max 5 l) m) (event_deliveries db)) = Some ?m"
    by (rule claim_hit(3) [OF ok m])
  then have "find (\<lambda>r. d_id r = d_id m \<and> d_running r \<and> d_lease_owner r = Some w \<and> d_updated_at r = now)
      (update_many (\<lambda>r. r = m) (claim_delivery_update now w (max 5 l) m) (event_deliveries db)) = Some ?m"
    by (rule find_by_also) (simp add: claim_delivery_update_def d_running_def)
  ultimately show ?thesis using False by (simp add: plan_claim_event_delivery_cas_def claimed_outbox_def)
qed

lemma claim_try_cas_find:
  assumes "outbox_ok db" and "\<And>m. m \<in> set ms \<Longrightarrow> m \<in> set (event_deliveries db) \<and> d_pending m"
  shows "claim_try_cas J now w l cap node ms db =
    map_option (\<lambda>m. (claimed_outbox now w (max 5 l) m db, map_delivery (claim_delivery_update now w (max 5 l) m m)))
      (find (claim_eligible J cap node db) ms)"
  using assms(2)
proof (induction ms)
  case (Cons m ms)
  then have "m \<in> set (event_deliveries db)" "d_pending m" by auto
  with Cons show ?case by (auto simp: plan_cas_claim [OF assms(1)] claim_eligible_def)
qed simp

lemma host_cas_find:
  assumes "outbox_ok db"
  shows "claim_next_event_delivery_host_cas J now w l plugin_ids cap node db =
    claim_result now w (max 5 l) db (find (claim_eligible J cap node db) (claim_queue now plugin_ids None db))"
  unfolding claim_next_event_delivery_host_cas_def
  by (rule claim_pages_result, rule assms, rule claim_try_cas_find [OF assms])

lemma claim_queue_set:
  "m \<in> set (claim_queue now plugin_ids cursor db) \<longleftrightarrow>
     m \<in> set (event_deliveries db) \<and> claim_ready_delivery now plugin_ids m \<and> claim_keyset_after cursor m"
  by (simp add: claim_queue_def table_simps)

lemma claim_next_cases:
  assumes "outbox_ok db"
  obtains "claim_next_event_delivery_on J now w l plugin_ids cap node db = (db, None)"
  | m where "m \<in> set (event_deliveries db)" "d_pending m" "claim_eligible J cap node db m"
      "fst (claim_next_event_delivery_on J now w l plugin_ids cap node db) = claimed_outbox now w l m db"
proof (cases "find (claim_eligible J cap node db) (claim_queue now plugin_ids None db)")
  case (Some m)
  then have "claim_eligible J cap node db m" "m \<in> set (claim_queue now plugin_ids None db)"
    by (auto simp: find_Some_iff)
  moreover from Some
  have "fst (claim_next_event_delivery_on J now w l plugin_ids cap node db) = claimed_outbox now w l m db"
    by (simp add: claim_next_find [OF assms] claim_result_def)
  ultimately show ?thesis using that(2) by (auto simp: claim_queue_set claim_ready_delivery_def)
qed (use that(1) in \<open>simp add: claim_next_find [OF assms] claim_result_def\<close>)

subsection \<open>The step relation\<close>

text \<open>
  Every statement of the outbox. Workers may claim under the cap \<open>cap\<close>, in one transaction or through the
  batch of a database plugin for some row read before (its id, plugin and class never change); a \<open>reading\<close>
  is whatever an earlier transaction saw.
\<close>

inductive event_step :: "event_codec \<Rightarrow> nat \<Rightarrow> outbox \<Rightarrow> outbox \<Rightarrow> bool" for J cap where
  publish: "event_step J cap db (fst (publish_domain_event uuid now spec db))"
| dispatch: "event_step J cap db (fst (dispatch_event_deliveries_on now event_id subs db))"
| claim: "event_step J cap db (fst (claim_next_event_delivery_on J now w l plugin_ids cap node db))"
| claim_cas: "r \<in> set (event_deliveries db) \<Longrightarrow> event_step J cap db
    (fst (plan_claim_event_delivery_cas now w l (d_id r) (d_plugin_id r) (d_resource_class r) cap db))"
| release: "event_step J cap db (fst (release_unexecuted_event_delivery now f restore db))"
| heartbeat: "event_step J cap db (fst (heartbeat_event_delivery now f l db))"
| ack: "event_step J cap db (fst (ack_event_delivery now f db))"
| reject: "event_step J cap db (fst (reject_event_delivery now f reason db))"
| dead_letter: "event_step J cap db (fst (dead_letter_event_delivery now f reason db))"
| retry: "event_step J cap db (fst (retry_event_delivery_from reading now f run_after reason db))"
| suspend: "event_step J cap db
    (fst (suspend_event_delivery_from reading J now f checkpoint version wake_at wake_type wake_filter wake_grants db))"
| fail: "event_step J cap db (fst (fail_event_delivery_from reading reading2 now f reason db))"
| reclaim_cancel: "event_step J cap db (fst (reclaim_cancelled now db))"
| reclaim: "event_step J cap db (fst (reclaim_pending now db))"
| redrive: "event_step J cap db (fst (retry_dead_letter_delivery now did db))"
| dismiss: "event_step J cap db (fst (acknowledge_dead_letter_delivery now did db))"
| cancel: "event_step J cap db (fst (cancel_pending_delivery now did db))"
| flag: "event_step J cap db (fst (flag_running_delivery now did db))"
| resume: "event_step J cap db (fst (resume_event_delivery now did db))"
| lease_wake: "event_step J cap db (fst (claim_wake now l w event_id db))"
| wake: "event_step J cap db (fst (wake_one_page_on J now row w page max_binds db))"
| catalog: "event_step J cap db (upsert_event_subscriber_at J node plugin subscriptions enabled heartbeat_at db)"
| latency: "event_step J cap db (record_event_handler_latency ms db)"

lemma catalog_evolves:
  assumes "outbox_ok db"
  shows "evolves_in_place db (upsert_event_subscriber_at J node plugin subscriptions enabled heartbeat_at db)"
    and "evolves_in_place db (record_event_handler_latency ms db)"
  using in_place_refl [OF assms]
  by (simp_all add: upsert_event_subscriber_at_def record_event_handler_latency_def evolves_in_place_def [of db] Let_def)

lemmas statement_evolves = fenced_evolves(1,2) final_evolves retry_evolves suspend_evolves fail_evolves
  reclaim_evolves operator_evolves wake_cursor_evolves(3) wake_one_page_evolves catalog_evolves

text \<open>A step appends rows, changes rows in place, or is a claim.\<close>

lemma plan_cas_idle:
  assumes "outbox_ok db" and "r \<in> set (event_deliveries db)" and "\<not> d_pending r"
  shows "fst (plan_claim_event_delivery_cas now w l (d_id r) p c cap db) = db"
proof -
  have "update_many (\<lambda>x. d_id x = d_id r \<and> d_pending x \<and> in_flight db p (class_or_network c) < cap) (cas_claim_row now w l)
      (event_deliveries db) = event_deliveries db"
    using distinct_key_unique [OF outbox_okD(1) [OF assms(1)] _ assms(2)] assms(3) by (intro update_many_id) auto
  then show ?thesis by (simp add: plan_claim_event_delivery_cas_def Let_def)
qed

lemma event_step_kinds:
  assumes "event_step J cap db db'" and ok: "outbox_ok db"
  shows "appends_pending db db' \<or> evolves_in_place db db'
    \<or> (\<exists>m now w l. m \<in> set (event_deliveries db) \<and> d_pending m
          \<and> \<not> plugin_in_flight_at_cap db (d_plugin_id m) (d_resource_class m) cap \<and> db' = claimed_outbox now w l m db)"
  using assms(1)
proof cases
  case (claim now w l plugin_ids node)
  then show ?thesis
    using in_place_refl [OF ok]
    by (cases rule: claim_next_cases [OF ok, of J now w l plugin_ids cap node]) (auto simp: claim_eligible_def)
next
  case (claim_cas r now w l)
  then show ?thesis
    using in_place_refl [OF ok] plan_cas_claim [OF ok, of r now w l cap] plan_cas_idle [OF ok, of r now w l "d_plugin_id r"]
    by (cases "d_pending r") (auto split: if_splits)
qed (use publish_appends [OF ok] dispatch_appends [OF ok] statement_evolves [OF ok] in \<open>simp_all\<close>)

lemma event_step_change:
  assumes "event_step J cap db db'" and "outbox_ok db"
  shows "outbox_change db db'"
  using event_step_kinds [OF assms] assms(2)
  by (auto simp: appends_pending_def intro: change_append change_in_place change_claimed)

text \<open>The outbox is a provider of fenced leases; its ids are those of the rows it holds.\<close>

interpretation event_lease: fenced_lease "\<lambda>db. set (event_deliveries db)" "\<lambda>db. d_id ` set (event_deliveries db)"
  d_id d_running d_lease_owner d_lease_generation "event_step J cap" outbox_ok for J cap
proof (unfold_locales, goal_cases)
  case (1 s t)
  then show ?case using event_step_change outbox_change_def by blast
next
  case (2 s r r')
  then show ?case by (auto dest: outbox_okD(1) distinct_key_unique)
next
  case (3 s r)
  then show ?case by blast
next
  case (4 s t)
  then show ?case using event_step_change outbox_change_def by blast
next
  case (5 s t r')
  then obtain r where "r \<in> set (event_deliveries s)" and "d_evolves r r' \<or> d_claims r r'"
    using event_step_change unfolding outbox_change_def by blast
  then show ?case by (auto simp: d_evolves_def d_claims_def d_same_def)
qed

lemma live_delivery_iff:
  "event_lease.live db (df_delivery_id f) (df_owner f) (df_generation f) \<longleftrightarrow> (\<exists>r \<in> set (event_deliveries db). d_fenced f r)"
  by (auto simp: event_lease.live_def d_fenced_def)

end
