(* ===== verification/Event_Props.thy ===== *)
theory Event_Props
  imports Event_Safety
begin

text \<open>
  What the outbox guarantees: stale workers are harmless, rows stay well formed, a plugin never runs
  more deliveries than its cap, a claim takes the oldest eligible delivery, and dispatch creates each
  delivery once.
\<close>

section \<open>A small run\<close>

definition empty_outbox :: outbox where
  "empty_outbox = \<lparr>domain_events = [], event_deliveries = [], event_subscriber_nodes = [], event_outbox_stats = None\<rparr>"

lemma outbox_ok_empty [simp]: "outbox_ok empty_outbox"
  by (simp add: outbox_ok_def empty_outbox_def)

definition demo_event :: PublishDomainEventSpec where
  "demo_event =
     \<lparr>pub_id = ''e1'', pub_event_type = ''t'', pub_schema_version = 1, pub_account_id = ''a'', pub_source = [],
      pub_correlation_id = [], pub_causation_id = [], pub_dedup_key = ''k'', pub_payload = ''x'', pub_ordering_key = ''o''\<rparr>"

definition demo_event_row :: event_row where
  "demo_event_row = new_event_row 1 demo_event"

definition demo_delivery :: delivery_row where
  "demo_delivery = new_delivery_row 2 demo_event_row ''p''"

definition demo_dispatched :: outbox where
  "demo_dispatched =
     fst (dispatch_event_deliveries_on 2 ''e1'' [EventSubscriber_plugin ''p'']
       (fst (publish_domain_event ''u'' 1 demo_event empty_outbox)))"

definition demo_running :: outbox where
  "demo_running = fst (claim_next_event_delivery_on demo_event_codec 3 ''w'' 30 [''p''] 1 [] demo_dispatched)"

definition demo_delivery_fence :: EventDeliveryFence where
  "demo_delivery_fence = \<lparr>df_delivery_id = ''e1:p'', df_owner = ''w'', df_generation = 1\<rparr>"

definition demo_acked :: outbox where
  "demo_acked = fst (ack_event_delivery 4 demo_delivery_fence demo_running)"

lemma demo_event_trims [simp]: "trim ''e1'' = ''e1''" "trim ''t'' = ''t''" "trim ''k'' = ''k''" "trim ''p'' = ''p''"
  by code_simp+

lemma demo_prepared: "prepare_publish_domain_event ''u'' demo_event = Inr demo_event"
proof -
  have "\<not> MAX_PAYLOAD < length (pub_payload demo_event)" "validate_event_source (pub_source demo_event) = Inr ()"
    by (simp_all add: demo_event_def MAX_PAYLOAD_def validate_event_source_def)
  then show ?thesis
    by (simp add: prepare_publish_domain_event_def split: unit.split) (simp add: demo_event_def)
qed

lemma demo_published:
  "publish_domain_event ''u'' 1 demo_event empty_outbox =
    (empty_outbox\<lparr>domain_events := [demo_event_row]\<rparr>, Inr (PublishCreated ''e1''))"
  by (simp add: publish_domain_event_def publish_domain_event_on_def demo_prepared in_txn_def demo_event_row_def)
    (simp add: empty_outbox_def demo_event_def)

lemma demo_row_fields [simp]:
  "e_id demo_event_row = ''e1''" "e_dispatch_state demo_event_row = ''pending''"
  "d_id demo_delivery = ''e1:p''" "d_pending demo_delivery" "d_plugin_id demo_delivery = ''p''"
  "d_run_after demo_delivery = 2" "d_created_at demo_delivery = 2" "d_lease_generation demo_delivery = 0"
  "d_resource_class demo_delivery = EVENT_RESOURCE_CLASS_NETWORK"
  by (simp_all add: demo_event_row_def demo_event_def new_event_row_def demo_delivery_def new_delivery_row_def d_pending_def)

lemma demo_dispatched_rows [simp]:
  "event_deliveries demo_dispatched = [demo_delivery]"
  "domain_events demo_dispatched = [demo_event_row\<lparr>e_dispatch_state := ''dispatched''\<rparr>]"
proof -
  have "dispatchable (EventSubscriber_plugin ''p'')" by code_simp
  then show "event_deliveries demo_dispatched = [demo_delivery]"
    "domain_events demo_dispatched = [demo_event_row\<lparr>e_dispatch_state := ''dispatched''\<rparr>]"
    unfolding demo_dispatched_def demo_published fst_conv
    by (simp_all add: dispatch_event_deliveries_on_def find_by_def
        empty_outbox_def insert_delivery_def mark_dispatched_def update_many_def bump_event_stats_def Let_def
        case_prod_beta EventSubscriber_plugin_def demo_delivery_def)
qed

lemma demo_reach_dispatched: "(event_step demo_event_codec 1)\<^sup>*\<^sup>* empty_outbox demo_dispatched"
  unfolding demo_dispatched_def
  by (rule converse_rtranclp_into_rtranclp, rule publish, rule r_into_rtranclp, rule dispatch)

lemma demo_ok [simp]: "outbox_ok demo_dispatched"
  using event_lease.inv_steps [OF demo_reach_dispatched] by simp

lemma demo_claim:
  "claim_next_event_delivery_on demo_event_codec 3 ''w'' 30 [''p''] 1 [] demo_dispatched =
    (claimed_outbox 3 ''w'' 30 demo_delivery demo_dispatched,
     Some (map_delivery (claim_delivery_update 3 ''w'' 30 demo_delivery demo_delivery)))"
proof -
  have "claim_queue 3 [''p''] None demo_dispatched = [demo_delivery]"
    by (simp add: claim_queue_def order_by_def claim_ready_delivery_def claim_keyset_after_def)
  moreover have "claim_eligible demo_event_codec 1 [] demo_dispatched demo_delivery"
    by (simp add: claim_eligible_def fifo_blocked_def rows_affected_def plugin_in_flight_at_cap_def in_flight_def
        d_running_def demo_row_fields(4) [unfolded d_pending_def])
  ultimately show ?thesis by (simp add: claim_next_find claim_result_def)
qed

lemma demo_running_rows [simp]:
  "event_deliveries demo_running = [claim_delivery_update 3 ''w'' 30 demo_delivery demo_delivery]"
  unfolding demo_running_def demo_claim by (simp add: claimed_outbox_def update_many_def)

lemma demo_reach_running: "(event_step demo_event_codec 1)\<^sup>*\<^sup>* empty_outbox demo_running"
  unfolding demo_running_def by (rule rtranclp.rtrancl_into_rtrancl [OF demo_reach_dispatched claim])

lemma demo_delivery_fenced: "d_fenced demo_delivery_fence (claim_delivery_update 3 ''w'' 30 demo_delivery demo_delivery)"
  by (simp add: d_fenced_def demo_delivery_fence_def claim_delivery_update_def d_running_def)

lemma demo_acked_step: "event_step demo_event_codec 1 demo_running demo_acked"
  unfolding demo_acked_def by (rule ack)

lemma demo_acked_lost: "\<not> (\<exists>r \<in> set (event_deliveries demo_acked). d_fenced demo_delivery_fence r)"
  using demo_delivery_fenced
  by (simp add: demo_acked_def ack_event_delivery_def finalize_delivery_def d_cas_def update_many_def)
    (simp add: d_fenced_def d_running_def)

section \<open>Stale workers\<close>

lemma d_cas_miss:
  assumes "\<not> (\<exists>r \<in> set (event_deliveries db). P r)"
  shows "d_cas P f db = (db, False)"
proof -
  have "rows_affected P (event_deliveries db) = 0" using assms by (auto simp: rows_affected_0_iff)
  then show ?thesis by (simp add: d_cas_def rows_affected_0_update_many)
qed

lemma dead_delivery_fence:
  assumes "\<not> (\<exists>r \<in> set (event_deliveries db). d_fenced f r)"
  shows "release_unexecuted_event_delivery now f restore db = (db, False)"
    and "heartbeat_event_delivery now f l db = (db, False)"
    and "ack_event_delivery now f db = (db, False)"
    and "reject_event_delivery now f reason db = (db, False)"
    and "dead_letter_event_delivery now f reason db = (db, False)"
    and "retry_event_delivery_from reading now f run_after reason db = (db, False)"
    and "fst (suspend_event_delivery_from reading J now f checkpoint version wake_at wake_type wake_filter wake_grants db) = db"
    and "fail_event_delivery_from reading reading2 now f reason db = (db, False)"
proof -
  note miss = d_cas_miss [OF assms]
  show dead: "dead_letter_event_delivery now f reason db = (db, False)" for reason
    by (simp add: dead_letter_event_delivery_def finalize_delivery_def miss)
  show retry: "retry_event_delivery_from reading now f run_after reason db = (db, False)" for reading run_after
    by (simp add: retry_event_delivery_from_def dead miss split: option.split)
  show "fail_event_delivery_from reading reading2 now f reason db = (db, False)"
    by (simp add: fail_event_delivery_from_def dead retry split: option.split)
qed (simp_all add: release_unexecuted_event_delivery_def heartbeat_event_delivery_def ack_event_delivery_def
    reject_event_delivery_def finalize_delivery_def suspend_event_delivery_from_def Let_def d_cas_miss [OF assms]
    split: option.split sum.split unit.split)



section \<open>Well-formedness and the concurrency cap\<close>

text \<open>The statements above and retention, in any order.\<close>

definition event_system :: "event_codec \<Rightarrow> nat \<Rightarrow> outbox \<Rightarrow> outbox \<Rightarrow> bool" where
  "event_system J cap db db' \<longleftrightarrow>
     event_step J cap db db' \<or> (\<exists>now days dead_days. db' = fst (prune_event_deliveries now days dead_days db))"

lemma pruned_tables:
  "event_deliveries (fst (prune_event_deliveries now a b db)) = filter (\<lambda>r. \<not> prune_delivery now a b r) (event_deliveries db)"
  "domain_events (fst (prune_event_deliveries now a b db)) =
     filter (\<lambda>e. \<not> (e_dispatch_state e = ''dispatched'' \<and> e_created_at e \<le> now - days (i64_or 7 a)
        \<and> \<not> (\<exists>r \<in> set (event_deliveries (fst (prune_event_deliveries now a b db))). d_event_id r = e_id e))) (domain_events db)"
proof -
  show del: "event_deliveries (fst (prune_event_deliveries now a b db)) = filter (\<lambda>r. \<not> prune_delivery now a b r) (event_deliveries db)"
    by (auto simp: prune_event_deliveries_def prune_delivery_def Let_def delete_many_def intro!: filter_cong)
  show "domain_events (fst (prune_event_deliveries now a b db)) =
     filter (\<lambda>e. \<not> (e_dispatch_state e = ''dispatched'' \<and> e_created_at e \<le> now - days (i64_or 7 a)
        \<and> \<not> (\<exists>r \<in> set (event_deliveries (fst (prune_event_deliveries now a b db))). d_event_id r = e_id e))) (domain_events db)"
    by (simp add: prune_event_deliveries_def Let_def delete_many_def)
qed

lemma outbox_ok_filter:
  assumes "outbox_ok db" and d: "event_deliveries db' = filter P (event_deliveries db)"
    and e: "domain_events db' = filter Q (domain_events db)"
    and "d_event_id ` set (event_deliveries db') \<subseteq> e_id ` set (domain_events db')"
  shows "outbox_ok db'"
proof -
  have "list_all delivery_ok (event_deliveries db')" "list_all event_ok (domain_events db')"
    using outbox_okD(2,4) [OF assms(1)] by (auto simp: list_all_iff d e)
  then show ?thesis using assms(1,4) unfolding outbox_ok_def d e by (simp add: distinct_map_filter)
qed

lemma delivery_event:
  assumes "outbox_ok db" and "r \<in> set (event_deliveries db)"
  shows "\<exists>e \<in> set (domain_events db). e_id e = d_event_id r"
proof -
  have "d_event_id ` set (event_deliveries db) \<subseteq> e_id ` set (domain_events db)"
    using assms(1) by (simp add: outbox_ok_def)
  then have "d_event_id r \<in> e_id ` set (domain_events db)" using assms(2) by blast
  then show ?thesis by force
qed

lemma outbox_ok_prune:
  assumes "outbox_ok db"
  shows "outbox_ok (fst (prune_event_deliveries now a b db))"
proof (rule outbox_ok_filter [OF assms pruned_tables])
  let ?db = "fst (prune_event_deliveries now a b db)"
  show "d_event_id ` set (event_deliveries ?db) \<subseteq> e_id ` set (domain_events ?db)"
  proof
    fix i
    assume "i \<in> d_event_id ` set (event_deliveries ?db)"
    then obtain r where r: "r \<in> set (event_deliveries ?db)" "d_event_id r = i" by blast
    then have "r \<in> set (event_deliveries db)" unfolding pruned_tables(1) by simp
    with r(2) delivery_event [OF assms] obtain e where "e \<in> set (domain_events db)" "e_id e = i" by blast
    moreover from this r have "\<exists>r \<in> set (event_deliveries ?db). d_event_id r = e_id e" by blast
    ultimately have "e \<in> set (domain_events ?db)" "e_id e = i" unfolding pruned_tables(2) set_filter by blast+
    then show "i \<in> e_id ` set (domain_events ?db)" by blast
  qed
qed

lemma event_system_ok: "event_system J cap db db' \<Longrightarrow> outbox_ok db \<Longrightarrow> outbox_ok db'"
  by (auto simp: event_system_def outbox_ok_prune intro: event_lease.inv_step)

lemma event_steps_system: "(event_step J cap)\<^sup>*\<^sup>* s t \<Longrightarrow> (event_system J cap)\<^sup>*\<^sup>* s t"
  by (rule predicate2D [OF rtranclp_mono]) (auto simp: event_system_def)

text \<open>C7: In every reachable outbox, retention included, deliveries and events have distinct ids and keys,
  every delivery belongs to a stored event, a delivery has a lease exactly while it runs, a running one has
  been charged at least one attempt, and every row is in a known state.\<close>

theorem outbox_well_formed:
  assumes "(event_system J cap)\<^sup>*\<^sup>* empty_outbox db"
  shows "outbox_ok db"
  using assms by (induction rule: rtranclp_induct) (simp_all add: event_system_ok)

theorem outbox_well_formed_witness: "outbox_ok demo_running \<and> event_deliveries demo_running \<noteq> []"
proof -
  from outbox_well_formed [OF event_steps_system [OF demo_reach_running]] show ?thesis by simp
qed

lemma filter_mono_list_all2:
  "list_all2 (\<lambda>x y. Q y \<longrightarrow> Q x) xs ys \<Longrightarrow> length (filter Q ys) \<le> length (filter Q xs)"
  by (induction rule: list_all2_induct) auto

lemma in_flight_evolves:
  assumes "evolves_in_place db db'" and "outbox_ok db"
  shows "in_flight db' p c \<le> in_flight db p c"
proof -
  have "list_all2 (\<lambda>r r'. d_evolves r r' \<and> delivery_ok r' \<and> delivery_ok r) (event_deliveries db) (event_deliveries db')"
    using assms outbox_okD(2) [OF assms(2)] unfolding evolves_in_place_def
    by (auto simp: list_all2_conv_all_nth)
  then show ?thesis
    unfolding in_flight_def rows_affected_def
    by (intro filter_mono_list_all2, elim list_all2_mono) (simp add: d_evolves_def d_same_def delivery_ok_def)
qed

lemma filter_update_one:
  assumes "distinct xs"
  shows "length (filter Q (update_many (\<lambda>r. r = m) f xs)) \<le> Suc (length (filter Q xs))"
  using assms
proof (induction xs)
  case (Cons x xs)
  show ?case
  proof (cases "x = m")
    case True
    with Cons.prems have "update_many (\<lambda>r. r = m) f xs = xs" by (intro update_many_id) auto
    with True show ?thesis by (simp add: update_many_def)
  qed (use Cons in \<open>auto simp: update_many_def\<close>)
qed (simp add: update_many_def)

lemma class_or_network_idem [simp]: "class_or_network EVENT_RESOURCE_CLASS_NETWORK = EVENT_RESOURCE_CLASS_NETWORK"
  by code_simp

lemma in_flight_claim:
  assumes ok: "outbox_ok db" and m: "m \<in> set (event_deliveries db)" and "\<not> plugin_in_flight_at_cap db (d_plugin_id m) (d_resource_class m) cap"
    and le: "in_flight db p c \<le> cap"
  shows "in_flight (claimed_outbox now w l m db) p c \<le> cap"
proof (cases "d_plugin_id m = p \<and> c = EVENT_RESOURCE_CLASS_NETWORK")
  case True
  have "class_or_network (d_resource_class m) = EVENT_RESOURCE_CLASS_NETWORK"
    using outbox_okD(2) [OF ok m] by (simp add: delivery_ok_def)
  with True assms(3) have "in_flight db p c < cap"
    by (auto simp: plugin_in_flight_at_cap_def)
  moreover have "distinct (event_deliveries db)" using outbox_okD(1) [OF ok] by (simp add: distinct_map)
  then have "in_flight (claimed_outbox now w l m db) p c \<le> Suc (in_flight db p c)"
    unfolding in_flight_def rows_affected_def claimed_outbox_def by (simp add: filter_update_one)
  ultimately show ?thesis by simp
next
  case False
  have "filter (\<lambda>r. d_plugin_id r = p \<and> d_running r \<and> d_resource_class r = c) (event_deliveries (claimed_outbox now w l m db))
      = filter (\<lambda>r. d_plugin_id r = p \<and> d_running r \<and> d_resource_class r = c) (event_deliveries db)"
    unfolding claimed_outbox_def using False outbox_okD(2) [OF ok m]
    by (auto simp: delivery_ok_def claim_delivery_update_def intro!: filter_update_many)
  with le show ?thesis by (simp add: in_flight_def rows_affected_def)
qed

lemma length_filter_filter: "length (filter Q (filter P xs)) \<le> length (filter Q xs)"
  by (induction xs) auto

lemma in_flight_step:
  assumes "event_system J cap db db'" and ok: "outbox_ok db" and le: "in_flight db p c \<le> cap"
  shows "in_flight db' p c \<le> cap"
proof -
  have prune: "in_flight (fst (prune_event_deliveries now a b db)) p c \<le> in_flight db p c" for now a b
    unfolding in_flight_def rows_affected_def pruned_tables(1) by (rule length_filter_filter)
  have appended: "in_flight db' p c = in_flight db p c" if "appends_pending db db'"
    using that by (auto simp: appends_pending_def in_flight_def rows_affected_def list_all_iff d_state_defs)
  from assms(1) show ?thesis
    unfolding event_system_def
  proof
    assume "event_step J cap db db'"
    from event_step_kinds [OF this ok] show ?thesis
    proof (elim disjE exE conjE)
      assume "appends_pending db db'"
      with appended le show ?thesis by simp
    next
      assume "evolves_in_place db db'"
      from in_flight_evolves [OF this ok] le show ?thesis by (rule order_trans)
    next
      fix m now w l
      assume "m \<in> set (event_deliveries db)" "\<not> plugin_in_flight_at_cap db (d_plugin_id m) (d_resource_class m) cap"
        "db' = claimed_outbox now w l m db"
      with in_flight_claim [OF ok] le show ?thesis by simp
    qed
  qed (use prune le in \<open>auto intro: order_trans\<close>)
qed

text \<open>C6: With a cap of \<open>cap\<close> deliveries per plugin, no reachable outbox has more than \<open>cap\<close> running deliveries of
  any plugin and resource class, however publishers, workers, reclaims, operators and retention interleave.\<close>

theorem plugin_in_flight_bounded:
  assumes "(event_system J cap)\<^sup>*\<^sup>* empty_outbox db"
  shows "in_flight db plugin_id class \<le> cap"
proof -
  from assms have "outbox_ok db \<and> in_flight db plugin_id class \<le> cap"
  proof (induction rule: rtranclp_induct)
    case base
    then show ?case by (simp add: in_flight_def rows_affected_def empty_outbox_def [THEN arg_cong, of event_deliveries])
  next
    case (step db db')
    then show ?case using event_system_ok in_flight_step by blast
  qed
  then show ?thesis ..
qed

theorem plugin_in_flight_bounded_witness: "in_flight demo_running ''p'' EVENT_RESOURCE_CLASS_NETWORK \<le> 1
   \<and> in_flight demo_running ''p'' EVENT_RESOURCE_CLASS_NETWORK \<noteq> 0"
proof -
  from plugin_in_flight_bounded [OF event_steps_system [OF demo_reach_running]]
  have "in_flight demo_running ''p'' EVENT_RESOURCE_CLASS_NETWORK \<le> 1" .
  moreover have "in_flight demo_running ''p'' EVENT_RESOURCE_CLASS_NETWORK \<noteq> 0"
    by (simp add: in_flight_def rows_affected_def claim_delivery_update_def d_running_def)
  ultimately show ?thesis by simp
qed

section \<open>What a claim takes\<close>

lemma find_sorted_least:
  assumes "sorted_wrt (\<lambda>x y. key x < key y) q" and "find P q = Some m" and "r \<in> set q" and "P r"
  shows "key m \<le> (key r :: 'k::linorder)"
proof -
  obtain k where k: "k < length q" "q ! k = m" "\<forall>j < k. \<not> P (q ! j)" using assms(2) by (auto simp: find_Some_iff)
  obtain j where j: "j < length q" "q ! j = r" using assms(3) by (auto simp: in_set_conv_nth)
  with k(3) assms(4) have "k = j \<or> k < j" by (metis linorder_neqE_nat)
  with assms(1) k j show ?thesis by (auto simp: sorted_wrt_iff_nth_less intro: less_imp_le)
qed

text \<open>C19: A claim pages through the due deliveries of the plugins it serves, and the page size does not matter:
  it fails, changing nothing, only when no due delivery is eligible, and otherwise takes the eligible one with
  the least creation time and id, bumps its generation, charges an attempt unless it resumes a suspended
  invocation, and touches no other row. Eligible means that no older unfinished delivery has the same plugin and
  ordering key, that the node subscribes to the event, and that the plugin is below its cap.\<close>

theorem claim_takes_oldest_eligible:
  assumes "outbox_ok db"
  shows "case claim_next_event_delivery_on J now owner lease_secs plugin_ids cap node db of
      (db', None) \<Rightarrow> db' = db \<and>
        (\<forall>r \<in> set (event_deliveries db). claim_ready_delivery now plugin_ids r \<longrightarrow> \<not> claim_eligible J cap node db r)
    | (db', Some claimed) \<Rightarrow>
        \<exists>m \<in> set (event_deliveries db).
          claim_ready_delivery now plugin_ids m \<and> claim_eligible J cap node db m
          \<and> (\<forall>r \<in> set (event_deliveries db).
               claim_ready_delivery now plugin_ids r \<and> claim_eligible J cap node db r \<longrightarrow> claim_key m \<le> claim_key r)
          \<and> db' = db\<lparr>event_deliveries :=
                      map (\<lambda>r. if r = m then claim_delivery_update now owner lease_secs m m else r) (event_deliveries db)\<rparr>
          \<and> dr_id claimed = d_id m \<and> dr_state claimed = ''running'' \<and> dr_lease_owner claimed = Some owner
          \<and> dr_lease_generation claimed = d_lease_generation m + 1
          \<and> dr_attempt_count claimed = (if d_resume_pending m \<noteq> 0 then max 1 (d_attempt_count m) else d_attempt_count m + 1)"
proof (cases "find (claim_eligible J cap node db) (claim_queue now plugin_ids None db)")
  case None
  then have "claim_next_event_delivery_on J now owner lease_secs plugin_ids cap node db = (db, None)"
    by (simp add: claim_next_find [OF assms] claim_result_def)
  with None show ?thesis by (auto simp: find_None_iff claim_queue_set claim_keyset_after_def)
next
  case (Some m)
  then have m: "m \<in> set (claim_queue now plugin_ids None db)" "claim_eligible J cap node db m"
    by (auto simp: find_Some_iff)
  have least: "claim_key m \<le> claim_key r"
    if "r \<in> set (event_deliveries db)" "claim_ready_delivery now plugin_ids r" "claim_eligible J cap node db r" for r
    using find_sorted_least [OF claim_queue_sorted [OF assms] Some, of r] that
    by (simp add: claim_queue_set claim_keyset_after_def)
  have table: "update_many (\<lambda>r. r = m) (claim_delivery_update now owner lease_secs m) (event_deliveries db)
      = map (\<lambda>r. if r = m then claim_delivery_update now owner lease_secs m m else r) (event_deliveries db)"
    by (simp add: update_many_def cong: if_cong)
  have res: "claim_next_event_delivery_on J now owner lease_secs plugin_ids cap node db =
      (claimed_outbox now owner lease_secs m db, Some (map_delivery (claim_delivery_update now owner lease_secs m m)))"
    using Some by (simp add: claim_next_find [OF assms] claim_result_def)
  have "m \<in> set (event_deliveries db)" "claim_ready_delivery now plugin_ids m"
    using m(1) by (simp_all add: claim_queue_set)
  then show ?thesis
    unfolding res prod.case option.case claimed_outbox_def table using m(2) least
    by (intro bexI [of _ m] conjI) (simp_all add: map_delivery_def claim_delivery_update_def)
qed

theorem claim_takes_oldest_eligible_witness:
  "\<exists>m \<in> set (event_deliveries demo_dispatched). claim_eligible demo_event_codec 1 [] demo_dispatched m \<and> d_id m = ''e1:p''"
  using claim_takes_oldest_eligible [OF demo_ok, where J = demo_event_codec and now = 3 and owner = "''w''"
      and lease_secs = 30 and plugin_ids = "[''p'']" and cap = 1 and node = "[]"]
  unfolding demo_claim by auto

text \<open>Claiming through a database plugin, candidate by candidate with one guarded update each, claims the
  same delivery and leaves the same tables as the one-transaction claim, except that a lease is never shorter
  than five seconds.\<close>

theorem host_cas_claim_agrees:
  assumes "outbox_ok db"
  shows "claim_next_event_delivery_host_cas J now owner lease_secs plugin_ids cap node db =
    claim_next_event_delivery_on J now owner (max 5 lease_secs) plugin_ids cap node db"
  by (simp only: host_cas_find [OF assms] claim_next_find [OF assms])

theorem host_cas_claim_agrees_witness:
  "claim_next_event_delivery_host_cas demo_event_codec 3 ''w'' 30 [''p''] 1 [] demo_dispatched = (demo_running,
     Some (map_delivery (claim_delivery_update 3 ''w'' 30 demo_delivery demo_delivery)))"
proof -
  have "max 5 30 = (30 :: nat)" by simp
  with host_cas_claim_agrees [OF demo_ok, of demo_event_codec 3 "''w''" 30 "[''p'']" 1 "[]"] show ?thesis
    by (simp only: demo_claim demo_running_def fst_conv)
qed

section \<open>Failures\<close>

lemma d_cas_one:
  assumes ok: "outbox_ok db" and r: "r \<in> set (event_deliveries db)" "d_fenced f r"
  shows "d_cas (d_fenced f) g db =
    (db\<lparr>event_deliveries := map (\<lambda>x. if x = r then g r else x) (event_deliveries db)\<rparr>, True)"
proof -
  have key: "d_id x = df_delivery_id f" if "d_fenced f x" for x using that by (simp add: d_fenced_def)
  have uniq: "x = r" if "x \<in> set (event_deliveries db)" "d_fenced f x" for x
    using distinct_key_unique [OF outbox_okD(1) [OF ok] that(1) r(1)] key that(2) r(2) by simp
  have "rows_affected (d_fenced f) (event_deliveries db) = 1"
    using rows_affected_key_eq_1_iff [where key = d_id, OF outbox_okD(1) [OF ok] key] r by blast
  moreover have "update_many (d_fenced f) g (event_deliveries db) = map (\<lambda>x. if x = r then g r else x) (event_deliveries db)"
    unfolding update_many_def by (rule map_cong [OF refl]) (use uniq r(2) in metis)
  ultimately show ?thesis by (simp add: d_cas_def)
qed

text \<open>A worker that reports a failure under a live fence either returns the delivery to the queue after the
  backoff delay, keeping its attempts, or, once it has used all its attempts, dead-letters it; the report is
  accepted, exactly one row changes, and the retry or the dead letter is counted.\<close>

theorem event_failure_outcome:
  assumes ok: "outbox_ok db" and r: "r \<in> set (event_deliveries db)" "d_fenced f r"
  shows "snd (fail_event_delivery now f reason db)
    \<and> event_deliveries (fst (fail_event_delivery now f reason db)) = map (\<lambda>x. if x = r then
        (if d_max_attempts r \<le> d_attempt_count r
         then r\<lparr>d_state := ''dead_letter'', d_outcome := Some ''dead_letter'', d_error_message := Some reason,
                d_lease_owner := None, d_lease_expires_at := None, d_updated_at := now\<rparr>
         else r\<lparr>d_state := ''pending'', d_run_after := job_backoff_run_after (d_attempt_count r) now, d_lease_owner := None,
                d_lease_expires_at := None, d_error_message := Some reason, d_updated_at := now\<rparr>) else x) (event_deliveries db)
    \<and> event_outbox_stats (fst (fail_event_delivery now f reason db)) =
        event_outbox_stats (if d_max_attempts r \<le> d_attempt_count r then bump_event_stats 0 0 1 None None db
                            else bump_event_stats 1 0 0 None None db)"
proof -
  have live: "d_running r \<and> d_lease_owner r = Some (df_owner f) \<and> d_lease_generation r = df_generation f"
    using r(2) by (simp add: d_fenced_def)
  have "find_by d_id (df_delivery_id f) (event_deliveries db) = Some r"
    using outbox_okD(1) [OF ok] r by (intro find_by_eq_Some) (auto simp: d_fenced_def)
  then have fail: "fail_event_delivery now f reason db =
      (if d_max_attempts r \<le> d_attempt_count r then dead_letter_event_delivery now f reason db
       else retry_event_delivery_from (Some r) now f (job_backoff_run_after (d_attempt_count r) now) reason db)"
    using live by (simp add: fail_event_delivery_def fail_event_delivery_from_def Let_def)
  have bump: "event_deliveries (bump_event_stats a b c x y d) = event_deliveries d"
    "event_outbox_stats (bump_event_stats a b c x y (d\<lparr>event_deliveries := ds\<rparr>)) = event_outbox_stats (bump_event_stats a b c x y d)"
    for a b c x y d ds
    by (simp_all add: bump_event_stats_def ensure_event_outbox_stats_def Let_def case_prod_beta)
  show ?thesis
  proof (cases "d_max_attempts r \<le> d_attempt_count r")
    case True
    then show ?thesis
      unfolding fail by (simp add: dead_letter_event_delivery_def finalize_delivery_def d_cas_one [OF ok r] bump)
  next
    case False
    then show ?thesis
      unfolding fail using live by (simp add: retry_event_delivery_from_def d_cas_one [OF ok r] bump)
  qed
qed

theorem event_failure_outcome_witness:
  "snd (fail_event_delivery 9 demo_delivery_fence ''boom'' demo_running)
   \<and> map d_state (event_deliveries (fst (fail_event_delivery 9 demo_delivery_fence ''boom'' demo_running))) = [''pending'']"
proof -
  have "outbox_ok demo_running" using event_lease.inv_steps [OF demo_reach_running] by simp
  from event_failure_outcome [OF this _ demo_delivery_fenced, of 9 "''boom''"] show ?thesis
    by (simp add: claim_delivery_update_def demo_delivery_def new_delivery_row_def EVENT_DELIVERY_MAX_ATTEMPTS_def)
qed

section \<open>Publishing\<close>

lemma prepared_spec:
  assumes "prepare_publish_domain_event uuid spec = Inr p" and "trim uuid = uuid" and "uuid \<noteq> []"
  shows "prepare_publish_domain_event uuid p = Inr p" and "pub_payload p = pub_payload spec"
    and "same_event_key p = same_event_key spec"
proof -
  have valid: "\<not> MAX_PAYLOAD < length (pub_payload spec)" "trim (pub_event_type spec) \<noteq> []" "trim (pub_dedup_key spec) \<noteq> []"
    "validate_event_source (pub_source spec) = Inr ()"
    and p: "p = spec\<lparr>pub_id := (if trim (pub_id spec) = [] then uuid else trim (pub_id spec))\<rparr>"
    using assms(1) by (auto simp: prepare_publish_domain_event_def split: if_splits sum.splits unit.splits)
  show "prepare_publish_domain_event uuid p = Inr p"
    using valid assms(2,3) unfolding p by (simp add: prepare_publish_domain_event_def split: unit.split)
  show "pub_payload p = pub_payload spec" "same_event_key p = same_event_key spec"
    unfolding p by (simp_all add: same_event_key_def fun_eq_iff)
qed

text \<open>C31: Publishing either fails and changes nothing; or stores exactly one new event, pending dispatch and wake,
  under a fresh id; or finds the event already stored under the same account, source, type and deduplication
  key, returns that id and changes nothing. Publishing the same key again after a success always gives the
  stored id back.\<close>

theorem publish_once:
  assumes ok: "outbox_ok db" and uuid: "trim uuid = uuid" "uuid \<noteq> []"
  shows "case publish_domain_event uuid now spec db of
      (db', Inl err) \<Rightarrow> db' = db
    | (db', Inr (PublishDuplicate i)) \<Rightarrow> db' = db \<and> (\<exists>e \<in> set (domain_events db). e_id e = i \<and> same_event_key spec e)
    | (db', Inr (PublishCreated i)) \<Rightarrow>
        (\<exists>e. domain_events db' = domain_events db @ [e] \<and> event_deliveries db' = event_deliveries db
           \<and> e_id e = i \<and> i \<notin> e_id ` set (domain_events db) \<and> same_event_key spec e \<and> e_payload e = pub_payload spec
           \<and> e_dispatch_state e = ''pending'' \<and> e_wake_pending e = 1)
        \<and> publish_domain_event uuid later spec db' = (db', Inr (PublishDuplicate i))"
proof (cases "prepare_publish_domain_event uuid spec")
  case (Inl err)
  then show ?thesis by (simp add: publish_domain_event_def)
next
  case (Inr p)
  note p = prepared_spec [OF Inr uuid]
  have pub: "publish_domain_event uuid t spec d =
      (case find (same_event_key spec) (domain_events d) of
         Some existing \<Rightarrow> (d, Inr (PublishDuplicate (e_id existing)))
       | None \<Rightarrow> if pub_id p \<in> e_id ` set (domain_events d)
           then (d, Inl (EventOrm ''UNIQUE constraint failed: domain_events.id''))
           else (d\<lparr>domain_events := domain_events d @ [new_event_row t p]\<rparr>, Inr (PublishCreated (pub_id p))))" for t d
    by (simp add: publish_domain_event_def Inr in_txn_def publish_domain_event_on_def p split: option.split)
  show ?thesis
  proof (cases "find (same_event_key spec) (domain_events db)")
    case (Some existing)
    then have "existing \<in> set (domain_events db)" "same_event_key spec existing" by (auto simp: find_Some_iff)
    with Some show ?thesis by (auto simp: pub)
  next
    case None
    have "same_event_key p (new_event_row now p)" by (simp add: same_event_key_def new_event_row_def)
    then have "same_event_key spec (new_event_row now p)" "e_payload (new_event_row now p) = pub_payload spec"
      by (simp_all add: p(3)) (simp add: new_event_row_def p(2))
    with None show ?thesis by (simp add: pub find_append) (simp add: new_event_row_def)
  qed
qed

theorem publish_once_witness:
  "publish_domain_event ''u'' 7 demo_event (empty_outbox\<lparr>domain_events := [demo_event_row]\<rparr>)
   = (empty_outbox\<lparr>domain_events := [demo_event_row]\<rparr>, Inr (PublishDuplicate ''e1''))"
proof -
  have "trim ''u'' = ''u''" by code_simp
  from publish_once [OF outbox_ok_empty this, where now = 1 and spec = demo_event and later = 7] show ?thesis by (simp add: demo_published)
qed

section \<open>Dispatch\<close>

lemma clash_ids: "delivery_clash (new_delivery_row now event p) r \<longleftrightarrow>
    d_id r = e_id event @ '':'' @ p \<or> d_event_id r = e_id event \<and> d_plugin_id r = p
    \<or> d_idempotency_key r = e_id event @ '':'' @ p"
  by (simp add: delivery_clash_def new_delivery_row_def)

lemma last_separator:
  assumes "a @ x # b = c @ x # d" and "x \<notin> set b" and "x \<notin> set d"
  shows "a = c \<and> b = d"
proof -
  have "rev b @ x # rev a = rev d @ x # rev c" using arg_cong [OF assms(1), of rev] by simp
  moreover have "takeWhile (\<lambda>y. y \<noteq> x) (rev b @ x # rev a) = rev b" "takeWhile (\<lambda>y. y \<noteq> x) (rev d @ x # rev c) = rev d"
    using assms(2,3) by (auto simp: takeWhile_append)
  ultimately have "rev b = rev d" by metis
  with assms(1) show ?thesis by simp
qed

lemma dispatch_loop_covers:
  assumes "outbox_ok db" and "event \<in> set (domain_events db)" and "sub \<in> set subs" and "dispatchable sub"
  shows "\<exists>r \<in> set (event_deliveries (fst (dispatch_loop now event subs db))).
    delivery_clash (new_delivery_row now event (es_plugin_id sub)) r"
  using assms
proof (induction subs arbitrary: db)
  case (Cons s subs)
  show ?case
  proof (cases "dispatchable s")
    case False
    with Cons show ?thesis by auto
  next
    case True
    show ?thesis
    proof (cases "insert_delivery (new_delivery_row now event (es_plugin_id s)) db")
      case None
      then obtain r where "r \<in> set (event_deliveries db)" "delivery_clash (new_delivery_row now event (es_plugin_id s)) r"
        by (auto simp: insert_delivery_def split: if_splits)
      moreover have "set (event_deliveries db) \<subseteq> set (event_deliveries (fst (dispatch_loop now event subs db)))"
        using dispatch_loop_ok [OF Cons.prems(1,2), of now subs] by auto
      ultimately show ?thesis using True None Cons by auto
    next
      case (Some db1)
      note ins = insert_delivery_ok [OF Cons.prems(1,2) Some]
      have "set (event_deliveries db1) \<subseteq> set (event_deliveries (fst (dispatch_loop now event subs db1)))"
        using dispatch_loop_ok [OF ins(1), of event now subs] ins(3) Cons.prems(2) by auto
      moreover have "delivery_clash (new_delivery_row now event p) (new_delivery_row now event p)" for p
        by (simp add: delivery_clash_def)
      ultimately show ?thesis using True Some Cons.IH [of db1] Cons.prems ins by (auto simp: case_prod_beta)
    qed
  qed
qed simp

lemma dispatch_loop_only:
  assumes "r \<in> set (event_deliveries (fst (dispatch_loop now event subs db)))"
  shows "r \<in> set (event_deliveries db)
    \<or> (\<exists>sub \<in> set subs. dispatchable sub \<and> r = new_delivery_row now event (es_plugin_id sub))"
  using assms
  by (induction now event subs db rule: dispatch_loop.induct)
    (auto simp: case_prod_beta insert_delivery_def split: if_splits option.splits)

lemma dispatch_loop_idle:
  assumes "\<And>sub. sub \<in> set subs \<Longrightarrow> dispatchable sub \<Longrightarrow>
    \<exists>r \<in> set (event_deliveries db). delivery_clash (new_delivery_row now event (es_plugin_id sub)) r"
  shows "dispatch_loop now event subs db = (db, 0)"
  using assms by (induction subs) (auto simp: insert_delivery_def)


lemma dispatch_found:
  assumes "find_by e_id i (domain_events db) = Some event"
  shows "snd (dispatch_event_deliveries_on now i subs db) = snd (dispatch_loop now event subs db)"
    and "domain_events (fst (dispatch_event_deliveries_on now i subs db)) =
      update_many (\<lambda>e. e_id e = i \<and> e_dispatch_state e = ''pending'') (\<lambda>e. e\<lparr>e_dispatch_state := ''dispatched''\<rparr>)
        (domain_events (fst (dispatch_loop now event subs db)))"
  using assms
  by (simp_all add: dispatch_event_deliveries_on_def mark_dispatched_def bump_event_stats_def Let_def case_prod_beta)

lemma dispatch_again:
  assumes ok: "outbox_ok db" and event: "event \<in> set (domain_events db)" "e_id event = i"
  shows "event_deliveries (fst (dispatch_event_deliveries_on later i subs (fst (dispatch_event_deliveries_on now i subs db))))
      = event_deliveries (fst (dispatch_event_deliveries_on now i subs db))"
    and "snd (dispatch_event_deliveries_on later i subs (fst (dispatch_event_deliveries_on now i subs db))) = 0"
proof -
  let ?db = "fst (dispatch_event_deliveries_on now i subs db)"
  have found: "find_by e_id i (domain_events db) = Some event"
    using outbox_okD(3) [OF ok] event by (rule find_by_eq_Some)
  from dispatch_loop_ok [OF ok event(1), of now subs]
  have "domain_events (fst (dispatch_loop now event subs db)) = domain_events db" by blast
  with dispatch_found(2) [OF found, of now subs] found obtain event' where
    found': "find_by e_id i (domain_events ?db) = Some event'" and same: "e_id event' = i"
    by (auto simp: find_by_update_many dest: find_by_SomeD)
  have del: "event_deliveries ?db = event_deliveries (fst (dispatch_loop now event subs db))"
    using found by (simp add: dispatch_deliveries)
  have "dispatch_loop later event' subs ?db = (?db, 0)"
    using dispatch_loop_covers [OF ok event(1), of _ subs now]
    by (intro dispatch_loop_idle) (simp add: del clash_ids same event(2))
  then show "event_deliveries (fst (dispatch_event_deliveries_on later i subs ?db)) = event_deliveries ?db"
    "snd (dispatch_event_deliveries_on later i subs ?db) = 0"
    using dispatch_found(1) [OF found', of later subs] by (simp_all add: dispatch_deliveries found')
qed

lemma dispatch_loop_one:
  assumes ok: "outbox_ok db" and event: "event \<in> set (domain_events db)"
    and rows: "\<forall>r \<in> set (event_deliveries db). CHR '':'' \<notin> set (d_plugin_id r)"
    and subs: "\<forall>sub \<in> set subs. CHR '':'' \<notin> set (es_plugin_id sub)"
    and sub: "sub \<in> set subs" "dispatchable sub"
  shows "rows_affected (\<lambda>r. d_event_id r = e_id event \<and> d_plugin_id r = es_plugin_id sub)
    (event_deliveries (fst (dispatch_loop now event subs db))) = 1"
proof -
  let ?loop = "fst (dispatch_loop now event subs db)"
  have ok': "outbox_ok ?loop" using dispatch_loop_ok [OF ok event] by blast
  obtain r where r: "r \<in> set (event_deliveries ?loop)" "delivery_clash (new_delivery_row now event (es_plugin_id sub)) r"
    using dispatch_loop_covers [OF ok event sub] by blast
  have "CHR '':'' \<notin> set (d_plugin_id r)"
    using dispatch_loop_only [OF r(1)] rows subs by (auto simp: new_delivery_row_def)
  moreover have "d_id r = d_event_id r @ '':'' @ d_plugin_id r" "d_idempotency_key r = d_id r"
    using outbox_okD(2) [OF ok' r(1)] by (simp_all add: delivery_ok_def)
  ultimately have "d_event_id r = e_id event \<and> d_plugin_id r = es_plugin_id sub"
    using r(2) subs sub(1) last_separator [of "d_event_id r" "CHR '':''" "d_plugin_id r" "e_id event" "es_plugin_id sub"]
    by (auto simp: clash_ids)
  with r(1) ok' show ?thesis
    by (subst rows_affected_key_eq_1_iff [where key = "\<lambda>r. (d_event_id r, d_plugin_id r)" and k = "(e_id event, es_plugin_id sub)"])
      (auto simp: outbox_ok_def)
qed

text \<open>C20: Dispatching a stored event keeps every existing delivery as it is, gives each dispatchable subscriber
  exactly one delivery of the event (plugin ids without a colon), creates nothing for anyone else, and marks the
  event dispatched; dispatching it again, at any later time, creates nothing and changes no delivery.\<close>

theorem dispatch_exactly_once:
  assumes ok: "outbox_ok db" and event: "event \<in> set (domain_events db)" "e_id event = i"
    and rows: "\<forall>r \<in> set (event_deliveries db). CHR '':'' \<notin> set (d_plugin_id r)"
    and subs: "\<forall>sub \<in> set subs. CHR '':'' \<notin> set (es_plugin_id sub)"
    and db': "db' = fst (dispatch_event_deliveries_on now i subs db)"
  shows "(\<exists>new. event_deliveries db' = event_deliveries db @ new
      \<and> (\<forall>r \<in> set new. \<exists>sub \<in> set subs. dispatchable sub \<and> r = new_delivery_row now event (es_plugin_id sub)))
    \<and> (\<forall>sub \<in> set subs. dispatchable sub \<longrightarrow>
         rows_affected (\<lambda>r. d_event_id r = i \<and> d_plugin_id r = es_plugin_id sub) (event_deliveries db') = 1)
    \<and> (\<forall>e \<in> set (domain_events db'). e_id e = i \<longrightarrow> e_dispatch_state e = ''dispatched'')
    \<and> event_deliveries (fst (dispatch_event_deliveries_on later i subs db')) = event_deliveries db'
    \<and> snd (dispatch_event_deliveries_on later i subs db') = 0"
proof -
  let ?loop = "fst (dispatch_loop now event subs db)"
  have found: "find_by e_id i (domain_events db) = Some event"
    using outbox_okD(3) [OF ok] event by (rule find_by_eq_Some)
  then have del: "event_deliveries db' = event_deliveries ?loop" by (simp add: db' dispatch_deliveries)
  from dispatch_loop_ok [OF ok event(1), of now subs] obtain new where
    loop: "outbox_ok ?loop" "event_deliveries ?loop = event_deliveries db @ new" "domain_events ?loop = domain_events db"
    by blast
  have ids: "distinct (map d_id (event_deliveries db @ new))" using outbox_okD(1) [OF loop(1)] loop(2) by simp
  have "r \<notin> set (event_deliveries db)" if "r \<in> set new" for r
    using ids that unfolding map_append distinct_append by auto
  then have only: "\<exists>sub \<in> set subs. dispatchable sub \<and> r = new_delivery_row now event (es_plugin_id sub)" if "r \<in> set new" for r
    using dispatch_loop_only [of r now event subs db] that loop(2) by auto
  have marked: "e_dispatch_state e = ''dispatched''" if e: "e \<in> set (domain_events db')" "e_id e = i" for e
  proof -
    from e(1) obtain e0 where "e0 \<in> set (domain_events db)"
      "e = (if e_id e0 = i \<and> e_dispatch_state e0 = ''pending'' then e0\<lparr>e_dispatch_state := ''dispatched''\<rparr> else e0)"
      unfolding db' dispatch_found(2) [OF found] loop(3) update_many_def set_map by (rule imageE)
    with outbox_okD(4) [OF ok, of e0] e(2) show ?thesis by (auto simp: event_ok_def split: if_splits)
  qed
  have one: "rows_affected (\<lambda>r. d_event_id r = i \<and> d_plugin_id r = es_plugin_id sub) (event_deliveries db') = 1"
    if "sub \<in> set subs" "dispatchable sub" for sub
    using dispatch_loop_one [OF ok event(1) rows subs that, of now] by (simp only: del event(2))
  show ?thesis
  proof (intro conjI ballI impI)
    show "\<exists>new. event_deliveries db' = event_deliveries db @ new
        \<and> (\<forall>r \<in> set new. \<exists>sub \<in> set subs. dispatchable sub \<and> r = new_delivery_row now event (es_plugin_id sub))"
      using only loop(2) del by auto
  qed (use marked one dispatch_again [OF ok event, of later subs now] in \<open>simp_all add: db'\<close>)
qed

theorem dispatch_exactly_once_witness:
  "rows_affected (\<lambda>r. d_event_id r = ''e1'' \<and> d_plugin_id r = ''p'')
     (event_deliveries (fst (dispatch_event_deliveries_on 2 ''e1'' [EventSubscriber_plugin ''p'']
       (empty_outbox\<lparr>domain_events := [demo_event_row]\<rparr>)))) = 1"
proof -
  let ?db = "empty_outbox\<lparr>domain_events := [demo_event_row]\<rparr>"
  have "outbox_ok (fst (publish_domain_event ''u'' 1 demo_event empty_outbox))"
    using publish_appends [OF outbox_ok_empty] by (simp add: appends_pending_def)
  then have ok: "outbox_ok ?db" by (simp add: demo_published)
  have event: "demo_event_row \<in> set (domain_events ?db)" by simp
  have rows: "\<forall>r \<in> set (event_deliveries ?db). CHR '':'' \<notin> set (d_plugin_id r)" by (simp add: empty_outbox_def)
  have subs: "\<forall>sub \<in> set [EventSubscriber_plugin ''p'']. CHR '':'' \<notin> set (es_plugin_id sub)"
    by (simp add: EventSubscriber_plugin_def)
  have "dispatchable (EventSubscriber_plugin ''p'')" by code_simp
  then show ?thesis
    using dispatch_exactly_once [OF ok event demo_row_fields(1) rows subs refl, of 2] by (simp add: EventSubscriber_plugin_def)
qed

end
