(* ===== verification/Event_Wake_Pass.thy ===== *)
theory Event_Wake_Pass
  imports Event_Props
begin

text \<open>
  A wake pass: repeated ticks on one published event. The pass ends, and it wakes exactly the suspended
  deliveries that wait for the event and whose grants match it.
\<close>

section \<open>One page\<close>

lemma concat_chunks: "concat (chunks n xs) = xs"
  by (induction n xs rule: chunks.induct) (subst chunks.simps, simp)

lemma woken_twice: "woken_delivery now (woken_delivery now r) = woken_delivery now r"
  by (simp add: woken_delivery_def)

lemma wake_chunks_once:
  assumes "\<exists>e \<in> set (domain_events db). wake_holds i w e"
  shows "fst (wake_chunks i w now idss n db) =
    db\<lparr>event_deliveries := update_many (\<lambda>r. d_id r \<in> set (concat idss) \<and> d_pending r) (woken_delivery now) (event_deliveries db)\<rparr>"
  using assms
proof (induction idss arbitrary: n db)
  case Nil
  then show ?case by (simp add: update_many_def)
next
  case (Cons ids idss)
  have one: "fst (wake_chunk i w now ids db) =
      db\<lparr>event_deliveries := update_many (\<lambda>r. d_id r \<in> set ids \<and> d_pending r) (woken_delivery now) (event_deliveries db)\<rparr>"
    using Cons.prems by (simp add: wake_chunk_def Let_def)
  have [simp]: "d_id (woken_delivery now r) = d_id r" "d_pending (woken_delivery now r) = d_pending r" for r
    by (simp_all add: woken_delivery_def d_pending_def)
  show ?case
    using Cons.prems by (simp add: case_prod_beta one Cons.IH) (auto simp: update_many_def woken_twice)
qed

lemma wake_fenced:
  assumes "\<exists>e \<in> set (domain_events db). wake_holds i w e"
  shows "fst (wake_deliveries_fenced_on i w ids now max_binds db) =
    db\<lparr>event_deliveries := update_many (\<lambda>r. d_id r \<in> set ids \<and> d_pending r) (woken_delivery now) (event_deliveries db)\<rparr>"
  by (simp add: wake_deliveries_fenced_on_def wake_chunks_once [OF assms] concat_chunks) (simp add: update_many_def)

definition wake_queue :: "event_row \<Rightarrow> outbox \<Rightarrow> delivery_row list" where
  "wake_queue row db = order_by claim_key (filter (\<lambda>r. waits_for row r \<and> after_wake_cursor row r) (event_deliveries db))"

lemma wake_queue_sorted:
  assumes "outbox_ok db"
  shows "sorted_wrt (\<lambda>x y. claim_key x < claim_key y) (wake_queue row db)"
proof -
  have "distinct (map d_id (wake_queue row db))"
    unfolding wake_queue_def using outbox_okD(1) [OF assms] by (simp add: distinct_map_filter)
  then have "distinct (map claim_key (wake_queue row db))"
    by (auto simp: distinct_map inj_on_def claim_key_def)
  moreover have "sorted (map claim_key (wake_queue row db))" by (simp add: wake_queue_def order_by_def)
  ultimately have "sorted_wrt (<) (map claim_key (wake_queue row db))" by (simp only: strict_sorted_iff)
  then show ?thesis by (simp only: sorted_wrt_map)
qed

lemma wake_queue_set:
  "r \<in> set (wake_queue row db) \<longleftrightarrow> r \<in> set (event_deliveries db) \<and> waits_for row r \<and> after_wake_cursor row r"
  by (simp add: wake_queue_def table_simps)

text \<open>The table after a page: exactly the matching rows of the page are woken.\<close>

definition woken_page :: "event_codec \<Rightarrow> timestamp \<Rightarrow> nat \<Rightarrow> event_row \<Rightarrow> outbox \<Rightarrow> delivery_row list" where
  "woken_page J now page row db =
     update_many (\<lambda>r. r \<in> set (take page (wake_queue row db)) \<and> wake_matches J db row r) (woken_delivery now)
       (event_deliveries db)"

lemma wake_page_rows_queue: "wake_page_rows page row db = take page (wake_queue row db)"
  by (simp add: wake_page_rows_def wake_queue_def)

lemma wake_page_deliveries:
  assumes ok: "outbox_ok db" and held: "\<exists>e \<in> set (domain_events db). wake_holds (e_id row) w e"
    and "trim (e_event_type row) \<noteq> []"
  shows "event_deliveries (fst (wake_one_page_on J now row w page max_binds db)) = woken_page J now page row db"
proof -
  define rows where "rows = wake_page_rows page row db"
  have queued: "r \<in> set (wake_queue row db)" if "r \<in> set rows" for r
    using that by (auto simp: rows_def wake_page_rows_queue dest: in_set_takeD)
  have "update_many (\<lambda>r. d_id r \<in> set (map d_id (filter (wake_matches J db row) rows)) \<and> d_pending r)
      (woken_delivery now) (event_deliveries db)
    = update_many (\<lambda>r. r \<in> set rows \<and> wake_matches J db row r) (woken_delivery now) (event_deliveries db)"
  proof (rule update_many_cong)
    fix r
    assume r: "r \<in> set (event_deliveries db)"
    have uniq: "x = r" if "x \<in> set rows" "d_id r = d_id x" for x
      using queued [OF that(1)] that(2) r outbox_okD(1) [OF ok] by (auto simp: wake_queue_set dest: distinct_key_unique)
    have "d_pending r" if "r \<in> set rows" using queued [OF that] by (simp add: wake_queue_set waits_for_def)
    with uniq have "d_id r \<in> set (map d_id (filter (wake_matches J db row) rows)) \<and> d_pending r
        \<longleftrightarrow> r \<in> set rows \<and> wake_matches J db row r" by auto
    then show "(if d_id r \<in> set (map d_id (filter (wake_matches J db row) rows)) \<and> d_pending r then woken_delivery now r else r)
        = (if r \<in> set rows \<and> wake_matches J db row r then woken_delivery now r else r)" by presburger
  qed
  moreover have "update_many (\<lambda>r. r \<in> set rows \<and> wake_matches J db row r) (woken_delivery now) (event_deliveries db)
      = event_deliveries db" if "rows = []"
    by (rule update_many_id) (simp add: that)
  ultimately show ?thesis
    using assms(3)
    by (simp add: wake_one_page_on_def Let_def case_prod_beta finish_wake_on_def release_wake_cursor_on_def e_cas_def
        wake_fenced [OF held] woken_page_def flip: rows_def wake_page_rows_queue)
qed

text \<open>What a page leaves of the event: done, or the cursor of the next page and no lease.\<close>

definition wake_done :: "event_row \<Rightarrow> event_row" where
  "wake_done e = e\<lparr>e_wake_pending := 0, e_wake_lease_owner := None, e_wake_lease_expires_at := None,
     e_wake_cursor_at := None, e_wake_cursor_id := []\<rparr>"

definition wake_moved :: "delivery_row \<Rightarrow> event_row \<Rightarrow> event_row" where
  "wake_moved r e = e\<lparr>e_wake_cursor_at := Some (d_created_at r), e_wake_cursor_id := d_id r,
     e_wake_lease_owner := None, e_wake_lease_expires_at := None\<rparr>"

definition page_event :: "nat \<Rightarrow> event_row \<Rightarrow> outbox \<Rightarrow> event_row" where
  "page_event page row db =
     (let rows = take page (wake_queue row db)
      in if length rows < page then wake_done row else wake_moved (last rows) row)"

lemma e_cas_events: "domain_events (fst (e_cas P f db)) = update_many P f (domain_events db)"
  by (simp add: e_cas_def)

lemma update_one_event:
  assumes "distinct (map e_id es)" and "row \<in> set es" and "P row" and "\<And>e. P e \<Longrightarrow> e_id e = e_id row"
  shows "update_many P f es = update_many (\<lambda>e. e = row) (\<lambda>_. f row) es"
  using assms by (intro update_many_cong) (metis distinct_key_unique)

lemma wake_page_event:
  assumes ok: "outbox_ok db" and row: "row \<in> set (domain_events db)" and held: "wake_holds (e_id row) w row"
    and "trim (e_event_type row) \<noteq> []" and "0 < page"
  shows "domain_events (fst (wake_one_page_on J now row w page max_binds db)) =
    update_many (\<lambda>e. e = row) (\<lambda>_. page_event page row db) (domain_events db)"
proof -
  define rows where "rows = wake_page_rows page row db"
  have ex: "\<exists>e \<in> set (domain_events db). wake_holds (e_id row) w e" using row held by blast
  have upd: "update_many (wake_holds (e_id row) w) f (domain_events db) = update_many (\<lambda>e. e = row) (\<lambda>_. f row) (domain_events db)" for f
    using outbox_okD(3) [OF ok] row held by (rule update_one_event) (simp add: wake_holds_def)
  have finish: "domain_events (fst (finish_wake_on (e_id row) w db')) = update_many (\<lambda>e. e = row) (\<lambda>_. wake_done row) (domain_events db)"
    if "domain_events db' = domain_events db" for db'
    unfolding finish_wake_on_def e_cas_events that upd by (simp only: wake_done_def)
  have move: "domain_events (fst (release_wake_cursor_on (e_id row) w (Some (d_created_at r)) (d_id r) db')) =
      update_many (\<lambda>e. e = row) (\<lambda>_. wake_moved r row) (domain_events db)"
    if "domain_events db' = domain_events db" for db' r
    unfolding release_wake_cursor_on_def e_cas_events that upd by (simp only: wake_moved_def)
  have woken: "domain_events (fst (wake_deliveries_fenced_on (e_id row) w ids now max_binds db)) = domain_events db" for ids
    by (simp add: wake_fenced [OF ex])
  show ?thesis
    unfolding wake_one_page_on_def page_event_def wake_page_rows_queue [symmetric] rows_def [symmetric] Let_def
    using assms(4,5) by (simp add: case_prod_beta finish move woken)
qed

section \<open>One tick\<close>

definition wake_leased :: "timestamp \<Rightarrow> nat \<Rightarrow> string \<Rightarrow> event_row \<Rightarrow> event_row" where
  "wake_leased now l w e = e\<lparr>e_wake_lease_owner := Some w, e_wake_lease_expires_at := Some (lease_until now l)\<rparr>"

lemma claim_wake_hit:
  assumes ok: "outbox_ok db" and row: "row \<in> set (domain_events db)" and "wake_claimable now row"
  shows "snd (claim_wake now l w (e_id row) db)"
    and "fst (claim_wake now l w (e_id row) db) = db\<lparr>domain_events := update_many (\<lambda>e. e = row) (\<lambda>_. wake_leased now l w row) (domain_events db)\<rparr>"
proof -
  let ?P = "\<lambda>e. e_id e = e_id row \<and> wake_claimable now e"
  show "snd (claim_wake now l w (e_id row) db)"
    using rows_affected_key_eq_1_iff [OF outbox_okD(3) [OF ok], of ?P "e_id row"] row assms(3)
    by (auto simp: claim_wake_def e_cas_def)
  show "fst (claim_wake now l w (e_id row) db) = db\<lparr>domain_events := update_many (\<lambda>e. e = row) (\<lambda>_. wake_leased now l w row) (domain_events db)\<rparr>"
    unfolding claim_wake_def e_cas_def fst_conv wake_leased_def
    by (subst update_one_event [OF outbox_okD(3) [OF ok] row]) (use assms(3) in simp_all)
qed


definition set_event :: "event_row \<Rightarrow> event_row \<Rightarrow> event_row list \<Rightarrow> event_row list" where
  "set_event row row' es = update_many (\<lambda>e. e = row) (\<lambda>_. row') es"

lemma set_event_set_event:
  assumes "distinct (map e_id es)" and "row \<in> set es" and "e_id a = e_id row"
  shows "set_event a b (set_event row a es) = set_event row b es"
proof -
  have "e \<in> set es \<Longrightarrow> e = a \<Longrightarrow> e = row" for e using assms by (auto dest: distinct_key_unique)
  then show ?thesis by (auto simp: set_event_def update_many_def)
qed

lemma find_set_event:
  assumes "distinct (map e_id es)" and "row \<in> set es" and "e_id a = e_id row"
  shows "find_by e_id k (set_event row a es) = (if k = e_id row then Some a else find_by e_id k es)"
proof -
  have "find_by e_id k (set_event row a es) = map_option (\<lambda>e. if e = row then a else e) (find_by e_id k es)"
    unfolding set_event_def update_many_def find_by_def using assms(3)
    by (induction es) auto
  moreover have "find_by e_id (e_id row) es = Some row" using assms(1,2) by (auto intro: find_by_eq_Some)
  moreover have "find_by e_id k es \<noteq> Some row" if "k \<noteq> e_id row" using that by (auto dest: find_by_SomeD)
  ultimately show ?thesis by (cases "find_by e_id k es") auto
qed

text \<open>The columns a wake reads of the published event.\<close>

definition same_published :: "event_row \<Rightarrow> event_row \<Rightarrow> bool" where
  "same_published e e' \<longleftrightarrow> e_id e' = e_id e \<and> e_event_type e' = e_event_type e \<and> e_account_id e' = e_account_id e
     \<and> e_schema_version e' = e_schema_version e \<and> e_payload e' = e_payload e"

lemma same_published_page [simp]:
  "same_published row (wake_leased now l w row)" "same_published row (page_event page row db)"
  by (simp_all add: same_published_def wake_leased_def page_event_def wake_done_def wake_moved_def Let_def)

lemma wake_matches_set_event:
  assumes "outbox_ok db" and "row \<in> set (domain_events db)" and "same_published row row'"
    and "domain_events db' = set_event row row' (domain_events db)"
  shows "wake_matches J db' row' r = wake_matches J db row r"
proof -
  have "find_by e_id (e_id row) (domain_events db) = Some row"
    using outbox_okD(3) [OF assms(1)] assms(2) by (auto intro: find_by_eq_Some)
  with assms(3) find_set_event [OF outbox_okD(3) [OF assms(1)] assms(2), of row'] show ?thesis
    by (simp add: wake_matches_def assms(4) same_published_def)
qed

lemma wake_tick:
  assumes ok: "outbox_ok db" and row: "row \<in> set (domain_events db)" and claim: "wake_claimable now row"
    and type: "trim (e_event_type row) \<noteq> []" and page: "0 < page"
  shows "domain_events (fst (wake_event J now l page max_binds w (e_id row) db)) =
      set_event row (page_event page row db) (domain_events db)"
    and "event_deliveries (fst (wake_event J now l page max_binds w (e_id row) db)) = woken_page J now page row db"
proof -
  let ?a = "wake_leased now l w row"
  note ids = outbox_okD(3) [OF ok]
  define db1 where "db1 = db\<lparr>domain_events := set_event row ?a (domain_events db)\<rparr>"
  have hit: "claim_wake now l w (e_id row) db = (db1, True)"
    using claim_wake_hit [OF ok row claim, of l w] by (simp add: prod_eq_iff db1_def set_event_def)
  have a: "e_id ?a = e_id row" by (simp add: wake_leased_def)
  have found: "find_by e_id (e_id row) (domain_events db1) = Some ?a"
    by (simp add: db1_def find_set_event [OF ids row a])
  have ok1: "outbox_ok db1"
    using outbox_ok_evolves [OF ok wake_cursor_evolves(3) [OF ok, of now l w "e_id row"]] hit by simp
  have in1: "?a \<in> set (domain_events db1)" using found by (auto dest: find_by_SomeD)
  have held: "wake_holds (e_id ?a) w ?a"
    using claim by (simp add: wake_holds_def wake_leased_def wake_claimable_def)
  then have ex: "\<exists>e \<in> set (domain_events db1). wake_holds (e_id ?a) w e" using in1 by blast
  have type1: "trim (e_event_type ?a) \<noteq> []" using type by (simp add: wake_leased_def)
  have queue: "wake_queue ?a db1 = wake_queue row db"
    by (simp add: wake_queue_def db1_def waits_for_def after_wake_cursor_def wake_leased_def cong: option.case_cong)
  have pe: "page_event page ?a db1 = page_event page row db"
    by (simp add: page_event_def queue) (simp add: wake_leased_def wake_done_def wake_moved_def Let_def)
  have matches: "wake_matches J db1 ?a r = wake_matches J db row r" for r
    by (rule wake_matches_set_event [OF ok row]) (simp_all add: db1_def)
  have step: "fst (wake_event J now l page max_binds w (e_id row) db) = fst (wake_one_page_on J now ?a w page max_binds db1)"
    by (simp add: wake_event_def hit found Let_def)
  show "domain_events (fst (wake_event J now l page max_binds w (e_id row) db)) =
      set_event row (page_event page row db) (domain_events db)"
    unfolding step wake_page_event [OF ok1 in1 held type1 page] pe set_event_def [symmetric]
    by (simp add: db1_def set_event_set_event [OF ids row a])
  show "event_deliveries (fst (wake_event J now l page max_binds w (e_id row) db)) = woken_page J now page row db"
    unfolding step wake_page_deliveries [OF ok1 ex type1] woken_page_def queue matches
    by (simp add: db1_def)
qed

lemma wake_tick_ok:
  assumes "outbox_ok db"
  shows "outbox_ok (fst (wake_event J now l page max_binds w i db))"
proof -
  have ok1: "outbox_ok (fst (claim_wake now l w i db))"
    using outbox_ok_evolves [OF assms wake_cursor_evolves(3) [OF assms]] .
  then show ?thesis
    using outbox_ok_evolves [OF ok1 wake_one_page_evolves [OF ok1]]
    by (simp add: wake_event_def Let_def case_prod_beta split: option.split)
qed


section \<open>The pass\<close>

text \<open>Ticks on one event, each with its clock reading and lease token.\<close>

fun wake_pass ::
  "event_codec \<Rightarrow> nat \<Rightarrow> nat \<Rightarrow> nat \<Rightarrow> string \<Rightarrow> (timestamp \<times> string) list \<Rightarrow> outbox \<Rightarrow> outbox" where
  "wake_pass J lease_secs page max_binds event_id [] db = db"
| "wake_pass J lease_secs page max_binds event_id ((now, token) # ticks) db =
     wake_pass J lease_secs page max_binds event_id ticks
       (fst (wake_event J now lease_secs page max_binds token event_id db))"

lemma after_moved: "after_wake_cursor (wake_moved r0 row) r \<longleftrightarrow> claim_key r0 < claim_key r"
  by (auto simp: after_wake_cursor_def wake_moved_def claim_key_def less_prod_def less_le)

lemma after_trans: "after_wake_cursor row r0 \<Longrightarrow> claim_key r0 < claim_key r \<Longrightarrow> after_wake_cursor row r"
  by (auto simp: after_wake_cursor_def claim_key_def less_prod_def less_le split: option.splits)

lemma woken_not_waiting: "e_event_type row \<noteq> [] \<Longrightarrow> \<not> waits_for row (woken_delivery now r)"
  by (simp add: waits_for_def woken_delivery_def)

lemma wake_queue_rest:
  assumes ok: "outbox_ok db" and type: "e_event_type row \<noteq> []" and rows: "take page (wake_queue row db) \<noteq> []"
    and del: "event_deliveries db' = woken_page J now page row db"
  shows "wake_queue (wake_moved (last (take page (wake_queue row db))) row) db' = drop page (wake_queue row db)"
proof -
  let ?q = "wake_queue row db"
  let ?l = "last (take page ?q)"
  have l: "?l \<in> set ?q" using rows by (metis in_set_takeD last_in_set)
  have sorted: "\<not> claim_key ?l < claim_key r" if "r \<in> set (take page ?q)" for r
    using sorted_last_greatest [OF wake_queue_sorted [OF ok] that] .
  have "filter (\<lambda>r. waits_for row r \<and> claim_key ?l < claim_key r) (woken_page J now page row db)
      = filter (\<lambda>r. waits_for row r \<and> claim_key ?l < claim_key r) (event_deliveries db)"
    unfolding woken_page_def using sorted woken_not_waiting [OF type] by (intro filter_update_many) blast
  moreover have "filter (\<lambda>r. waits_for row r \<and> claim_key ?l < claim_key r) (event_deliveries db)
      = filter (\<lambda>r. claim_key ?l < claim_key r) (filter (\<lambda>r. waits_for row r \<and> after_wake_cursor row r) (event_deliveries db))"
    using l after_trans [of row ?l] by (auto simp: wake_queue_set intro!: filter_cong)
  moreover have "waits_for (wake_moved ?l row) = waits_for row" by (simp add: waits_for_def fun_eq_iff wake_moved_def)
  ultimately have "wake_queue (wake_moved ?l row) db' = filter (\<lambda>r. claim_key ?l < claim_key r) ?q"
    by (simp add: wake_queue_def del after_moved order_by_def filter_sort)
  with sorted_filter_greater [OF wake_queue_sorted [OF ok] rows] show ?thesis by simp
qed

lemma wake_pass_done:
  assumes "\<not> (\<exists>e \<in> set (domain_events db). e_id e = i \<and> e_wake_pending e = 1)"
  shows "wake_pass J l page max_binds i ticks db = db"
proof (induction ticks)
  case (Cons t ticks)
  have "rows_affected (\<lambda>e. e_id e = i \<and> wake_claimable now e) (domain_events db) = 0" for now
    using assms by (auto simp: rows_affected_0_iff wake_claimable_def)
  then have "claim_wake now l w i db = (db, False)" for now w
    by (simp add: claim_wake_def e_cas_def rows_affected_0_update_many)
  with Cons show ?case by (cases t) (simp add: wake_event_def)
qed simp

definition woken_by :: "event_codec \<Rightarrow> event_row \<Rightarrow> outbox \<Rightarrow> timestamp set \<Rightarrow> delivery_row \<Rightarrow> delivery_row \<Rightarrow> bool" where
  "woken_by J row db ts r r' \<longleftrightarrow>
     (if r \<in> set (wake_queue row db) \<and> wake_matches J db row r then \<exists>t \<in> ts. r' = woken_delivery t r else r' = r)"

lemma woken_by_page:
  assumes "length (wake_queue row db) < page \<or> \<not> (\<exists>r. r \<in> set (drop page (wake_queue row db)))" and "now \<in> ts"
  shows "list_all2 (woken_by J row db ts) (event_deliveries db) (woken_page J now page row db)"
proof -
  have "take page (wake_queue row db) = wake_queue row db" using assms(1) by auto
  with assms(2) show ?thesis
    unfolding woken_page_def by (intro list_all2_update_many) (auto simp: woken_by_def)
qed


lemma in_set_event: "row \<in> set es \<Longrightarrow> row' \<in> set (set_event row row' es)"
  by (force simp: set_event_def update_many_def)

lemma set_event_id:
  assumes "distinct (map e_id es)" and "row \<in> set es" and "e \<in> set (set_event row row' es)" and "e_id e = e_id row"
  shows "e = row'"
  using assms by (auto simp: set_event_def update_many_def split: if_splits dest: distinct_key_unique)

text \<open>A page followed by the rest of the pass wakes what one pass over the whole queue wakes.\<close>

lemma woken_by_rest:
  assumes q: "q = wake_queue row db" and rest: "wake_queue row' db' = drop page q" and type: "e_event_type row \<noteq> []"
    and same: "same_published row row'" and matches: "\<And>r. wake_matches J db' row' r = wake_matches J db row r"
    and page: "r1 = (if r \<in> set (take page q) \<and> wake_matches J db row r then woken_delivery now r else r)"
    and by_rest: "woken_by J row' db' ts r1 r'"
  shows "woken_by J row db (insert now ts) r r'"
proof (cases "r \<in> set (take page q) \<and> wake_matches J db row r")
  case True
  have "\<not> waits_for row' (woken_delivery now r)"
    using type same by (intro woken_not_waiting) (simp add: same_published_def)
  then have "woken_delivery now r \<notin> set (wake_queue row' db')" by (simp add: wake_queue_set)
  with True page by_rest have "r' = woken_delivery now r" by (simp add: woken_by_def)
  with True in_set_takeD show ?thesis by (fastforce simp: woken_by_def q)
next
  case False
  have "r \<in> set q \<longleftrightarrow> r \<in> set (take page q) \<or> r \<in> set (drop page q)"
    by (metis Un_iff append_take_drop_id set_append)
  with False page by_rest show ?thesis by (auto simp: woken_by_def rest matches q [symmetric])
qed

text \<open>The last tick of a pass, and one that leaves a cursor.\<close>

definition wake_ready :: "timestamp set \<Rightarrow> outbox \<Rightarrow> event_row \<Rightarrow> bool" where
  "wake_ready ts db row \<longleftrightarrow> outbox_ok db \<and> row \<in> set (domain_events db) \<and> e_wake_pending row = 1
     \<and> (\<forall>t \<in> ts. wake_lease_free t row) \<and> trim (e_event_type row) \<noteq> []"

lemma wake_ready_tick:
  assumes "wake_ready (insert now ts) db row" and "0 < page"
  shows "domain_events (fst (wake_event J now l page max_binds w (e_id row) db)) =
      set_event row (page_event page row db) (domain_events db)"
    and "event_deliveries (fst (wake_event J now l page max_binds w (e_id row) db)) = woken_page J now page row db"
  using wake_tick [of db row now page] assms by (simp_all add: wake_ready_def wake_claimable_def)

lemma wake_last_tick:
  assumes ready: "wake_ready (insert now ts) db row" and page: "0 < page" and short: "length (wake_queue row db) < page"
  shows "wake_pass J l page max_binds (e_id row) ((now, w) # ticks) db = fst (wake_event J now l page max_binds w (e_id row) db)"
proof -
  let ?db = "fst (wake_event J now l page max_binds w (e_id row) db)"
  have "e_wake_pending e = 0" if "e \<in> set (domain_events ?db)" "e_id e = e_id row" for e
  proof -
    have "e = page_event page row db"
      using that ready unfolding wake_ready_tick(1) [OF ready page] wake_ready_def
      by (metis outbox_okD(3) set_event_id)
    then show ?thesis using short by (simp add: page_event_def wake_done_def)
  qed
  then have "wake_pass J l page max_binds (e_id row) ticks ?db = ?db" by (intro wake_pass_done) force
  then show ?thesis by simp
qed

lemma wake_full_tick:
  assumes ready: "wake_ready (insert now ts) db row" and page: "0 < page" and full: "page \<le> length (wake_queue row db)"
  defines "row1 \<equiv> page_event page row db"
  assumes db1: "db1 = fst (wake_event J now l page max_binds w (e_id row) db)"
  shows "wake_ready ts db1 row1" and "wake_queue row1 db1 = drop page (wake_queue row db)"
    and "wake_matches J db1 row1 r = wake_matches J db row r" and "e_id row1 = e_id row"
proof -
  note tk = wake_ready_tick [OF ready page, of J l max_binds w, folded db1]
  have ok: "outbox_ok db" "row \<in> set (domain_events db)" and type: "trim (e_event_type row) \<noteq> []"
    using ready by (simp_all add: wake_ready_def)
  have moved: "row1 = wake_moved (last (take page (wake_queue row db))) row"
    using full by (simp add: row1_def page_event_def Let_def)
  have "row1 \<in> set (domain_events db1)" unfolding tk(1) row1_def [symmetric] using ok(2) by (rule in_set_event)
  moreover have "outbox_ok db1" unfolding db1 using ok(1) by (rule wake_tick_ok)
  ultimately show "wake_ready ts db1 row1"
    using ready by (simp add: wake_ready_def moved) (simp add: wake_moved_def wake_lease_free_def)
  have "take page (wake_queue row db) \<noteq> []" using full page by auto
  then show "wake_queue row1 db1 = drop page (wake_queue row db)"
    unfolding moved using ok(1) type by (intro wake_queue_rest [OF _ _ _ tk(2)]) auto
  show "wake_matches J db1 row1 r = wake_matches J db row r"
    unfolding row1_def by (rule wake_matches_set_event [OF ok _ tk(1)]) simp
  show "e_id row1 = e_id row" by (simp add: moved wake_moved_def)
qed

definition wake_result :: "event_codec \<Rightarrow> timestamp set \<Rightarrow> event_row \<Rightarrow> outbox \<Rightarrow> outbox \<Rightarrow> bool" where
  "wake_result J ts row db db' \<longleftrightarrow>
     list_all2 (woken_by J row db ts) (event_deliveries db) (event_deliveries db')
     \<and> (\<exists>row'. same_published row row' \<and> e_wake_pending row' = 0
          \<and> domain_events db' = set_event row row' (domain_events db))"

lemma wake_result_rest:
  assumes ready: "wake_ready (insert now ts) db row" and page: "0 < page" and full: "page \<le> length (wake_queue row db)"
    and db1: "db1 = fst (wake_event J now l page max_binds w (e_id row) db)"
    and rest: "wake_result J ts (page_event page row db) db1 db'"
  shows "wake_result J (insert now ts) row db db'"
proof -
  let ?row = "page_event page row db"
  note tk = wake_ready_tick [OF ready page, of J l max_binds w, folded db1]
  note full = wake_full_tick [OF ready page full db1]
  have ok: "distinct (map e_id (domain_events db))" "row \<in> set (domain_events db)" and type: "e_event_type row \<noteq> []"
    using ready by (auto simp: wake_ready_def outbox_okD(3))
  from rest obtain row' where row': "same_published ?row row'" "e_wake_pending row' = 0"
    and es: "domain_events db' = set_event ?row row' (domain_events db1)"
    and woken: "list_all2 (woken_by J ?row db1 ts) (event_deliveries db1) (event_deliveries db')"
    by (auto simp: wake_result_def)
  let ?R = "\<lambda>r r1. r1 = (if r \<in> set (take page (wake_queue row db)) \<and> wake_matches J db row r then woken_delivery now r else r)"
  have "list_all2 ?R (event_deliveries db) (event_deliveries db1)"
    unfolding tk(2) woken_page_def by (rule list_all2_update_many) auto
  then have "list_all2 (woken_by J row db (insert now ts)) (event_deliveries db) (event_deliveries db')"
    using woken by (rule list_all2_trans [rotated])
      (rule woken_by_rest [OF refl full(2) type same_published_page(2) full(3)])
  moreover have "domain_events db' = set_event row row' (domain_events db)"
    unfolding es tk(1) by (rule set_event_set_event [OF ok full(4)])
  moreover have "same_published row row'"
    using row'(1) same_published_page(2) [of row page db] by (simp add: same_published_def)
  ultimately show ?thesis using row'(2) by (auto simp: wake_result_def)
qed

lemma wake_pass_completes:
  assumes "wake_ready (fst ` set ticks) db row" and page: "0 < page"
    and "length (wake_queue row db) < length ticks * page"
  shows "wake_result J (fst ` set ticks) row db (wake_pass J l page max_binds (e_id row) ticks db)"
  using assms(1,3)
proof (induction ticks arbitrary: db row)
  case (Cons tick ticks)
  obtain now w where tick: "tick = (now, w)" by (cases tick)
  define db1 where "db1 = fst (wake_event J now l page max_binds w (e_id row) db)"
  from Cons.prems(1) have ready: "wake_ready (insert now (fst ` set ticks)) db row" by (simp add: tick)
  note tk = wake_ready_tick [OF ready page, of J l max_binds w, folded db1_def]
  show ?case
  proof (cases "length (wake_queue row db) < page")
    case True
    have "same_published row (wake_done row)" "e_wake_pending (wake_done row) = 0" "page_event page row db = wake_done row"
      using True by (simp_all add: same_published_def wake_done_def page_event_def)
    then show ?thesis
      using woken_by_page [of row db page now "insert now (fst ` set ticks)" J] True
      unfolding tick wake_last_tick [OF ready page True] wake_result_def db1_def [symmetric] tk by auto
  next
    case False
    then have full: "page \<le> length (wake_queue row db)" by simp
    note moved = wake_full_tick [OF ready page full db1_def]
    have "wake_result J (fst ` set ticks) (page_event page row db) db1
        (wake_pass J l page max_binds (e_id (page_event page row db)) ticks db1)"
      using moved(1) by (rule Cons.IH) (use Cons.prems(2) full in \<open>simp add: moved(2)\<close>)
    from wake_result_rest [OF ready page full db1_def this] show ?thesis by (simp add: tick db1_def moved(4) [unfolded db1_def])
  qed
qed (simp add: wake_result_def)


lemma wake_page_positive: "0 < wake_page_for_max_binds max_binds"
  by (simp add: wake_page_for_max_binds_def)

lemma length_wake_queue:
  "length (wake_queue row db) = rows_affected (\<lambda>r. waits_for row r \<and> after_wake_cursor row r) (event_deliveries db)"
  by (simp add: wake_queue_def order_by_def rows_affected_def)

text \<open>C5: A wake pass over a published event ends and is exact. Once there have been more ticks than pages of
  waiting deliveries, whatever the bind limit, the event is no longer pending; every delivery that waits for
  its type, lies after the stored cursor and has a grant matching its account, schema version and payload has
  been made due and resumable by one of the ticks; and every other delivery is untouched.\<close>

theorem wake_pass_ends_and_is_exact:
  assumes ok: "outbox_ok db" and row: "row \<in> set (domain_events db)" and "e_wake_pending row = 1"
    and "\<forall>t \<in> fst ` set ticks. wake_lease_free t row" and "trim (e_event_type row) \<noteq> []"
    and len: "rows_affected (\<lambda>r. waits_for row r \<and> after_wake_cursor row r) (event_deliveries db)
      < length ticks * wake_page_for_max_binds max_binds"
    and db': "db' = wake_pass J lease_secs (wake_page_for_max_binds max_binds) max_binds (e_id row) ticks db"
  shows "(\<exists>e. find_by e_id (e_id row) (domain_events db') = Some e \<and> e_wake_pending e = 0)
    \<and> list_all2 (\<lambda>r r'. if waits_for row r \<and> after_wake_cursor row r \<and> wake_matches J db row r
                      then \<exists>t \<in> fst ` set ticks. r' = woken_delivery t r else r' = r)
        (event_deliveries db) (event_deliveries db')"
proof -
  have "wake_ready (fst ` set ticks) db row" using assms by (simp add: wake_ready_def)
  from wake_pass_completes [OF this wake_page_positive len [folded length_wake_queue], of J lease_secs max_binds]
  have res: "wake_result J (fst ` set ticks) row db db'" by (simp add: db')
  then obtain row' where "same_published row row'" "e_wake_pending row' = 0"
    "domain_events db' = set_event row row' (domain_events db)"
    by (auto simp: wake_result_def)
  with find_set_event [OF outbox_okD(3) [OF ok] row, of row']
  have "\<exists>e. find_by e_id (e_id row) (domain_events db') = Some e \<and> e_wake_pending e = 0"
    by (simp add: same_published_def)
  with res show ?thesis
    unfolding wake_result_def by (auto simp: woken_by_def wake_queue_set elim: list.rel_mono_strong)
qed

definition demo_sleeper :: delivery_row where
  "demo_sleeper = demo_delivery\<lparr>d_run_after := EVENT_WAKE_FAR_FUTURE, d_attempt_count := 1, d_lease_generation := 1,
     d_checkpoint_json := Some ''c'', d_resume_pending := 1, d_wake_event_type := ''t'', d_wake_grants_json := ''g''\<rparr>"

definition demo_waker :: event_row where
  "demo_waker = demo_event_row\<lparr>e_id := ''e2'', e_dedup_key := ''k2''\<rparr>"

definition demo_sleeping :: outbox where
  "demo_sleeping = empty_outbox\<lparr>domain_events := [demo_event_row, demo_waker], event_deliveries := [demo_sleeper]\<rparr>"

lemma demo_sleeping_rows [simp]:
  "event_deliveries demo_sleeping = [demo_sleeper]" "domain_events demo_sleeping = [demo_event_row, demo_waker]"
  by (simp_all add: demo_sleeping_def)

lemmas demo_sleeping_defs = demo_waker_def demo_sleeper_def demo_delivery_def new_delivery_row_def demo_event_row_def
  new_event_row_def demo_event_def

theorem wake_pass_ends_and_is_exact_witness:
  "event_deliveries (wake_pass demo_event_codec 30 (wake_page_for_max_binds 100) 100 ''e2'' [(9, ''tok'')] demo_sleeping)
   = [woken_delivery 9 demo_sleeper]"
proof -
  have ok: "outbox_ok demo_sleeping"
    by (simp add: outbox_ok_def demo_sleeping_defs delivery_row_defs event_ok_def event_key_def MAX_PAYLOAD_def)
  have row: "demo_waker \<in> set (domain_events demo_sleeping)" "e_wake_pending demo_waker = 1"
    "\<forall>t \<in> fst ` set [(9, ''tok'')]. wake_lease_free t demo_waker" "trim (e_event_type demo_waker) \<noteq> []" "e_id demo_waker = ''e2''"
    by (simp_all add: demo_sleeping_defs wake_lease_free_def)
  have waits: "waits_for demo_waker demo_sleeper" "after_wake_cursor demo_waker demo_sleeper"
    by (simp_all add: waits_for_def after_wake_cursor_def d_pending_def demo_sleeping_defs)
  have "wake_matches demo_event_codec demo_sleeping demo_waker demo_sleeper"
    by (simp add: wake_matches_def find_by_def demo_sleeping_defs) code_simp
  then show ?thesis
    using wake_pass_ends_and_is_exact [OF ok row(1-4) _ refl, where max_binds = 100 and J = demo_event_codec and lease_secs = 30]
      waits by (simp add: rows_affected_def wake_page_for_max_binds_def row(5) list_all2_Cons1)
qed

end
