(* ===== verification/Event_Reconcile.thy ===== *)
theory Event_Reconcile
  imports Event_Props
begin

text \<open>
  Dispatch on the two backends and the late-join reconciliation. In process, dispatch is one transaction.
  On a database plugin the subscribers of an event are frozen in \<open>dispatch_snapshot_json\<close> on first use and
  the deliveries are written in pages, each a batch of \<open>plan_dispatch_event_deliveries\<close>; a batch replayed
  under its operation id changes nothing (theory \<open>Atomic_Receipt\<close>), so pages are modelled as executed.
  \<open>julian_ms\<close> is the milliseconds SQLite's \<open>julianday\<close> gives between two times.
\<close>

section \<open>Pages of a database plugin\<close>

definition page_plugins :: "EventSubscriber list \<Rightarrow> string list" where
  "page_plugins subs =
     map (\<lambda>s. trim (es_plugin_id s))
       (filter (\<lambda>s. trim (es_plugin_id s) \<noteq> [] \<and> es_resource_class s = ''network'') subs)"

text \<open>\<open>INSERT OR IGNORE ... WHERE EXISTS\<close> of one delivery.\<close>

definition insert_or_ignore :: "timestamp \<Rightarrow> string \<Rightarrow> string \<Rightarrow> outbox \<Rightarrow> outbox" where
  "insert_or_ignore now event_id plugin_id db =
     (case find_by e_id event_id (domain_events db) of
        None \<Rightarrow> db
      | Some event \<Rightarrow>
          (case insert_delivery (new_delivery_row now event plugin_id) db of None \<Rightarrow> db | Some db' \<Rightarrow> db'))"

definition count_dispatch :: "(timestamp \<Rightarrow> timestamp \<Rightarrow> int) \<Rightarrow> timestamp \<Rightarrow> string \<Rightarrow> outbox \<Rightarrow> outbox" where
  "count_dispatch julian_ms now event_id db =
     (let s = ensure_event_outbox_stats db
      in db\<lparr>event_outbox_stats :=
           Some (case find (\<lambda>e. e_id e = event_id \<and> e_dispatch_state e = ''pending'') (domain_events db) of
                   None \<Rightarrow> s
                 | Some e \<Rightarrow>
                     s\<lparr>st_dispatch_count := st_dispatch_count s + 1,
                       st_dispatch_latency_ms_sum :=
                         st_dispatch_latency_ms_sum s + max 0 (julian_ms now (e_created_at e))\<rparr>)\<rparr>)"

definition plan_dispatch_event_deliveries ::
  "(timestamp \<Rightarrow> timestamp \<Rightarrow> int) \<Rightarrow> timestamp \<Rightarrow> string \<Rightarrow> EventSubscriber list \<Rightarrow> bool \<Rightarrow> outbox
   \<Rightarrow> outbox \<times> (event_error + nat)" where
  "plan_dispatch_event_deliveries julian_ms now event_id subs finish db =
     (let ps = page_plugins subs;
          db1 = fold (insert_or_ignore now event_id) ps db;
          db2 = (if finish then mark_dispatched event_id (count_dispatch julian_ms now event_id db1) else db1)
      in if \<exists>e \<in> set (domain_events db2). e_id e = event_id
         then (db2, Inr (rows_affected (\<lambda>r. d_event_id r = event_id \<and> d_created_at r = now
                            \<and> d_plugin_id r \<in> set (if ps = [] then [[]] else ps)) (event_deliveries db2)))
         else (db2, Inl (EventNotFound (''event '' @ event_id))))"

definition parse_dispatch_snapshot :: "event_codec \<Rightarrow> string \<Rightarrow> string \<Rightarrow> event_error + EventSubscriber list" where
  "parse_dispatch_snapshot J event_id json =
     (case ids_from_str J json of
        None \<Rightarrow> Inl (EventOther (''domain event '' @ event_id @ '' has invalid dispatch_snapshot_json''))
      | Some ids \<Rightarrow> Inr (map EventSubscriber_plugin ids))"

definition load_or_init_dispatch_snapshot ::
  "event_codec \<Rightarrow> string \<Rightarrow> EventSubscriber list \<Rightarrow> outbox \<Rightarrow> outbox \<times> (event_error + EventSubscriber list)" where
  "load_or_init_dispatch_snapshot J event_id subscribers db =
     (case find_by e_id event_id (domain_events db) of
        None \<Rightarrow> (db, Inl (EventNotFound (''domain event '' @ event_id)))
      | Some row \<Rightarrow>
          if trim (e_dispatch_snapshot_json row) \<noteq> []
          then (db, parse_dispatch_snapshot J event_id (e_dispatch_snapshot_json row))
          else
            let json = ids_to_string J (map es_plugin_id subscribers);
                P = (\<lambda>e. e_id e = event_id \<and> e_dispatch_snapshot_json e = []);
                db' = db\<lparr>domain_events := update_many P (\<lambda>e. e\<lparr>e_dispatch_snapshot_json := json\<rparr>) (domain_events db)\<rparr>
            in if rows_affected P (domain_events db) = 0
               then (case find_by e_id event_id (domain_events db') of
                       None \<Rightarrow> (db', Inl (EventNotFound (''domain event '' @ event_id)))
                     | Some row' \<Rightarrow> (db', parse_dispatch_snapshot J event_id (e_dispatch_snapshot_json row')))
               else (db', Inr subscribers))"

fun dispatch_pages ::
  "(timestamp \<Rightarrow> timestamp \<Rightarrow> int) \<Rightarrow> timestamp \<Rightarrow> string \<Rightarrow> EventSubscriber list list \<Rightarrow> nat \<Rightarrow> outbox
   \<Rightarrow> outbox \<times> (event_error + nat)" where
  "dispatch_pages julian_ms now event_id [] n db = (db, Inr n)"
| "dispatch_pages julian_ms now event_id (page # pages) n db =
     (case plan_dispatch_event_deliveries julian_ms now event_id page (pages = []) db of
        (db', Inl err) \<Rightarrow> (db', Inl err)
      | (db', Inr created) \<Rightarrow> dispatch_pages julian_ms now event_id pages (n + created) db')"

text \<open>A library over its own database, or over a plugin with a page size for dispatch.\<close>

datatype backend = InProcess | Atomic "timestamp \<Rightarrow> timestamp \<Rightarrow> int" nat

fun dispatch_event_deliveries ::
  "backend \<Rightarrow> event_codec \<Rightarrow> timestamp \<Rightarrow> string \<Rightarrow> EventSubscriber list \<Rightarrow> outbox \<Rightarrow> outbox \<times> (event_error + nat)" where
  "dispatch_event_deliveries InProcess J now event_id subscribers db =
     (case dispatch_event_deliveries_on now event_id subscribers db of (db', n) \<Rightarrow> (db', Inr n))"
| "dispatch_event_deliveries (Atomic julian_ms chunk) J now event_id subscribers db =
     (case load_or_init_dispatch_snapshot J event_id subscribers db of
        (db', Inl err) \<Rightarrow> (db', Inl err)
      | (db', Inr snapshot) \<Rightarrow>
          if snapshot = [] then plan_dispatch_event_deliveries julian_ms now event_id [] True db'
          else dispatch_pages julian_ms now event_id (chunks chunk snapshot) 0 db')"

section \<open>Reconciliation\<close>

definition RECONCILE_PAGE :: nat where
  "RECONCILE_PAGE = 200"

definition event_order :: "event_row \<Rightarrow> timestamp \<times> string" where
  "event_order e = (e_created_at e, e_id e)"

definition event_after :: "(timestamp \<times> string) option \<Rightarrow> event_row \<Rightarrow> bool" where
  "event_after after e =
     (case after of
        None \<Rightarrow> True
      | Some (created_at, i) \<Rightarrow> created_at < e_created_at e \<or> e_created_at e = created_at \<and> i < e_id e)"

definition missing_for :: "string \<Rightarrow> string list \<Rightarrow> timestamp \<Rightarrow> outbox \<Rightarrow> event_row \<Rightarrow> bool" where
  "missing_for plugin_id event_types created_after db e \<longleftrightarrow>
     e_dispatch_state e = ''dispatched'' \<and> created_after < e_created_at e \<and> e_event_type e \<in> set event_types
     \<and> \<not> (\<exists>d \<in> set (event_deliveries db). d_event_id d = e_id e \<and> d_plugin_id d = plugin_id)"

definition list_missing_dispatched_events_for_plugin ::
  "string \<Rightarrow> string list \<Rightarrow> timestamp \<Rightarrow> (timestamp \<times> string) option \<Rightarrow> nat \<Rightarrow> outbox \<Rightarrow> event_row list" where
  "list_missing_dispatched_events_for_plugin plugin_id event_types created_after after limit db =
     (if event_types = [] \<or> trim plugin_id = [] then []
      else take limit (order_by event_order
             (filter (\<lambda>e. missing_for plugin_id event_types created_after db e \<and> event_after after e) (domain_events db))))"

text \<open>The events of one page, for one row of the catalog.\<close>

fun reconcile_page ::
  "backend \<Rightarrow> event_codec \<Rightarrow> timestamp \<Rightarrow> EventSubscriberCatalogRecord \<Rightarrow> event_row list \<Rightarrow> nat \<Rightarrow> outbox
   \<Rightarrow> outbox \<times> (event_error + nat)" where
  "reconcile_page B J now row [] n db = (db, Inr n)"
| "reconcile_page B J now row (e # es) n db =
     (case find (\<lambda>s. es_plugin_id s = cr_plugin_id row) (catalog_subscribers_for_event J [row] (map_event e)) of
        None \<Rightarrow> reconcile_page B J now row es n db
      | Some sub \<Rightarrow>
          (case dispatch_event_deliveries B J now (e_id e) [sub] db of
             (db', Inl err) \<Rightarrow> (db', Inl err)
           | (db', Inr created) \<Rightarrow> reconcile_page B J now row es (n + created) db'))"


subsection \<open>Dispatch keeps the order of events\<close>

lemma map_event_order_update:
  "(\<And>e. event_order (f e) = event_order e) \<Longrightarrow> map event_order (update_many P f es) = map event_order es"
  by (simp add: update_many_def)

lemma dispatch_loop_events: "domain_events (fst (dispatch_loop now event subs db)) = domain_events db"
  by (induction now event subs db rule: dispatch_loop.induct)
    (auto simp: case_prod_beta insert_delivery_def split: option.split if_splits)

lemma insert_or_ignore_events: "domain_events (insert_or_ignore now i p db) = domain_events db"
  by (auto simp: insert_or_ignore_def insert_delivery_def split: option.splits if_splits)

lemma fold_insert_events: "domain_events (fold (insert_or_ignore now i) ps db) = domain_events db"
  by (induction ps arbitrary: db) (simp_all add: insert_or_ignore_events)

lemma mark_dispatched_order: "map event_order (domain_events (mark_dispatched i db)) = map event_order (domain_events db)"
  by (simp add: mark_dispatched_def map_event_order_update event_order_def)

lemma plan_dispatch_order:
  "map event_order (domain_events (fst (plan_dispatch_event_deliveries jm now i subs finish db))) = map event_order (domain_events db)"
  by (simp add: plan_dispatch_event_deliveries_def Let_def mark_dispatched_order)
    (simp add: count_dispatch_def Let_def fold_insert_events)

lemma dispatch_pages_order:
  "map event_order (domain_events (fst (dispatch_pages jm now i pages n db))) = map event_order (domain_events db)"
proof (induction pages arbitrary: n db)
  case (Cons page pages)
  show ?case
    using plan_dispatch_order [of jm now i page "pages = []" db] Cons.IH
    by (auto split: prod.split sum.split)
qed simp

lemma load_snapshot_order:
  "map event_order (domain_events (fst (load_or_init_dispatch_snapshot J i subs db))) = map event_order (domain_events db)"
  by (simp add: load_or_init_dispatch_snapshot_def Let_def map_event_order_update event_order_def split: option.split)

lemma dispatch_order:
  "map event_order (domain_events (fst (dispatch_event_deliveries B J now i subs db))) = map event_order (domain_events db)"
proof (cases B)
  case InProcess
  have "map event_order (domain_events (fst (dispatch_event_deliveries_on now i subs db))) = map event_order (domain_events db)"
    by (simp add: dispatch_event_deliveries_on_def Let_def case_prod_beta bump_event_stats_def split: option.split)
      (simp add: mark_dispatched_order dispatch_loop_events)
  with InProcess show ?thesis by (simp add: case_prod_beta)
next
  case (Atomic jm chunk)
  show ?thesis
    using load_snapshot_order [of J i subs db] plan_dispatch_order [of jm now i] dispatch_pages_order [of jm now i]
    by (auto simp: Atomic split: prod.split sum.split)
qed

lemma reconcile_page_order:
  "map event_order (domain_events (fst (reconcile_page B J now row es n db))) = map event_order (domain_events db)"
proof (induction es arbitrary: n db)
  case (Cons e es)
  show ?case
    using Cons.IH dispatch_order [of B J now "e_id e" _ db]
    by (auto split: option.split prod.split sum.split) (metis fst_conv)+
qed simp

subsection \<open>The loop\<close>

lemma list_missing_set:
  "e \<in> set (list_missing_dispatched_events_for_plugin p types cutoff after limit db) \<Longrightarrow>
   e \<in> set (domain_events db) \<and> missing_for p types cutoff db e \<and> event_after after e"
  by (auto simp: list_missing_dispatched_events_for_plugin_def table_simps dest!: in_set_takeD split: if_splits)

lemma event_after_trans: "event_after after e0 \<Longrightarrow> event_after (Some (event_order e0)) e \<Longrightarrow> event_after after e"
  by (auto simp: event_after_def event_order_def split: option.splits)

definition events_left :: "(timestamp \<times> string) option \<Rightarrow> outbox \<Rightarrow> nat" where
  "events_left after db = length (filter (event_after after) (domain_events db))"

lemma events_left_order:
  assumes "map event_order (domain_events db') = map event_order (domain_events db)"
  shows "events_left after db' = events_left after db"
proof -
  let ?f = "\<lambda>k. case after of None \<Rightarrow> True | Some (c, i) \<Rightarrow> c < fst k \<or> fst k = c \<and> i < snd k"
  have "events_left after d = length (filter ?f (map event_order (domain_events d)))" for d
    by (simp add: events_left_def filter_map comp_def event_order_def event_after_def [abs_def] split: option.split)
  then show ?thesis by (simp only: assms)
qed

lemma events_left_less:
  assumes "e \<in> set (domain_events db)" and "event_after after e"
  shows "events_left (Some (event_order e)) db < events_left after db"
  unfolding events_left_def
  using event_after_trans [OF assms(2)] assms
  by (intro filter_strict_subset [of _ _ e]) (auto simp: event_after_def event_order_def)

lemma reconcile_decreases:
  assumes "reconcile_page B J now row page n db = (db', r)" and "page \<noteq> []"
    and "page = list_missing_dispatched_events_for_plugin p types cutoff after limit db"
  shows "events_left (Some (event_order (last page))) db' < events_left after db"
proof -
  have "last page \<in> set (domain_events db)" "event_after after (last page)"
    using list_missing_set [of "last page"] assms(2) unfolding assms(3) by (metis last_in_set)+
  then have "events_left (Some (event_order (last page))) db < events_left after db" by (rule events_left_less)
  moreover have "events_left (Some (event_order (last page))) db' = events_left (Some (event_order (last page))) db"
    using reconcile_page_order [of B J now row page n db] assms(1) by (intro events_left_order) (metis fst_conv)
  ultimately show ?thesis by simp
qed

function reconcile_loop ::
  "backend \<Rightarrow> event_codec \<Rightarrow> timestamp \<Rightarrow> EventSubscriberCatalogRecord \<Rightarrow> string list \<Rightarrow> timestamp
   \<Rightarrow> (timestamp \<times> string) option \<Rightarrow> nat \<Rightarrow> outbox \<Rightarrow> outbox \<times> (event_error + nat)" where
  "reconcile_loop B J now row types cutoff after n db =
     (let page = list_missing_dispatched_events_for_plugin (cr_plugin_id row) types cutoff after RECONCILE_PAGE db
      in if page = [] then (db, Inr n)
         else case reconcile_page B J now row page n db of
           (db', Inl err) \<Rightarrow> (db', Inl err)
         | (db', Inr n') \<Rightarrow>
             if length page < RECONCILE_PAGE then (db', Inr n')
             else reconcile_loop B J now row types cutoff (Some (event_order (last page))) n' db')"
  by pat_completeness auto
termination
  by (relation "measure (\<lambda>(B, J, now, row, types, cutoff, after, n, db). events_left after db)")
    (simp, metis (no_types, lifting) case_prod_conv in_measure reconcile_decreases)

declare reconcile_loop.simps [simp del]

fun reconcile_rows ::
  "backend \<Rightarrow> event_codec \<Rightarrow> timestamp \<Rightarrow> timestamp \<Rightarrow> EventSubscriberCatalogRecord list \<Rightarrow> nat \<Rightarrow> outbox
   \<Rightarrow> outbox \<times> (event_error + nat)" where
  "reconcile_rows B J now cutoff [] n db = (db, Inr n)"
| "reconcile_rows B J now cutoff (row # rows) n db =
     (let types = remdups (sort (map sub_event_type (cr_subscriptions row)))
      in if \<not> cr_enabled row \<or> types = [] then reconcile_rows B J now cutoff rows n db
         else case reconcile_loop B J now row types cutoff None n db of
           (db', Inl err) \<Rightarrow> (db', Inl err)
         | (db', Inr n') \<Rightarrow> reconcile_rows B J now cutoff rows n' db')"

definition reconcile_catalog_deliveries ::
  "backend \<Rightarrow> event_codec \<Rightarrow> timestamp \<Rightarrow> timestamp \<Rightarrow> outbox \<Rightarrow> outbox \<times> (event_error + nat)" where
  "reconcile_catalog_deliveries B J now created_after db =
     reconcile_rows B J now created_after (list_live_event_subscribers J now db) 0 db"


section \<open>In process, reconciliation is complete\<close>

text \<open>Deliveries are only added, and no event changes.\<close>

definition grown :: "outbox \<Rightarrow> outbox \<Rightarrow> bool" where
  "grown db db' \<longleftrightarrow> outbox_ok db' \<and> domain_events db' = domain_events db
     \<and> set (event_deliveries db) \<subseteq> set (event_deliveries db')"

text \<open>A row that stands for the delivery of the event to the plugin.\<close>

definition covered :: "outbox \<Rightarrow> string \<Rightarrow> event_row \<Rightarrow> bool" where
  "covered db p e \<longleftrightarrow> (\<exists>r \<in> set (event_deliveries db). delivery_clash (new_delivery_row 0 e p) r)"

lemma grown_trans: "grown a b \<Longrightarrow> grown b c \<Longrightarrow> grown a c"
  by (auto simp: grown_def)

lemma covered_grown: "grown db db' \<Longrightarrow> covered db p e \<Longrightarrow> covered db' p e"
  by (auto simp: grown_def covered_def)

definition subscribed :: "event_codec \<Rightarrow> EventSubscriberCatalogRecord \<Rightarrow> event_row \<Rightarrow> bool" where
  "subscribed J row e \<longleftrightarrow> cr_enabled row \<and> list_ex (\<lambda>s. subscription_matches_event J s (map_event e)) (cr_subscriptions row)"

lemma find_subscriber:
  "find (\<lambda>s. es_plugin_id s = cr_plugin_id row) (catalog_subscribers_for_event J [row] (map_event e)) =
    (if subscribed J row e then Some (EventSubscriber_plugin (cr_plugin_id row)) else None)"
  by (simp add: catalog_subscribers_for_event_def subscribed_def EventSubscriber_plugin_def)

lemma EventSubscriber_plugin_id [simp]: "es_plugin_id (EventSubscriber_plugin p) = p"
  by (simp add: EventSubscriber_plugin_def)

lemma dispatchable_plugin: "dispatchable (EventSubscriber_plugin p) \<longleftrightarrow> trim p \<noteq> []"
  by (simp add: dispatchable_def EventSubscriber_plugin_def)

lemma dispatch_dispatched:
  assumes ok: "outbox_ok db" and e: "e \<in> set (domain_events db)" "e_dispatch_state e = ''dispatched''"
    and p: "trim p \<noteq> []"
  shows "grown db (fst (dispatch_event_deliveries_on now (e_id e) [EventSubscriber_plugin p] db))"
    and "covered (fst (dispatch_event_deliveries_on now (e_id e) [EventSubscriber_plugin p] db)) p e"
proof -
  let ?subs = "[EventSubscriber_plugin p]"
  let ?db = "fst (dispatch_event_deliveries_on now (e_id e) ?subs db)" and ?loop = "fst (dispatch_loop now e ?subs db)"
  have found: "find_by e_id (e_id e) (domain_events db) = Some e"
    using outbox_okD(3) [OF ok] e(1) by (auto intro: find_by_eq_Some)
  have del: "event_deliveries ?db = event_deliveries ?loop" by (simp add: dispatch_deliveries found)
  have "\<not> (e_id x = e_id e \<and> e_dispatch_state x = ''pending'')" if "x \<in> set (domain_events db)" for x
    using distinct_key_unique [OF outbox_okD(3) [OF ok] that e(1)] e(2) by auto
  then have "domain_events ?db = domain_events db"
    unfolding dispatch_found(2) [OF found] dispatch_loop_events by (rule update_many_id)
  moreover have "outbox_ok ?db" using dispatch_appends [OF ok] by (simp add: appends_pending_def)
  ultimately show "grown db ?db"
    using dispatch_loop_ok [OF ok e(1), of now ?subs] del by (auto simp: grown_def)
  show "covered ?db p e"
    using dispatch_loop_covers [OF ok e(1), of "EventSubscriber_plugin p" ?subs now] p
    unfolding covered_def del by (auto simp: dispatchable_plugin clash_ids)
qed

lemma reconcile_page_local:
  assumes "outbox_ok db" and "trim (cr_plugin_id row) \<noteq> []"
    and "\<And>e. e \<in> set es \<Longrightarrow> e \<in> set (domain_events db) \<and> e_dispatch_state e = ''dispatched''"
  shows "\<exists>db' m. reconcile_page InProcess J now row es n db = (db', Inr m) \<and> grown db db'
    \<and> (\<forall>e \<in> set es. subscribed J row e \<longrightarrow> covered db' (cr_plugin_id row) e)"
  using assms
proof (induction es arbitrary: n db)
  case Nil
  then show ?case by (simp add: grown_def)
next
  case (Cons e es)
  show ?case
  proof (cases "subscribed J row e")
    case False
    with Cons.IH [OF Cons.prems(1,2)] Cons.prems(3) show ?thesis by (simp add: find_subscriber)
  next
    case True
    let ?d = "dispatch_event_deliveries_on now (e_id e) [EventSubscriber_plugin (cr_plugin_id row)] db"
    have e: "e \<in> set (domain_events db)" "e_dispatch_state e = ''dispatched''" using Cons.prems(3) by auto
    note d = dispatch_dispatched [OF Cons.prems(1) e Cons.prems(2), of now]
    have "\<exists>db' m. reconcile_page InProcess J now row es (n + snd ?d) (fst ?d) = (db', Inr m) \<and> grown (fst ?d) db'
        \<and> (\<forall>e \<in> set es. subscribed J row e \<longrightarrow> covered db' (cr_plugin_id row) e)"
      using d(1) Cons.prems by (intro Cons.IH) (auto simp: grown_def)
    with True d grown_trans [OF d(1)] covered_grown [OF _ d(2)] show ?thesis
      by (auto simp: find_subscriber case_prod_beta)
  qed
qed

lemma list_missing_next:
  assumes "distinct (map e_id (domain_events db))" and "missing_for p types cutoff db e" and "event_after after e"
    and e: "e \<in> set (domain_events db)" and "trim p \<noteq> []" and page: "page = list_missing_dispatched_events_for_plugin p types cutoff after limit db"
    and "e \<notin> set page" and "0 < limit"
  shows "length page = limit" and "event_after (Some (event_order (last page))) e"
proof -
  define q where "q = order_by event_order (filter (\<lambda>e. missing_for p types cutoff db e \<and> event_after after e) (domain_events db))"
  have "types \<noteq> []" using assms(2) by (auto simp: missing_for_def)
  then have page: "page = take limit q" using assms(5) by (simp add: page list_missing_dispatched_events_for_plugin_def q_def)
  have "e \<in> set q" using assms(2-4) by (simp add: q_def table_simps)
  with assms(7) page have rest: "e \<in> set (drop limit q)" by (metis Un_iff append_take_drop_id set_append)
  then have "limit < length q" by (cases "limit < length q") simp_all
  then show "length page = limit" by (simp add: page)
  then have ne: "page \<noteq> []" using assms(8) by auto
  have "distinct (map e_id q)" unfolding q_def using assms(1) by (simp add: distinct_map_filter)
  then have "distinct (map event_order q)" by (auto simp: distinct_map inj_on_def event_order_def)
  moreover have "sorted (map event_order q)" by (simp add: q_def order_by_def)
  ultimately have "sorted_wrt (<) (map event_order q)" by (simp only: strict_sorted_iff)
  then have "sorted_wrt (\<lambda>x y. event_order x < event_order y) q" by (simp only: sorted_wrt_map)
  with sorted_filter_greater [of event_order q limit] ne page rest
  have "event_order (last page) < event_order e" by (metis (mono_tags, lifting) mem_Collect_eq set_filter)
  then show "event_after (Some (event_order (last page))) e"
    by (auto simp: event_after_def event_order_def less_prod_def less_le)
qed


definition due :: "string list \<Rightarrow> timestamp \<Rightarrow> event_row \<Rightarrow> bool" where
  "due types cutoff e \<longleftrightarrow>
     e_dispatch_state e = ''dispatched'' \<and> cutoff < e_created_at e \<and> e_event_type e \<in> set types"

lemma due_cases:
  assumes "due types cutoff e"
  shows "missing_for p types cutoff db e \<or> covered db p e"
  using assms by (auto simp: due_def missing_for_def covered_def clash_ids)

lemma reconcile_loop_local:
  assumes "outbox_ok db" and "trim (cr_plugin_id row) \<noteq> []"
  shows "\<exists>db' m. reconcile_loop InProcess J now row types cutoff after n db = (db', Inr m) \<and> grown db db'
    \<and> (\<forall>e \<in> set (domain_events db). due types cutoff e \<and> event_after after e \<and> subscribed J row e
          \<longrightarrow> covered db' (cr_plugin_id row) e)"
  using assms
proof (induction InProcess J now row types cutoff after n db rule: reconcile_loop.induct)
  case (1 J now row types cutoff after n db)
  define page where "page = list_missing_dispatched_events_for_plugin (cr_plugin_id row) types cutoff after RECONCILE_PAGE db"
  note loop = reconcile_loop.simps [of InProcess J now row types cutoff after n db, folded page_def]
  have limit: "0 < RECONCILE_PAGE" by (simp add: RECONCILE_PAGE_def)
  have miss: "missing_for (cr_plugin_id row) types cutoff db e \<or> covered db (cr_plugin_id row) e"
    if "due types cutoff e" for e using that by (rule due_cases)
  have listed: "e \<in> set page \<or> length page = RECONCILE_PAGE \<and> event_after (Some (event_order (last page))) e"
    if "e \<in> set (domain_events db)" "missing_for (cr_plugin_id row) types cutoff db e" "event_after after e" for e
    using list_missing_next [OF outbox_okD(3) [OF 1(2)] that(2,3,1) 1(3) page_def _ limit] by blast
  have "\<And>e. e \<in> set page \<Longrightarrow> e \<in> set (domain_events db) \<and> e_dispatch_state e = ''dispatched''"
    using list_missing_set unfolding page_def by (blast dest: missing_for_def [THEN iffD1])
  from reconcile_page_local [OF 1(2,3) this, where J = J and now = now and n = n] obtain db1 m where
    p: "reconcile_page InProcess J now row page n db = (db1, Inr m)" and g: "grown db db1"
    and covers: "\<forall>e \<in> set page. subscribed J row e \<longrightarrow> covered db1 (cr_plugin_id row) e" by blast
  show ?case
  proof (cases "page = [] \<or> length page < RECONCILE_PAGE")
    case True
    have "\<exists>m. reconcile_loop InProcess J now row types cutoff after n db = (db1, Inr m)"
      using True p loop by (auto simp: Let_def)
    moreover have "covered db1 (cr_plugin_id row) e"
      if "e \<in> set (domain_events db)" "due types cutoff e" "event_after after e" "subscribed J row e" for e
      using miss [OF that(2)] listed [OF that(1) _ that(3)] True covers that(4) covered_grown [OF g] limit by auto
    ultimately show ?thesis using g by blast
  next
    case False
    have ok1: "outbox_ok db1" and es: "domain_events db1 = domain_events db" using g by (auto simp: grown_def)
    from 1(1) [OF page_def _ p [symmetric] refl _ ok1 1(3)] False obtain db' m' where
      rest: "reconcile_loop InProcess J now row types cutoff (Some (event_order (last page))) m db1 = (db', Inr m')"
      and g': "grown db1 db'"
      and later: "\<forall>e \<in> set (domain_events db1). due types cutoff e \<and> event_after (Some (event_order (last page))) e
          \<and> subscribed J row e \<longrightarrow> covered db' (cr_plugin_id row) e" by blast
    have "reconcile_loop InProcess J now row types cutoff after n db = (db', Inr m')"
      using False p loop rest by (simp add: Let_def)
    moreover have "covered db' (cr_plugin_id row) e"
      if "e \<in> set (domain_events db)" "due types cutoff e" "event_after after e" "subscribed J row e" for e
      using miss [OF that(2)] listed [OF that(1) _ that(3)] covers later that es covered_grown [OF g'] covered_grown [OF g] by auto
    ultimately show ?thesis using grown_trans [OF g g'] by blast
  qed
qed


lemma reconcile_rows_local:
  assumes "outbox_ok db" and "\<forall>row \<in> set rows. trim (cr_plugin_id row) \<noteq> []"
  shows "\<exists>db' m. reconcile_rows InProcess J now cutoff rows n db = (db', Inr m) \<and> grown db db'
    \<and> (\<forall>row \<in> set rows. \<forall>e \<in> set (domain_events db).
         due (map sub_event_type (cr_subscriptions row)) cutoff e \<and> subscribed J row e \<longrightarrow> covered db' (cr_plugin_id row) e)"
  using assms
proof (induction rows arbitrary: n db)
  case Nil
  then show ?case by (simp add: grown_def)
next
  case (Cons row rows)
  let ?types = "remdups (sort (map sub_event_type (cr_subscriptions row)))"
  have types: "due ?types cutoff e = due (map sub_event_type (cr_subscriptions row)) cutoff e" for e
    by (simp add: due_def)
  show ?case
  proof (cases "\<not> cr_enabled row \<or> ?types = []")
    case True
    then have "\<not> (due (map sub_event_type (cr_subscriptions row)) cutoff e \<and> subscribed J row e)" for e
      by (auto simp: subscribed_def due_def simp flip: set_empty)
    with True Cons.IH [OF Cons.prems(1), of n] Cons.prems(2) show ?thesis by (auto simp: Let_def)
  next
    case False
    from Cons.prems obtain db1 m where
      loop: "reconcile_loop InProcess J now row ?types cutoff None n db = (db1, Inr m)" and g: "grown db db1"
      and cov: "\<forall>e \<in> set (domain_events db). due ?types cutoff e \<and> event_after None e \<and> subscribed J row e
        \<longrightarrow> covered db1 (cr_plugin_id row) e"
      using reconcile_loop_local [of db row J now ?types cutoff None n] by auto
    have ok1: "outbox_ok db1" and es: "domain_events db1 = domain_events db" using g by (auto simp: grown_def)
    from Cons.IH [OF ok1, of m] Cons.prems(2) obtain db' m' where
      rest: "reconcile_rows InProcess J now cutoff rows m db1 = (db', Inr m')" and g': "grown db1 db'"
      and cov': "\<forall>row \<in> set rows. \<forall>e \<in> set (domain_events db1).
        due (map sub_event_type (cr_subscriptions row)) cutoff e \<and> subscribed J row e \<longrightarrow> covered db' (cr_plugin_id row) e"
      by auto
    have "reconcile_rows InProcess J now cutoff (row # rows) n db = (db', Inr m')"
      using False loop rest by (simp add: Let_def)
    moreover have "\<forall>e \<in> set (domain_events db).
        due (map sub_event_type (cr_subscriptions row)) cutoff e \<and> subscribed J row e \<longrightarrow> covered db' (cr_plugin_id row) e"
      using cov covered_grown [OF g'] by (simp add: types event_after_def)
    ultimately show ?thesis using cov' es grown_trans [OF g g'] by auto
  qed
qed

lemma subscribed_type: "subscription_matches_event J s (map_event e) \<Longrightarrow> sub_event_type s = e_event_type e"
  by (simp add: subscription_matches_event_def map_event_def)

text \<open>C23: In process, reconciliation ends without error and is complete: afterwards every dispatched event newer
  than the cutoff has a delivery row, under the id of the pair, for every live, enabled plugin one of whose
  subscriptions matches it,
  however many pages that took; it only adds deliveries and changes no event.\<close>

theorem reconcile_is_complete:
  assumes ok: "outbox_ok db" and ids: "\<forall>row \<in> set (list_live_event_subscribers J now db). trim (cr_plugin_id row) \<noteq> []"
  shows "\<exists>db' n. reconcile_catalog_deliveries InProcess J now cutoff db = (db', Inr n)
    \<and> domain_events db' = domain_events db \<and> set (event_deliveries db) \<subseteq> set (event_deliveries db')
    \<and> (\<forall>row \<in> set (list_live_event_subscribers J now db). \<forall>s \<in> set (cr_subscriptions row). \<forall>e \<in> set (domain_events db).
         cr_enabled row \<and> subscription_matches_event J s (map_event e)
         \<and> e_dispatch_state e = ''dispatched'' \<and> cutoff < e_created_at e
         \<longrightarrow> (\<exists>r \<in> set (event_deliveries db'). d_id r = e_id e @ '':'' @ cr_plugin_id row))"
proof -
  obtain db' n where res: "reconcile_catalog_deliveries InProcess J now cutoff db = (db', Inr n)" and g: "grown db db'"
    and cov: "\<forall>row \<in> set (list_live_event_subscribers J now db). \<forall>e \<in> set (domain_events db).
      due (map sub_event_type (cr_subscriptions row)) cutoff e \<and> subscribed J row e \<longrightarrow> covered db' (cr_plugin_id row) e"
    using reconcile_rows_local [OF ok ids, of J now cutoff 0] unfolding reconcile_catalog_deliveries_def by blast
  have "\<exists>r \<in> set (event_deliveries db'). d_id r = e_id e @ '':'' @ p" if "covered db' p e" for p e
    using that g outbox_okD(2) [of db'] by (fastforce simp: covered_def clash_ids grown_def delivery_ok_def)
  moreover have "due (map sub_event_type (cr_subscriptions row)) cutoff e \<and> subscribed J row e"
    if "s \<in> set (cr_subscriptions row)" "cr_enabled row" "subscription_matches_event J s (map_event e)"
      "e_dispatch_state e = ''dispatched''" "cutoff < e_created_at e" for row s e
    using that subscribed_type [OF that(3)] by (auto simp: due_def subscribed_def list_ex_iff intro: rev_image_eqI)
  ultimately show ?thesis using res g cov unfolding grown_def by blast
qed


section \<open>On a database plugin, late joiners are missed\<close>

text \<open>No row of the plugin is added, and no event changes.\<close>

definition no_new_for :: "string \<Rightarrow> outbox \<Rightarrow> outbox \<Rightarrow> bool" where
  "no_new_for p db db' \<longleftrightarrow> domain_events db' = domain_events db
     \<and> (\<forall>r \<in> set (event_deliveries db'). d_plugin_id r = p \<longrightarrow> r \<in> set (event_deliveries db))"

lemma no_new_for_refl [simp]: "no_new_for p db db"
  by (simp add: no_new_for_def)

lemma no_new_for_trans: "no_new_for p a b \<Longrightarrow> no_new_for p b c \<Longrightarrow> no_new_for p a c"
  by (auto simp: no_new_for_def)

lemma insert_or_ignore_other: "p \<noteq> q \<Longrightarrow> no_new_for p db (insert_or_ignore now i q db)"
  by (auto simp: no_new_for_def insert_or_ignore_def insert_delivery_def new_delivery_row_def split: option.splits if_splits)

lemma fold_insert_other: "p \<notin> set ps \<Longrightarrow> no_new_for p db (fold (insert_or_ignore now i) ps db)"
proof (induction ps arbitrary: db)
  case (Cons q ps)
  with insert_or_ignore_other [of p q db now i] no_new_for_trans show ?case by fastforce
qed simp

text \<open>An event that is dispatched already.\<close>

definition settled :: "string \<Rightarrow> outbox \<Rightarrow> bool" where
  "settled i db \<longleftrightarrow> (\<forall>e \<in> set (domain_events db). e_id e = i \<longrightarrow> e_dispatch_state e = ''dispatched'')"

lemma plan_dispatch_other:
  assumes "settled i db" and "p \<notin> set (page_plugins subs)"
  shows "no_new_for p db (fst (plan_dispatch_event_deliveries jm now i subs finish db))"
proof -
  define db1 where "db1 = fold (insert_or_ignore now i) (page_plugins subs) db"
  have one: "no_new_for p db db1" unfolding db1_def using assms(2) by (rule fold_insert_other)
  have "update_many (\<lambda>e. e_id e = i \<and> e_dispatch_state e = ''pending'') f (domain_events db) = domain_events db" for f
    using assms(1) by (intro update_many_id) (auto simp: settled_def)
  then have "domain_events (mark_dispatched i (count_dispatch jm now i db1)) = domain_events db"
    using one by (simp add: mark_dispatched_def count_dispatch_def no_new_for_def Let_def)
  then have "no_new_for p db (mark_dispatched i (count_dispatch jm now i db1))"
    using one by (simp add: no_new_for_def) (simp add: mark_dispatched_def count_dispatch_def Let_def)
  with one show ?thesis by (simp add: plan_dispatch_event_deliveries_def Let_def db1_def)
qed

lemma settled_no_new: "no_new_for p db db' \<Longrightarrow> settled i db' = settled i db"
  by (simp add: no_new_for_def settled_def)

lemma dispatch_pages_other:
  assumes "settled i db" and "\<forall>page \<in> set pages. p \<notin> set (page_plugins page)"
  shows "no_new_for p db (fst (dispatch_pages jm now i pages n db))"
  using assms
proof (induction pages arbitrary: n db)
  case (Cons page pages)
  define res where "res = plan_dispatch_event_deliveries jm now i page (pages = []) db"
  have one: "no_new_for p db (fst res)" unfolding res_def using Cons.prems by (intro plan_dispatch_other) auto
  have "no_new_for p db (fst (dispatch_pages jm now i pages m (fst res)))" for m
    using Cons.IH [of "fst res" m] Cons.prems one settled_no_new [OF one] no_new_for_trans [OF one] by simp
  with one show ?case by (simp add: res_def [symmetric] case_prod_beta split: sum.split)
qed simp

text \<open>The snapshot of every dispatched event is frozen and does not hold the plugin.\<close>

definition frozen_without :: "event_codec \<Rightarrow> string \<Rightarrow> event_row \<Rightarrow> bool" where
  "frozen_without J p e \<longleftrightarrow> trim (e_dispatch_snapshot_json e) \<noteq> []
     \<and> (case ids_from_str J (e_dispatch_snapshot_json e) of None \<Rightarrow> True | Some ids \<Rightarrow> p \<notin> trim ` set ids)"

lemma chunks_subset: "c \<in> set (chunks n xs) \<Longrightarrow> set c \<subseteq> set xs"
proof (induction n xs rule: chunks.induct)
  case (1 n xs)
  then show ?case by (subst (asm) (2) chunks.simps) (auto split: if_splits dest: in_set_takeD in_set_dropD)
qed

lemma page_plugins_subset: "set (page_plugins subs) \<subseteq> (\<lambda>s. trim (es_plugin_id s)) ` set subs"
  by (auto simp: page_plugins_def)

lemma atomic_dispatch_frozen:
  assumes "distinct (map e_id (domain_events db))" and e: "e \<in> set (domain_events db)" "e_dispatch_state e = ''dispatched''"
    and frozen: "frozen_without J p e"
  shows "no_new_for p db (fst (dispatch_event_deliveries (Atomic jm chunk) J now (e_id e) subs db))"
proof -
  have found: "find_by e_id (e_id e) (domain_events db) = Some e" using assms(1) e(1) by (auto intro: find_by_eq_Some)
  have set: "settled (e_id e) db"
    unfolding settled_def using distinct_key_unique [OF assms(1) _ e(1)] e(2) by blast
  show ?thesis
  proof (cases "ids_from_str J (e_dispatch_snapshot_json e)")
    case None
    with found frozen show ?thesis
      by (simp add: load_or_init_dispatch_snapshot_def parse_dispatch_snapshot_def frozen_without_def)
  next
    case (Some ids)
    then have load: "load_or_init_dispatch_snapshot J (e_id e) subs db = (db, Inr (map EventSubscriber_plugin ids))"
      using found frozen by (simp add: load_or_init_dispatch_snapshot_def parse_dispatch_snapshot_def frozen_without_def)
    have "p \<notin> set (page_plugins page)" if "set page \<subseteq> set (map EventSubscriber_plugin ids)" for page
      using page_plugins_subset [of page] that frozen Some by (fastforce simp: frozen_without_def)
    then have "no_new_for p db (fst (dispatch_pages jm now (e_id e) (chunks chunk (map EventSubscriber_plugin ids)) 0 db))"
      "no_new_for p db (fst (plan_dispatch_event_deliveries jm now (e_id e) [] True db))"
      using chunks_subset by (blast intro: dispatch_pages_other [OF set]) (simp add: plan_dispatch_other [OF set] page_plugins_def)
    then show ?thesis by (simp add: load)
  qed
qed


definition all_frozen_without :: "event_codec \<Rightarrow> string \<Rightarrow> outbox \<Rightarrow> bool" where
  "all_frozen_without J p db \<longleftrightarrow> distinct (map e_id (domain_events db))
     \<and> (\<forall>e \<in> set (domain_events db). e_dispatch_state e = ''dispatched'' \<longrightarrow> frozen_without J p e)"

lemma all_frozen_no_new: "no_new_for p db db' \<Longrightarrow> all_frozen_without J p db' = all_frozen_without J p db"
  by (simp add: no_new_for_def all_frozen_without_def)

lemma reconcile_page_frozen:
  assumes "all_frozen_without J p db"
    and "\<And>e. e \<in> set es \<Longrightarrow> e \<in> set (domain_events db) \<and> e_dispatch_state e = ''dispatched''"
  shows "no_new_for p db (fst (reconcile_page (Atomic jm chunk) J now row es n db))"
  using assms
proof (induction es arbitrary: n db)
  case (Cons e es)
  define res where "res = dispatch_event_deliveries (Atomic jm chunk) J now (e_id e) [EventSubscriber_plugin (cr_plugin_id row)] db"
  have one: "no_new_for p db (fst res)"
    unfolding res_def using Cons.prems by (intro atomic_dispatch_frozen) (auto simp: all_frozen_without_def)
  have "no_new_for p db (fst (reconcile_page (Atomic jm chunk) J now row es m (fst res)))" for m
    using one Cons.prems all_frozen_no_new [OF one]
    by (intro no_new_for_trans [OF one Cons.IH]) (auto simp: no_new_for_def)
  moreover have "no_new_for p db (fst (reconcile_page (Atomic jm chunk) J now row es n db))"
    using Cons.prems by (intro Cons.IH) auto
  ultimately show ?case
    using one by (simp add: find_subscriber res_def [symmetric] case_prod_beta del: dispatch_event_deliveries.simps split: sum.split)
qed simp

lemma reconcile_loop_frozen:
  assumes "all_frozen_without J p db"
  shows "no_new_for p db (fst (reconcile_loop (Atomic jm chunk) J now row types cutoff after n db))"
  using assms
proof (induction "Atomic jm chunk" J now row types cutoff after n db rule: reconcile_loop.induct)
  case (1 J now row types cutoff after n db)
  define page where "page = list_missing_dispatched_events_for_plugin (cr_plugin_id row) types cutoff after RECONCILE_PAGE db"
  define res where "res = reconcile_page (Atomic jm chunk) J now row page n db"
  have "\<And>e. e \<in> set page \<Longrightarrow> e \<in> set (domain_events db) \<and> e_dispatch_state e = ''dispatched''"
    using list_missing_set unfolding page_def by (blast dest: missing_for_def [THEN iffD1])
  then have one: "no_new_for p db (fst res)" unfolding res_def by (rule reconcile_page_frozen [OF 1(2)])
  have "no_new_for p db (fst (reconcile_loop (Atomic jm chunk) J now row types cutoff (Some (event_order (last page))) m (fst res)))"
    if "page \<noteq> []" "snd res = Inr m" "\<not> length page < RECONCILE_PAGE" for m
    using 1(1) [OF page_def that(1) _ that(2) that(3), of "fst res"] 1(2) all_frozen_no_new [OF one] no_new_for_trans [OF one]
    by (simp add: res_def)
  with one show ?case
    by (subst reconcile_loop.simps) (auto simp: Let_def page_def [symmetric] res_def [symmetric] case_prod_beta split: sum.split)
qed

lemma reconcile_rows_frozen:
  assumes "all_frozen_without J p db"
  shows "no_new_for p db (fst (reconcile_rows (Atomic jm chunk) J now cutoff rows n db))"
  using assms
proof (induction rows arbitrary: n db)
  case (Cons row rows)
  define types where "types = remdups (sort (map sub_event_type (cr_subscriptions row)))"
  define res where "res = reconcile_loop (Atomic jm chunk) J now row types cutoff None n db"
  have one: "no_new_for p db (fst res)" unfolding res_def by (rule reconcile_loop_frozen [OF Cons.prems])
  have "no_new_for p db (fst (reconcile_rows (Atomic jm chunk) J now cutoff rows m (fst res)))" for m
    using Cons.prems all_frozen_no_new [OF one] by (intro no_new_for_trans [OF one Cons.IH]) simp
  with one Cons.IH [OF Cons.prems] show ?case
    by (simp add: Let_def types_def [symmetric] res_def [symmetric] case_prod_beta split: sum.split)
qed simp

text \<open>C24: On a database plugin the promise of late joins is not kept: when every dispatched event has its
  subscriber snapshot frozen and a plugin is in none of them, reconciliation adds no delivery for that plugin,
  whatever it subscribes to, because dispatch goes back to the frozen snapshot.\<close>

theorem atomic_reconcile_misses_late_joiner:
  assumes "outbox_ok db"
    and "\<forall>e \<in> set (domain_events db). e_dispatch_state e = ''dispatched'' \<longrightarrow> trim (e_dispatch_snapshot_json e) \<noteq> []
      \<and> (\<exists>ids. ids_from_str J (e_dispatch_snapshot_json e) = Some ids \<and> plugin_id \<notin> trim ` set ids)"
  shows "\<forall>r \<in> set (event_deliveries (fst (reconcile_catalog_deliveries (Atomic julian_ms chunk) J now cutoff db))).
    d_plugin_id r = plugin_id \<longrightarrow> r \<in> set (event_deliveries db)"
proof -
  have "all_frozen_without J plugin_id db"
    using assms outbox_okD(3) [OF assms(1)] by (fastforce simp: all_frozen_without_def frozen_without_def)
  from reconcile_rows_frozen [OF this] show ?thesis
    by (simp add: no_new_for_def reconcile_catalog_deliveries_def)
qed

section \<open>A late joiner\<close>

definition demo_joined :: outbox where
  "demo_joined = empty_outbox\<lparr>
     domain_events := [demo_event_row\<lparr>e_event_type := ''book_acquired'', e_dispatch_state := ''dispatched'',
       e_dispatch_snapshot_json := ''[]''\<rparr>],
     event_subscriber_nodes := [\<lparr>n_node_id = ''n'', n_plugin_id = ''p'', n_subscriptions_json = ''s'', n_enabled = 1,
       n_heartbeat_at = 5\<rparr>]\<rparr>"


lemma demo_joined_ok: "outbox_ok demo_joined"
  by (simp add: outbox_ok_def demo_joined_def empty_outbox_def event_ok_def demo_event_row_def new_event_row_def
      demo_event_def MAX_PAYLOAD_def)

lemma demo_joined_live:
  "list_live_event_subscribers demo_event_codec 6 demo_joined =
    [\<lparr>cr_plugin_id = ''p'', cr_subscriptions = [demo_sub], cr_enabled = True, cr_updated_at = 5\<rparr>]"
  by (simp add: list_live_event_subscribers_def list_live_event_subscriber_nodes_def demo_joined_def order_by_def
      EVENT_SUBSCRIBER_HEARTBEAT_TTL_SECS_def seconds_def map_node_row_def demo_event_codec_def
      collapse_live_subscriber_nodes_def collapse_entry_def Let_def)

lemma demo_joined_match:
  "subscription_matches_event demo_event_codec demo_sub (map_event (hd (domain_events demo_joined)))"
  by code_simp

theorem reconcile_is_complete_witness:
  "\<exists>r \<in> set (event_deliveries (fst (reconcile_catalog_deliveries InProcess demo_event_codec 6 0 demo_joined))). d_id r = ''e1:p''"
proof -
  have ids: "\<forall>row \<in> set (list_live_event_subscribers demo_event_codec 6 demo_joined). trim (cr_plugin_id row) \<noteq> []"
    by (simp add: demo_joined_live)
  have "e_id (hd (domain_events demo_joined)) = ''e1''" "0 < e_created_at (hd (domain_events demo_joined))"
    "e_dispatch_state (hd (domain_events demo_joined)) = ''dispatched''" "hd (domain_events demo_joined) \<in> set (domain_events demo_joined)"
    by (simp_all add: demo_joined_def) (simp add: demo_event_row_def new_event_row_def)
  with reconcile_is_complete [OF demo_joined_ok ids, of 0] demo_joined_match show ?thesis
    unfolding demo_joined_live by fastforce
qed

theorem atomic_reconcile_misses_late_joiner_witness:
  "\<not> (\<exists>r \<in> set (event_deliveries (fst (reconcile_catalog_deliveries (Atomic (\<lambda>_ _. 0) 25) demo_event_codec 6 0 demo_joined))).
     d_plugin_id r = ''p'')"
proof -
  have "trim ''[]'' = ''[]''" by code_simp
  then have "\<forall>e \<in> set (domain_events demo_joined). e_dispatch_state e = ''dispatched'' \<longrightarrow> trim (e_dispatch_snapshot_json e) \<noteq> []
      \<and> (\<exists>ids. ids_from_str demo_event_codec (e_dispatch_snapshot_json e) = Some ids \<and> ''p'' \<notin> trim ` set ids)"
    by (simp add: demo_joined_def demo_event_codec_def)
  from atomic_reconcile_misses_late_joiner [OF demo_joined_ok this, of "\<lambda>_ _. 0" 25 6 0]
  show ?thesis by (simp add: demo_joined_def empty_outbox_def)
qed

end
