(* ===== verification/Plugin_Id.thy ===== *)
theory Plugin_Id
  imports Event_Outbox
begin

text \<open>
  The grammar of plugin ids (\<^verbatim>\<open>crates/bookclerk-plugin-manifest/src/id.rs\<close>). Delivery ids are built from an event id,
  a colon and a plugin id; a valid plugin id has no colon, so the parts can be told apart.
\<close>

definition validate_plugin_id :: "string \<Rightarrow> string + unit" where
  "validate_plugin_id i =
     (if i \<noteq> trim i then Inl (''plugin id '' @ quoted i @ '' must not have leading or trailing whitespace'')
      else if length i < 2 \<or> 32 < length i
      then Inl (''plugin id '' @ quoted i @ '' must be 2'' @ en_dash @ ''32 characters'')
      else if \<not> list_all name_char i
      then Inl (''plugin id '' @ quoted i @ '' must be lowercase ascii letters, digits, or '' @ quoted ''_'')
      else if hd i = CHR ''_'' \<or> last i = CHR ''_'' \<or> has_double_underscore i
      then Inl (''plugin id '' @ quoted i @ '' must not start/end with '' @ quoted ''_'' @ '' or contain '' @ quoted ''__'')
      else Inr ())"

lemma valid_plugin_id_chars:
  assumes "validate_plugin_id i = Inr ()"
  shows "list_all name_char i" and "CHR '':'' \<notin> set i" and "CHR ''/'' \<notin> set i" and "trim i = i" and "i \<noteq> []"
proof -
  show chars: "list_all name_char i" and "trim i = i" and "i \<noteq> []"
    using assms by (auto simp: validate_plugin_id_def split: if_splits)
  have "\<not> name_char CHR '':''" "\<not> name_char CHR ''/''"
    by (simp_all add: name_char_def is_ascii_lowercase_def is_ascii_digit_def less_eq_char_def)
  with chars show "CHR '':'' \<notin> set i" and "CHR ''/'' \<notin> set i" by (auto simp: list_all_iff)
qed

text \<open>Delivery ids of valid plugins determine their event and plugin.\<close>

lemma delivery_id_inject:
  assumes "validate_plugin_id p = Inr ()" and "validate_plugin_id q = Inr ()" and "e @ '':'' @ p = f @ '':'' @ q"
  shows "e = f \<and> p = q"
proof -
  have "rev p @ CHR '':'' # rev e = rev q @ CHR '':'' # rev f" using arg_cong [OF assms(3), of rev] by simp
  moreover have "takeWhile (\<lambda>c. c \<noteq> CHR '':'') (rev x @ CHR '':'' # y) = rev x" if "CHR '':'' \<notin> set x" for x y
    using that by (induction x rule: rev_induct) (auto simp: takeWhile_append)
  ultimately have "rev p = rev q" using valid_plugin_id_chars(2) assms(1,2) by metis
  with assms(3) show ?thesis by simp
qed

end
