(* ===== verification/Net_Address.thy ===== *)
theory Net_Address
  imports Rust_Std "HOL-Library.Word"
begin

unbundle bit_operations_syntax

text \<open>
  Address-space policy of plugin egress (\<^verbatim>\<open>crates/bookclerk-plugin-manifest/src/address.rs\<close>): IP addresses as
  machine words, the text parser of \<open>std::net\<close>, CIDR grants, and the classification of addresses into the
  public Internet and the special ranges. The laws say that the octet tests of the classifier are exactly a
  list of CIDR ranges, and that a grant never admits an address outside the range it names.
\<close>

section \<open>Addresses\<close>

text \<open>\<open>Ipv4Addr\<close> and \<open>Ipv6Addr\<close> as the integers \<open>u32::from\<close> and \<open>u128::from\<close> give.\<close>

datatype IpAddr = V4 "32 word" | V6 "128 word"

primrec is_ipv4 :: "IpAddr \<Rightarrow> bool" where
  "is_ipv4 (V4 a) \<longleftrightarrow> True"
| "is_ipv4 (V6 a) \<longleftrightarrow> False"

definition octet :: "nat \<Rightarrow> 32 word \<Rightarrow> nat" where
  "octet i a = unat a div 2 ^ (24 - 8 * i) mod 256"

definition segment :: "nat \<Rightarrow> 128 word \<Rightarrow> nat" where
  "segment i a = unat a div 2 ^ (112 - 16 * i) mod 65536"

definition from_octets :: "nat \<Rightarrow> nat \<Rightarrow> nat \<Rightarrow> nat \<Rightarrow> 32 word" where
  "from_octets a b c d = of_nat (((a * 256 + b) * 256 + c) * 256 + d)"

definition from_segments :: "nat list \<Rightarrow> 128 word" where
  "from_segments gs = of_nat (foldl (\<lambda>n g. n * 65536 + g) 0 gs)"

text \<open>The predicates of \<open>std::net\<close> the classifier calls.\<close>

definition v4_is_private :: "32 word \<Rightarrow> bool" where
  "v4_is_private a \<longleftrightarrow>
     octet 0 a = 10 \<or> octet 0 a = 172 \<and> 16 \<le> octet 1 a \<and> octet 1 a \<le> 31 \<or> octet 0 a = 192 \<and> octet 1 a = 168"

definition v4_is_documentation :: "32 word \<Rightarrow> bool" where
  "v4_is_documentation a \<longleftrightarrow>
     octet 0 a = 192 \<and> octet 1 a = 0 \<and> octet 2 a = 2
     \<or> octet 0 a = 198 \<and> octet 1 a = 51 \<and> octet 2 a = 100
     \<or> octet 0 a = 203 \<and> octet 1 a = 0 \<and> octet 2 a = 113"

definition v4_is_multicast :: "32 word \<Rightarrow> bool" where
  "v4_is_multicast a \<longleftrightarrow> 224 \<le> octet 0 a \<and> octet 0 a \<le> 239"

definition v6_is_multicast :: "128 word \<Rightarrow> bool" where
  "v6_is_multicast a \<longleftrightarrow> unat a div 2 ^ 120 = 255"

definition v6_is_unique_local :: "128 word \<Rightarrow> bool" where
  "v6_is_unique_local a \<longleftrightarrow> segment 0 a AND 0xfe00 = 0xfc00"

definition v6_is_unicast_link_local :: "128 word \<Rightarrow> bool" where
  "v6_is_unicast_link_local a \<longleftrightarrow> segment 0 a AND 0xffc0 = 0xfe80"

definition to_ipv4_mapped :: "128 word \<Rightarrow> 32 word option" where
  "to_ipv4_mapped a = (if unat a div 2 ^ 32 = 0xffff then Some (ucast a) else None)"

section \<open>The address parser of \<open>std::net\<close>\<close>

text \<open>A reader takes a prefix of the text or, on \<open>None\<close>, nothing.\<close>

type_synonym 'a reader = "string \<Rightarrow> ('a \<times> string) option"

definition to_digit :: "nat \<Rightarrow> char \<Rightarrow> nat option" where
  "to_digit radix c =
     (let n = of_char c :: nat;
          d = (if 48 \<le> n \<and> n \<le> 57 then n - 48
               else if 97 \<le> n \<and> n \<le> 122 then n - 87
               else if 65 \<le> n \<and> n \<le> 90 then n - 55 else 36)
      in if d < radix then Some d else None)"

text \<open>The digits in front of the text, and what follows them.\<close>

fun read_digits :: "nat \<Rightarrow> string \<Rightarrow> nat list \<times> string" where
  "read_digits radix [] = ([], [])"
| "read_digits radix (c # s) =
     (case to_digit radix c of
        None \<Rightarrow> ([], c # s)
      | Some d \<Rightarrow> (case read_digits radix s of (ds, rest) \<Rightarrow> (d # ds, rest)))"

definition digits_value :: "nat \<Rightarrow> nat list \<Rightarrow> nat" where
  "digits_value radix ds = foldl (\<lambda>n d. n * radix + d) 0 ds"

definition read_number :: "nat \<Rightarrow> nat \<Rightarrow> bool \<Rightarrow> nat \<Rightarrow> nat reader" where
  "read_number radix max_digits allow_zero_prefix max_value s =
     (case read_digits radix s of
        (ds, rest) \<Rightarrow>
          if ds = [] \<or> max_digits < length ds then None
          else if \<not> allow_zero_prefix \<and> hd s = CHR ''0'' \<and> 1 < length ds then None
          else if max_value < digits_value radix ds then None
          else Some (digits_value radix ds, rest))"

definition read_separator :: "char \<Rightarrow> nat \<Rightarrow> 'a reader \<Rightarrow> 'a reader" where
  "read_separator sep index inner s =
     (if index = 0 then inner s
      else case s of
        [] \<Rightarrow> None
      | c # s' \<Rightarrow> if c = sep then inner s' else None)"

definition read_octet :: "nat \<Rightarrow> nat reader" where
  "read_octet i = read_separator CHR ''.'' i (read_number 10 3 False 255)"

definition read_ipv4_addr :: "32 word reader" where
  "read_ipv4_addr s =
     (case read_octet 0 s of None \<Rightarrow> None | Some (a, s1) \<Rightarrow>
     (case read_octet 1 s1 of None \<Rightarrow> None | Some (b, s2) \<Rightarrow>
     (case read_octet 2 s2 of None \<Rightarrow> None | Some (c, s3) \<Rightarrow>
     (case read_octet 3 s3 of None \<Rightarrow> None | Some (d, s4) \<Rightarrow> Some (from_octets a b c d, s4)))))"

text \<open>The groups read from position \<open>i\<close> up to \<open>limit\<close>, and whether they end in an embedded IPv4 address.\<close>

function read_groups :: "nat \<Rightarrow> nat \<Rightarrow> string \<Rightarrow> nat list \<times> bool \<times> string" where
  "read_groups limit i s =
     (if limit \<le> i then ([], False, s)
      else case (if i < limit - 1 then read_separator CHR '':'' i read_ipv4_addr s else None) of
        Some (v4, rest) \<Rightarrow> ([unat v4 div 65536, unat v4 mod 65536], True, rest)
      | None \<Rightarrow>
          (case read_separator CHR '':'' i (read_number 16 4 True 65535) s of
             None \<Rightarrow> ([], False, s)
           | Some (g, rest) \<Rightarrow>
               (case read_groups limit (i + 1) rest of (gs, v4, rest') \<Rightarrow> (g # gs, v4, rest'))))"
  by pat_completeness auto
termination by (relation "measure (\<lambda>(limit, i, s). limit - i)") auto

declare read_groups.simps [simp del]

definition read_ipv6_addr :: "128 word reader" where
  "read_ipv6_addr s =
     (case read_groups 8 0 s of
        (head, head_ipv4, rest) \<Rightarrow>
          if length head = 8 then Some (from_segments head, rest)
          else if head_ipv4 then None
          else case rest of
            c1 # c2 # rest' \<Rightarrow>
              if c1 = CHR '':'' \<and> c2 = CHR '':''
              then (case read_groups (8 - (length head + 1)) 0 rest' of
                      (tail, _, rest'') \<Rightarrow>
                        Some (from_segments (head @ replicate (8 - length head - length tail) 0 @ tail), rest''))
              else None
          | _ \<Rightarrow> None)"

definition parse_ip :: "string \<Rightarrow> IpAddr option" where
  "parse_ip s =
     (case (case read_ipv4_addr s of
              Some (a, rest) \<Rightarrow> Some (V4 a, rest)
            | None \<Rightarrow> map_option (\<lambda>(a, rest). (V6 a, rest)) (read_ipv6_addr s)) of
        Some (ip, []) \<Rightarrow> Some ip
      | _ \<Rightarrow> None)"

text \<open>\<open>str::parse::<u8>\<close>: an optional plus sign and decimal digits.\<close>

definition parse_u8 :: "string \<Rightarrow> nat option" where
  "parse_u8 s =
     (let body = (case s of c # s' \<Rightarrow> if c = CHR ''+'' then s' else s | [] \<Rightarrow> s)
      in case read_digits 10 body of
        (ds, rest) \<Rightarrow> if ds \<noteq> [] \<and> rest = [] \<and> digits_value 10 ds \<le> 255 then Some (digits_value 10 ds) else None)"

section \<open>CIDR grants\<close>

definition canonical_ip :: "IpAddr \<Rightarrow> IpAddr" where
  "canonical_ip ip =
     (case ip of V6 a \<Rightarrow> (case to_ipv4_mapped a of Some v4 \<Rightarrow> V4 v4 | None \<Rightarrow> ip) | V4 _ \<Rightarrow> ip)"

definition mask4 :: "nat \<Rightarrow> 32 word" where
  "mask4 prefix = (if prefix = 0 then 0 else push_bit (32 - prefix) (- 1))"

definition mask6 :: "nat \<Rightarrow> 128 word" where
  "mask6 prefix = (if prefix = 0 then 0 else push_bit (128 - prefix) (- 1))"

definition mask_ip :: "IpAddr \<Rightarrow> nat \<Rightarrow> IpAddr" where
  "mask_ip addr prefix = (case addr of V4 a \<Rightarrow> V4 (a AND mask4 prefix) | V6 a \<Rightarrow> V6 (a AND mask6 prefix))"

definition ipv4_prefix_eq :: "32 word \<Rightarrow> 32 word \<Rightarrow> nat \<Rightarrow> bool" where
  "ipv4_prefix_eq ip net prefix \<longleftrightarrow> ip AND mask4 prefix = net AND mask4 prefix"

definition ipv6_prefix_eq :: "128 word \<Rightarrow> 128 word \<Rightarrow> nat \<Rightarrow> bool" where
  "ipv6_prefix_eq ip net prefix \<longleftrightarrow> ip AND mask6 prefix = net AND mask6 prefix"

record CidrGrant =
  cg_network :: IpAddr
  cg_prefix :: nat

definition masked :: "IpAddr \<Rightarrow> nat \<Rightarrow> string + CidrGrant" where
  "masked addr prefix =
     (let limit = (if is_ipv4 addr then 32 else 128)
      in if limit < prefix
         then Inl (''CIDR prefix '' @ nat_str prefix @ '' exceeds '' @ nat_str limit)
         else Inr \<lparr>cg_network = mask_ip addr prefix, cg_prefix = prefix\<rparr>)"

text \<open>\<open>str::split_once\<close> on one character, and text between backquotes in messages.\<close>

fun split_once :: "char \<Rightarrow> string \<Rightarrow> (string \<times> string) option" where
  "split_once c [] = None"
| "split_once c (x # s) =
     (if x = c then Some ([], s) else map_option (\<lambda>(a, b). (x # a, b)) (split_once c s))"

definition backquoted :: "string \<Rightarrow> string" where
  "backquoted s = [CHR 0x60] @ s @ [CHR 0x60]"

definition CidrGrant_parse :: "string \<Rightarrow> string + CidrGrant" where
  "CidrGrant_parse raw0 =
     (let raw = trim raw0
      in if raw = [] then Inl ''empty CIDR''
         else case split_once CHR ''/'' raw of
           Some (addr_s, p) \<Rightarrow>
             (case parse_u8 p of
                None \<Rightarrow> Inl (''invalid CIDR prefix '' @ backquoted p)
              | Some prefix \<Rightarrow>
                  (case parse_ip addr_s of
                     None \<Rightarrow> Inl (''invalid CIDR address '' @ backquoted addr_s)
                   | Some addr \<Rightarrow> masked addr prefix))
         | None \<Rightarrow>
             (case parse_ip raw of
                None \<Rightarrow> Inl (''invalid IP '' @ backquoted raw)
              | Some addr \<Rightarrow> masked addr (if is_ipv4 addr then 32 else 128)))"

definition cidr_contains :: "CidrGrant \<Rightarrow> IpAddr \<Rightarrow> bool" where
  "cidr_contains g ip =
     (case (canonical_ip ip, canonical_ip (cg_network g)) of
        (V4 a, V4 net) \<Rightarrow> ipv4_prefix_eq a net (min (cg_prefix g) 32)
      | (V6 a, V6 net) \<Rightarrow> ipv6_prefix_eq a net (min (cg_prefix g) 128)
      | _ \<Rightarrow> False)"

section \<open>Classification\<close>

definition is_cgnat :: "32 word \<Rightarrow> bool" where
  "is_cgnat a \<longleftrightarrow> octet 0 a = 100 \<and> octet 1 a AND 0xc0 = 64"

definition is_benchmark_v4 :: "32 word \<Rightarrow> bool" where
  "is_benchmark_v4 a \<longleftrightarrow> octet 0 a = 198 \<and> (octet 1 a = 18 \<or> octet 1 a = 19)"

definition is_public_v4 :: "32 word \<Rightarrow> bool" where
  "is_public_v4 a \<longleftrightarrow>
     \<not> (a = 0 \<or> octet 0 a = 127 \<or> v4_is_private a \<or> octet 0 a = 169 \<and> octet 1 a = 254 \<or> a = - 1
        \<or> v4_is_multicast a \<or> v4_is_documentation a \<or> octet 0 a = 0 \<or> is_cgnat a \<or> is_benchmark_v4 a)"

definition is_public_v6 :: "128 word \<Rightarrow> bool" where
  "is_public_v6 a \<longleftrightarrow>
     \<not> (a = 0 \<or> a = 1 \<or> v6_is_multicast a \<or> v6_is_unique_local a \<or> v6_is_unicast_link_local a
        \<or> segment 0 a = 0x2001 \<and> segment 1 a = 0xdb8)"

definition is_public_internet :: "IpAddr \<Rightarrow> bool" where
  "is_public_internet ip = (case canonical_ip ip of V4 a \<Rightarrow> is_public_v4 a | V6 a \<Rightarrow> is_public_v6 a)"

definition address_allowed :: "IpAddr \<Rightarrow> CidrGrant list \<Rightarrow> bool" where
  "address_allowed ip grants \<longleftrightarrow> is_public_internet ip \<or> list_ex (\<lambda>g. cidr_contains g ip) grants"

section \<open>Prefixes are ranges\<close>

lemma prefix_mask_eq:
  fixes a b :: "'a::len word"
  shows "a AND push_bit k (- 1) = b AND push_bit k (- 1) \<longleftrightarrow> drop_bit k a = drop_bit k b"
proof
  assume "a AND push_bit k (- 1) = b AND push_bit k (- 1)"
  then have "drop_bit k (a AND push_bit k (- 1)) = drop_bit k (b AND push_bit k (- 1))" by simp
  moreover have "drop_bit k (x AND push_bit k (- 1)) = drop_bit k x" for x :: "'a word"
    by (rule bit_word_eqI) (auto simp: bit_simps dest: bit_imp_le_length)
  ultimately show "drop_bit k a = drop_bit k b" by simp
next
  assume "drop_bit k a = drop_bit k b"
  then have "push_bit k (drop_bit k a) = push_bit k (drop_bit k b)" by simp
  moreover have "push_bit k (drop_bit k x) = x AND push_bit k (- 1)" for x :: "'a word"
    by (rule bit_word_eqI) (auto simp: bit_simps)
  ultimately show "a AND push_bit k (- 1) = b AND push_bit k (- 1)" by simp
qed

lemma unat_drop_bit: "unat (drop_bit k (x :: 'a::len word)) = unat x div 2 ^ k"
proof -
  have "take_bit LENGTH('a) (unat x) = unat x" by (rule take_bit_nat_eq_self) (rule unsigned_less)
  then show ?thesis unfolding unsigned_drop_bit_eq by (simp only: drop_bit_eq_div)
qed

lemma prefix_div_eq:
  fixes a b :: "'a::len word"
  shows "a AND push_bit k (- 1) = b AND push_bit k (- 1) \<longleftrightarrow> unat a div 2 ^ k = unat b div 2 ^ k"
  unfolding prefix_mask_eq unat_drop_bit [symmetric] by (rule word_unat_eq_iff)

lemma ipv4_prefix_iff:
  assumes "p \<le> 32"
  shows "ipv4_prefix_eq a net p \<longleftrightarrow> unat a div 2 ^ (32 - p) = unat net div 2 ^ (32 - p)"
proof (cases "p = 0")
  case True
  have "unat a < 2 ^ 32" "unat net < 2 ^ 32" using unsigned_less [of a] unsigned_less [of net] by simp_all
  with True show ?thesis by (simp add: ipv4_prefix_eq_def mask4_def)
next
  case False
  then show ?thesis by (simp only: ipv4_prefix_eq_def mask4_def if_False prefix_div_eq)
qed

lemma ipv6_prefix_iff:
  assumes "p \<le> 128"
  shows "ipv6_prefix_eq a net p \<longleftrightarrow> unat a div 2 ^ (128 - p) = unat net div 2 ^ (128 - p)"
proof (cases "p = 0")
  case True
  have "unat a < 2 ^ 128" "unat net < 2 ^ 128" using unsigned_less [of a] unsigned_less [of net] by simp_all
  with True show ?thesis by (simp add: ipv6_prefix_eq_def mask6_def)
next
  case False
  then show ?thesis by (simp only: ipv6_prefix_eq_def mask6_def if_False prefix_div_eq)
qed

section \<open>Special ranges\<close>

text \<open>The ranges that are not the public Internet, as CIDR texts.\<close>

definition special_ranges :: "string list" where
  "special_ranges =
     [''0.0.0.0/8'', ''10.0.0.0/8'', ''100.64.0.0/10'', ''127.0.0.0/8'', ''169.254.0.0/16'', ''172.16.0.0/12'',
      ''192.0.2.0/24'', ''192.168.0.0/16'', ''198.18.0.0/15'', ''198.51.100.0/24'', ''203.0.113.0/24'',
      ''224.0.0.0/4'', ''255.255.255.255'', ''::'', ''::1'', ''2001:db8::/32'', ''fc00::/7'', ''fe80::/10'', ''ff00::/8'']"

definition special_grants :: "CidrGrant list" where
  "special_grants =
     map (\<lambda>(net, prefix). \<lparr>cg_network = V4 net, cg_prefix = prefix\<rparr>)
       [(0, 8), (0x0a000000, 8), (0x64400000, 10), (0x7f000000, 8), (0xa9fe0000, 16), (0xac100000, 12),
        (0xc0000200, 24), (0xc0a80000, 16), (0xc6120000, 15), (0xc6336400, 24), (0xcb007100, 24),
        (0xe0000000, 4), (0xffffffff, 32)]
     @ map (\<lambda>(net, prefix). \<lparr>cg_network = V6 net, cg_prefix = prefix\<rparr>)
       [(0, 128), (1, 128), (0x20010db8000000000000000000000000, 32), (0xfc000000000000000000000000000000, 7),
        (0xfe800000000000000000000000000000, 10), (0xff000000000000000000000000000000, 8)]"

lemma replicate_numeral: "replicate (numeral k) x = x # replicate (pred_numeral k) x"
  by (simp add: numeral_eq_Suc)

lemmas parse_ip_simps = parse_ip_def read_ipv4_addr_def read_ipv6_addr_def read_octet_def read_separator_def
  read_number_def read_groups.simps to_digit_def digits_value_def from_octets_def from_segments_def replicate_numeral

lemma parse_special_v4:
  "parse_ip ''0.0.0.0'' = Some (V4 0)"
  "parse_ip ''10.0.0.0'' = Some (V4 0x0a000000)"
  "parse_ip ''100.64.0.0'' = Some (V4 0x64400000)"
  "parse_ip ''127.0.0.0'' = Some (V4 0x7f000000)"
  "parse_ip ''169.254.0.0'' = Some (V4 0xa9fe0000)"
  "parse_ip ''172.16.0.0'' = Some (V4 0xac100000)"
  "parse_ip ''192.0.2.0'' = Some (V4 0xc0000200)"
  "parse_ip ''192.168.0.0'' = Some (V4 0xc0a80000)"
  "parse_ip ''198.18.0.0'' = Some (V4 0xc6120000)"
  "parse_ip ''198.51.100.0'' = Some (V4 0xc6336400)"
  "parse_ip ''203.0.113.0'' = Some (V4 0xcb007100)"
  "parse_ip ''224.0.0.0'' = Some (V4 0xe0000000)"
  "parse_ip ''255.255.255.255'' = Some (V4 0xffffffff)"
  by (simp_all add: parse_ip_simps)

lemma parse_special_v6:
  "parse_ip ''::'' = Some (V6 0)"
  "parse_ip ''::1'' = Some (V6 1)"
  "parse_ip ''2001:db8::'' = Some (V6 0x20010db8000000000000000000000000)"
  "parse_ip ''fc00::'' = Some (V6 0xfc000000000000000000000000000000)"
  "parse_ip ''fe80::'' = Some (V6 0xfe800000000000000000000000000000)"
  "parse_ip ''ff00::'' = Some (V6 0xff000000000000000000000000000000)"
  by (simp_all add: parse_ip_simps)

lemma parse_slash:
  assumes "trim raw = raw" and "split_once CHR ''/'' raw = Some (x, p)" and "parse_u8 p = Some n" and "parse_ip x = Some ip"
  shows "CidrGrant_parse raw = masked ip n"
  using assms by (cases raw) (simp_all add: CidrGrant_parse_def)

lemma parse_bare:
  assumes "trim raw = raw" and "split_once CHR ''/'' raw = None" and "raw \<noteq> []" and "parse_ip raw = Some ip"
  shows "CidrGrant_parse raw = masked ip (if is_ipv4 ip then 32 else 128)"
  using assms by (simp add: CidrGrant_parse_def)

lemma special_trim:
  "trim ''0.0.0.0/8'' = ''0.0.0.0/8''"
  "trim ''10.0.0.0/8'' = ''10.0.0.0/8''"
  "trim ''100.64.0.0/10'' = ''100.64.0.0/10''"
  "trim ''127.0.0.0/8'' = ''127.0.0.0/8''"
  "trim ''169.254.0.0/16'' = ''169.254.0.0/16''"
  "trim ''172.16.0.0/12'' = ''172.16.0.0/12''"
  "trim ''192.0.2.0/24'' = ''192.0.2.0/24''"
  "trim ''192.168.0.0/16'' = ''192.168.0.0/16''"
  "trim ''198.18.0.0/15'' = ''198.18.0.0/15''"
  "trim ''198.51.100.0/24'' = ''198.51.100.0/24''"
  "trim ''203.0.113.0/24'' = ''203.0.113.0/24''"
  "trim ''224.0.0.0/4'' = ''224.0.0.0/4''"
  "trim ''255.255.255.255'' = ''255.255.255.255''"
  "trim ''::'' = ''::''"
  "trim ''::1'' = ''::1''"
  "trim ''2001:db8::/32'' = ''2001:db8::/32''"
  "trim ''fc00::/7'' = ''fc00::/7''"
  "trim ''fe80::/10'' = ''fe80::/10''"
  "trim ''ff00::/8'' = ''ff00::/8''"
  by code_simp+

lemma special_split:
  "split_once CHR ''/'' ''0.0.0.0/8'' = Some (''0.0.0.0'', ''8'')"
  "split_once CHR ''/'' ''10.0.0.0/8'' = Some (''10.0.0.0'', ''8'')"
  "split_once CHR ''/'' ''100.64.0.0/10'' = Some (''100.64.0.0'', ''10'')"
  "split_once CHR ''/'' ''127.0.0.0/8'' = Some (''127.0.0.0'', ''8'')"
  "split_once CHR ''/'' ''169.254.0.0/16'' = Some (''169.254.0.0'', ''16'')"
  "split_once CHR ''/'' ''172.16.0.0/12'' = Some (''172.16.0.0'', ''12'')"
  "split_once CHR ''/'' ''192.0.2.0/24'' = Some (''192.0.2.0'', ''24'')"
  "split_once CHR ''/'' ''192.168.0.0/16'' = Some (''192.168.0.0'', ''16'')"
  "split_once CHR ''/'' ''198.18.0.0/15'' = Some (''198.18.0.0'', ''15'')"
  "split_once CHR ''/'' ''198.51.100.0/24'' = Some (''198.51.100.0'', ''24'')"
  "split_once CHR ''/'' ''203.0.113.0/24'' = Some (''203.0.113.0'', ''24'')"
  "split_once CHR ''/'' ''224.0.0.0/4'' = Some (''224.0.0.0'', ''4'')"
  "split_once CHR ''/'' ''255.255.255.255'' = None"
  "split_once CHR ''/'' ''::'' = None"
  "split_once CHR ''/'' ''::1'' = None"
  "split_once CHR ''/'' ''2001:db8::/32'' = Some (''2001:db8::'', ''32'')"
  "split_once CHR ''/'' ''fc00::/7'' = Some (''fc00::'', ''7'')"
  "split_once CHR ''/'' ''fe80::/10'' = Some (''fe80::'', ''10'')"
  "split_once CHR ''/'' ''ff00::/8'' = Some (''ff00::'', ''8'')"
  by code_simp+

lemma special_prefix:
  "parse_u8 ''4'' = Some 4"
  "parse_u8 ''7'' = Some 7"
  "parse_u8 ''8'' = Some 8"
  "parse_u8 ''10'' = Some 10"
  "parse_u8 ''12'' = Some 12"
  "parse_u8 ''15'' = Some 15"
  "parse_u8 ''16'' = Some 16"
  "parse_u8 ''24'' = Some 24"
  "parse_u8 ''32'' = Some 32"
  by code_simp+

lemma special_slash:
  "CidrGrant_parse ''0.0.0.0/8'' = masked (V4 0) 8"
  "CidrGrant_parse ''10.0.0.0/8'' = masked (V4 0x0a000000) 8"
  "CidrGrant_parse ''100.64.0.0/10'' = masked (V4 0x64400000) 10"
  "CidrGrant_parse ''127.0.0.0/8'' = masked (V4 0x7f000000) 8"
  "CidrGrant_parse ''169.254.0.0/16'' = masked (V4 0xa9fe0000) 16"
  "CidrGrant_parse ''172.16.0.0/12'' = masked (V4 0xac100000) 12"
  "CidrGrant_parse ''192.0.2.0/24'' = masked (V4 0xc0000200) 24"
  "CidrGrant_parse ''192.168.0.0/16'' = masked (V4 0xc0a80000) 16"
  "CidrGrant_parse ''198.18.0.0/15'' = masked (V4 0xc6120000) 15"
  "CidrGrant_parse ''198.51.100.0/24'' = masked (V4 0xc6336400) 24"
  "CidrGrant_parse ''203.0.113.0/24'' = masked (V4 0xcb007100) 24"
  "CidrGrant_parse ''224.0.0.0/4'' = masked (V4 0xe0000000) 4"
  "CidrGrant_parse ''2001:db8::/32'' = masked (V6 0x20010db8000000000000000000000000) 32"
  "CidrGrant_parse ''fc00::/7'' = masked (V6 0xfc000000000000000000000000000000) 7"
  "CidrGrant_parse ''fe80::/10'' = masked (V6 0xfe800000000000000000000000000000) 10"
  "CidrGrant_parse ''ff00::/8'' = masked (V6 0xff000000000000000000000000000000) 8"
  by (rule parse_slash, rule special_trim, rule special_split, rule special_prefix, rule parse_special_v4 parse_special_v6)+

lemma special_bare:
  "CidrGrant_parse ''255.255.255.255'' = masked (V4 0xffffffff) 32"
  "CidrGrant_parse ''::'' = masked (V6 0) 128"
  "CidrGrant_parse ''::1'' = masked (V6 1) 128"
  using parse_bare [OF special_trim(13) special_split(13) _ parse_special_v4(13)]
    parse_bare [OF special_trim(14) special_split(14) _ parse_special_v6(1)]
    parse_bare [OF special_trim(15) special_split(15) _ parse_special_v6(2)]
  by simp_all

lemma special_masked: "map (\<lambda>g. masked (cg_network g) (cg_prefix g)) special_grants = map Inr special_grants"
  by code_simp

lemma special_parsed: "map CidrGrant_parse special_ranges = map Inr special_grants"
  unfolding special_masked [symmetric] unfolding special_ranges_def special_grants_def
  by (simp only: list.map append.simps prod.case CidrGrant.select_convs special_slash special_bare)

lemma and_high_bits:
  fixes s :: nat
  assumes "s < 2 ^ (k + m)"
  shows "s AND push_bit k (mask m) = s div 2 ^ k * 2 ^ k"
proof -
  have "s AND push_bit k (mask m) = push_bit k (drop_bit k s)"
  proof (rule bit_eqI)
    fix n
    have "bit s n \<Longrightarrow> n < k + m"
      using assms by (metis bit_take_bit_iff take_bit_nat_eq_self)
    then show "bit (s AND push_bit k (mask m)) n = bit (push_bit k (drop_bit k s)) n"
      by (auto simp: bit_simps)
  qed
  then show ?thesis by (simp add: push_bit_eq_mult drop_bit_eq_div)
qed

lemma octet_cgnat: "octet 1 a AND 0xc0 = 64 \<longleftrightarrow> octet 1 a div 64 = 1"
  using and_high_bits [of "octet 1 a" 6 2] by (auto simp: octet_def mask_numeral push_bit_eq_mult)

lemma segment_unique_local: "segment 0 a AND 0xfe00 = 0xfc00 \<longleftrightarrow> segment 0 a div 512 = 126"
  using and_high_bits [of "segment 0 a" 9 7] by (auto simp: segment_def mask_numeral push_bit_eq_mult)

lemma segment_link_local: "segment 0 a AND 0xffc0 = 0xfe80 \<longleftrightarrow> segment 0 a div 64 = 0x3fa"
  using and_high_bits [of "segment 0 a" 6 10] by (auto simp: segment_def mask_numeral push_bit_eq_mult)

lemma high_parts4:
  fixes x :: nat
  assumes "x < 2 ^ 32"
  shows "x div 2 ^ 24 mod 256 = x div 2 ^ 16 div 256" "x div 2 ^ 24 = x div 2 ^ 16 div 256" "x div 2 ^ 28 = x div 2 ^ 16 div 4096"
    "x div 2 ^ 22 = x div 2 ^ 16 div 64" "x div 2 ^ 20 = x div 2 ^ 16 div 16" "x div 2 ^ 17 = x div 2 ^ 16 div 2"
    "x div 2 ^ 16 = x div 2 ^ 8 div 256" "x div 2 ^ 8 = x div 256" "x div 2 ^ 16 < 65536"
  using assms by (simp_all add: div_mult2_eq [symmetric] less_mult_imp_div_less)

lemma unat_less4: "unat (a :: 32 word) < 2 ^ 32"
proof -
  have "unat a < 2 ^ LENGTH(32)" by (rule unsigned_less)
  then show ?thesis by simp
qed

lemma octets_of:
  "octet 0 a = unat a div 2 ^ 16 div 256" "octet 1 a = unat a div 2 ^ 16 mod 256" "octet 2 a = unat a div 2 ^ 8 mod 256"
  using high_parts4(1) [OF unat_less4, of a] by (simp_all add: octet_def)

lemma div_range: "0 < n \<Longrightarrow> y div n = c \<longleftrightarrow> c * n \<le> y \<and> y < (c + 1) * n" for y n c :: nat
  by (metis Suc_eq_plus1 div_nat_eqI dividend_less_div_times dividend_less_times_div mult.commute times_div_less_eq_dividend
      mult_Suc_right add.commute)

lemma byte_range:
  fixes y h lo hi :: nat
  assumes "hi \<le> 256"
  shows "y div 256 = h \<and> lo \<le> y mod 256 \<and> y mod 256 < hi \<longleftrightarrow> h * 256 + lo \<le> y \<and> y < h * 256 + hi"
proof -
  have y: "y = y div 256 * 256 + y mod 256" "y mod 256 < 256" by simp_all
  moreover have "y div 256 = h" if "h * 256 + lo \<le> y" "y < h * 256 + hi"
    using that assms by (subst div_range) auto
  ultimately show ?thesis by (metis add_le_cancel_left add_less_cancel_left)
qed

lemma base_pair: "z div b = h \<and> z mod b = l \<longleftrightarrow> z = h * b + l" if "l < b" for z b h l :: nat
  using that div_mult_mod_eq [of z b] by auto

lemmas byte_pair = base_pair [where b = 256]

lemma contains_v4:
  "p \<le> 32 \<Longrightarrow> cidr_contains \<lparr>cg_network = V4 net, cg_prefix = p\<rparr> (V4 a) \<longleftrightarrow>
     unat a div 2 ^ (32 - p) = unat net div 2 ^ (32 - p)"
  by (simp add: cidr_contains_def canonical_ip_def ipv4_prefix_iff)

lemma contains_other:
  "to_ipv4_mapped net = None \<Longrightarrow> \<not> cidr_contains \<lparr>cg_network = V6 net, cg_prefix = p\<rparr> (V4 a)"
  "to_ipv4_mapped b = None \<Longrightarrow> \<not> cidr_contains \<lparr>cg_network = V4 c, cg_prefix = p\<rparr> (V6 b)"
  by (simp_all add: cidr_contains_def canonical_ip_def)

lemma contains_v6:
  "p \<le> 128 \<Longrightarrow> to_ipv4_mapped net = None \<Longrightarrow> to_ipv4_mapped a = None \<Longrightarrow>
     cidr_contains \<lparr>cg_network = V6 net, cg_prefix = p\<rparr> (V6 a) \<longleftrightarrow>
     unat a div 2 ^ (128 - p) = unat net div 2 ^ (128 - p)"
  by (simp add: cidr_contains_def canonical_ip_def ipv6_prefix_iff)

lemma special_not_mapped:
  "to_ipv4_mapped 0 = None" "to_ipv4_mapped 1 = None" "to_ipv4_mapped 0x20010db8000000000000000000000000 = None"
  "to_ipv4_mapped 0xfc000000000000000000000000000000 = None" "to_ipv4_mapped 0xfe800000000000000000000000000000 = None"
  "to_ipv4_mapped 0xff000000000000000000000000000000 = None"
  by (simp_all add: to_ipv4_mapped_def)

lemma special_v4_list:
  "list_ex (\<lambda>g. cidr_contains g (V4 a)) special_grants \<longleftrightarrow>
     list_ex (\<lambda>(net, p). unat a div 2 ^ (32 - p) = unat (net :: 32 word) div 2 ^ (32 - p))
       [(0, 8), (0x0a000000, 8), (0x64400000, 10), (0x7f000000, 8), (0xa9fe0000, 16), (0xac100000, 12),
        (0xc0000200, 24), (0xc0a80000, 16), (0xc6120000, 15), (0xc6336400, 24), (0xcb007100, 24),
        (0xe0000000, 4), (0xffffffff, 32)]"
  by (simp add: special_grants_def contains_v4 contains_other special_not_mapped)

lemma special_v4_contains:
  "list_ex (\<lambda>g. cidr_contains g (V4 a)) special_grants \<longleftrightarrow>
     unat a div 2 ^ 24 \<in> {0, 10, 127} \<or> unat a div 2 ^ 22 = 0x191 \<or> unat a div 2 ^ 16 \<in> {0xa9fe, 0xc0a8}
     \<or> unat a div 2 ^ 20 = 0xac1 \<or> unat a div 2 ^ 8 \<in> {0xc00002, 0xc63364, 0xcb0071}
     \<or> unat a div 2 ^ 17 = 0x6309 \<or> unat a div 2 ^ 28 = 14 \<or> unat a = 0xffffffff"
  unfolding special_v4_list by (simp add: disj_ac)

lemma public_v4_iff: "is_public_v4 a \<longleftrightarrow> \<not> list_ex (\<lambda>g. cidr_contains g (V4 a)) special_grants"
proof -
  define y z where "y = unat a div 2 ^ 16" and "z = unat a div 2 ^ 8"
  note parts = high_parts4 [OF unat_less4 [of a], folded y_def z_def]
  have ones: "a = - 1 \<longleftrightarrow> unat a = 0xffffffff"
  proof -
    have "(- 1 :: 32 word) = 0xffffffff" by code_simp
    then show ?thesis by (simp add: word_unat_eq_iff)
  qed
  have zero: "a = 0 \<Longrightarrow> y div 256 = 0" by (simp add: y_def)
  have cgnat: "y div 256 = 100 \<and> y mod 256 div 64 = 1 \<longleftrightarrow> y div 64 = 0x191"
    using byte_range [of 128 y 100 64] by (simp add: div_range)
  have rfc1918: "y div 256 = 172 \<and> 16 \<le> y mod 256 \<and> y mod 256 \<le> 31 \<longleftrightarrow> y div 16 = 0xac1"
    using byte_range [of 32 y 172 16] less_Suc_eq_le [of "y mod 256" 31] by (simp add: div_range)
  have pairs: "y div 256 = 192 \<and> y mod 256 = 168 \<longleftrightarrow> y = 0xc0a8" "y div 256 = 169 \<and> y mod 256 = 254 \<longleftrightarrow> y = 0xa9fe"
    by (simp_all add: byte_pair)
  have bench: "y div 256 = 198 \<and> (y mod 256 = 18 \<or> y mod 256 = 19) \<longleftrightarrow> y div 2 = 0x6309"
    using byte_range [of 20 y 198 18] by (auto simp add: div_range)
  have multi: "224 \<le> y div 256 \<and> y div 256 \<le> 239 \<longleftrightarrow> y div 4096 = 14"
    using parts(9) by (auto simp add: div_range less_eq_div_iff_mult_less_eq)
  have docs: "y div 256 = h \<and> y mod 256 = m \<and> z mod 256 = l \<longleftrightarrow> z = (h * 256 + m) * 256 + l" if "m < 256" "l < 256" for h m l
    using byte_pair [of m y h] byte_pair [of l z "h * 256 + m"] that parts(7) by auto
  have docs3: "y div 256 = 192 \<and> y mod 256 = 0 \<and> z mod 256 = 2 \<longleftrightarrow> z = 0xc00002"
    "y div 256 = 198 \<and> y mod 256 = 51 \<and> z mod 256 = 100 \<longleftrightarrow> z = 0xc63364"
    "y div 256 = 203 \<and> y mod 256 = 0 \<and> z mod 256 = 113 \<longleftrightarrow> z = 0xcb0071"
    using docs [of 0 2 192] docs [of 51 100 198] docs [of 0 113 203] by simp_all
  show ?thesis
    unfolding is_public_v4_def v4_is_private_def v4_is_documentation_def v4_is_multicast_def is_cgnat_def octet_cgnat
      is_benchmark_v4_def
    unfolding octets_of special_v4_contains y_def [symmetric] z_def [symmetric] parts(2-6) ones
      cgnat rfc1918 pairs bench multi docs3 insert_iff empty_iff
    using zero by blast
qed

lemma unat_less6: "unat (a :: 128 word) < 2 ^ 128"
proof -
  have "unat a < 2 ^ LENGTH(128)" by (rule unsigned_less)
  then show ?thesis by simp
qed

lemma segments_of:
  "segment 0 a = unat a div 2 ^ 112" "segment 1 a = unat a div 2 ^ 96 mod 65536"
  "segment 0 a div 512 = unat a div 2 ^ 121" "segment 0 a div 64 = unat a div 2 ^ 118"
proof -
  have "unat a div 2 ^ 112 < 65536" using unat_less6 [of a] by (simp add: less_mult_imp_div_less)
  then show 0: "segment 0 a = unat a div 2 ^ 112" by (simp add: segment_def)
  show "segment 1 a = unat a div 2 ^ 96 mod 65536" by (simp add: segment_def)
  show "segment 0 a div 512 = unat a div 2 ^ 121" "segment 0 a div 64 = unat a div 2 ^ 118"
    unfolding 0 by (simp_all add: div_mult2_eq [symmetric])
qed

lemma segment_pair: "segment 0 a = h \<and> segment 1 a = l \<longleftrightarrow> unat a div 2 ^ 96 = h * 65536 + l" if "l < 65536"
proof -
  have "segment 0 a = unat a div 2 ^ 96 div 65536" unfolding segments_of by (simp add: div_mult2_eq [symmetric])
  then show ?thesis unfolding segments_of(2) using base_pair [OF that] by simp
qed

lemma public_v6_iff:
  assumes "to_ipv4_mapped a = None"
  shows "is_public_v6 a \<longleftrightarrow> \<not> list_ex (\<lambda>g. cidr_contains g (V6 a)) special_grants"
proof -
  have "list_ex (\<lambda>g. cidr_contains g (V6 a)) special_grants \<longleftrightarrow>
      unat a = 0 \<or> unat a = 1 \<or> unat a div 2 ^ 96 = 0x20010db8 \<or> unat a div 2 ^ 121 = 126 \<or> unat a div 2 ^ 118 = 0x3fa
      \<or> unat a div 2 ^ 120 = 255"
    using assms by (simp add: special_grants_def contains_v6 contains_other special_not_mapped)
  then show ?thesis
    using segment_pair [where a = a and h = "0x2001" and l = "0xdb8"]
    by (auto simp: is_public_v6_def v6_is_multicast_def v6_is_unique_local_def v6_is_unicast_link_local_def
        segment_unique_local segment_link_local segments_of(3,4) word_unat_eq_iff [of a])
qed

lemma canonical_cases:
  obtains (v4) a where "canonical_ip ip = V4 a"
  | (v6) a where "canonical_ip ip = V6 a" and "to_ipv4_mapped a = None"
proof (cases ip)
  case (V6 b)
  then show ?thesis using v4 v6 by (cases "to_ipv4_mapped b") (auto simp: canonical_ip_def)
qed (auto simp: canonical_ip_def intro: v4)

lemma canonical_idem [simp]: "canonical_ip (canonical_ip ip) = canonical_ip ip"
  by (cases ip) (auto simp: canonical_ip_def split: option.splits)

lemma contains_canonical: "cidr_contains g (canonical_ip ip) = cidr_contains g ip"
  by (simp add: cidr_contains_def)

text \<open>C21: The public Internet is exactly what the special-use ranges leave over. An address, IPv4-mapped or not, passes
  the octet and segment tests of the classifier when none of the CIDR texts \<open>special_ranges\<close>, read by the program's
  own parser, contains it; each of these texts parses.\<close>

theorem public_internet_exact:
  "is_public_internet ip \<longleftrightarrow>
     \<not> list_ex (\<lambda>raw. case CidrGrant_parse raw of Inl err \<Rightarrow> True | Inr g \<Rightarrow> cidr_contains g ip) special_ranges"
proof -
  have "list_ex (\<lambda>raw. case CidrGrant_parse raw of Inl err \<Rightarrow> True | Inr g \<Rightarrow> cidr_contains g ip) special_ranges
      = list_ex (\<lambda>r. case r of Inl err \<Rightarrow> True | Inr g \<Rightarrow> cidr_contains g ip) (map CidrGrant_parse special_ranges)"
    by (simp add: list_ex_iff)
  also have "\<dots> = list_ex (\<lambda>g. cidr_contains g (canonical_ip ip)) special_grants"
    unfolding special_parsed by (simp add: list_ex_iff contains_canonical)
  finally show ?thesis
    by (cases ip rule: canonical_cases) (simp_all add: is_public_internet_def public_v4_iff public_v6_iff)
qed

section \<open>Grants\<close>

text \<open>All addresses in one space of 128 bits, and the range that an address and a prefix length name there.\<close>

definition as6 :: "IpAddr \<Rightarrow> nat" where
  "as6 ip = (case ip of V4 a \<Rightarrow> 0xffff * 2 ^ 32 + unat a | V6 a \<Rightarrow> unat a)"

lemma as6_simps: "as6 (V4 a) = 0xffff * 2 ^ 32 + unat a" "as6 (V6 b) = unat b"
  by (simp_all add: as6_def)

definition host_bits :: "IpAddr \<Rightarrow> nat \<Rightarrow> nat" where
  "host_bits addr prefix = (if is_ipv4 addr then 32 - prefix else 128 - prefix)"

definition in_range :: "IpAddr \<Rightarrow> nat \<Rightarrow> IpAddr \<Rightarrow> bool" where
  "in_range addr prefix ip \<longleftrightarrow>
     as6 ip div 2 ^ host_bits addr prefix = as6 addr div 2 ^ host_bits addr prefix"

lemma unat_mask:
  fixes a :: "'a::len word"
  shows "unat (a AND push_bit k (- 1)) = unat a div 2 ^ k * 2 ^ k"
proof -
  have "unat a div 2 ^ k * 2 ^ k < 2 ^ LENGTH('a)"
    using unsigned_less [of a] by (meson div_times_less_eq_dividend le_less_trans)
  moreover have "a AND push_bit k (- 1) = push_bit k (drop_bit k a)"
    by (rule bit_word_eqI) (auto simp: bit_simps)
  moreover have "unat (push_bit k (drop_bit k a)) = take_bit LENGTH('a) (push_bit k (unat (drop_bit k a)))"
    by (rule unsigned_push_bit_eq)
  ultimately show ?thesis
    by (simp only: unat_drop_bit push_bit_nat_def take_bit_nat_eq_self)
qed

lemma unat_mask4: "p \<le> 32 \<Longrightarrow> unat (a AND mask4 p) = unat a div 2 ^ (32 - p) * 2 ^ (32 - p)"
  using unat_less4 [of a] unat_mask [of a "32 - p"] by (simp add: mask4_def)

lemma unat_mask6: "p \<le> 128 \<Longrightarrow> unat (a AND mask6 p) = unat a div 2 ^ (128 - p) * 2 ^ (128 - p)"
  using unat_less6 [of a] unat_mask [of a "128 - p"] by (simp add: mask6_def)

lemma unat_mapped: "to_ipv4_mapped a = Some v \<Longrightarrow> unat a = 0xffff * 2 ^ 32 + unat v"
proof -
  assume "to_ipv4_mapped a = Some v"
  then have "unat a div 2 ^ 32 = 0xffff" "v = ucast a" by (auto simp: to_ipv4_mapped_def split: if_splits)
  moreover from this have "unat v = unat a mod 2 ^ 32" by (simp add: unsigned_ucast_eq take_bit_eq_mod)
  ultimately show ?thesis using div_mult_mod_eq [of "unat a" "2 ^ 32"] by simp
qed

lemma as6_canonical [simp]: "as6 (canonical_ip ip) = as6 ip"
  by (cases ip) (auto simp: as6_def canonical_ip_def unat_mapped split: option.splits)

lemma high_add: "k \<le> 32 \<Longrightarrow> (c * 2 ^ 32 + x) div 2 ^ k = c * 2 ^ (32 - k) + x div 2 ^ k" for c x :: nat
proof -
  assume "k \<le> 32"
  then have "(2 :: nat) ^ 32 = 2 ^ (32 - k) * 2 ^ k" by (simp flip: power_add)
  then have "c * 2 ^ 32 + x = x + c * 2 ^ (32 - k) * 2 ^ k" by simp
  then show ?thesis by (simp only: div_mult_self1 power_not_zero zero_neq_numeral not_False_eq_True)
qed

lemma masked_Inr:
  "masked addr p = Inr g \<longleftrightarrow> p \<le> (if is_ipv4 addr then 32 else 128) \<and> g = \<lparr>cg_network = mask_ip addr p, cg_prefix = p\<rparr>"
  by (auto simp: masked_def)

lemma not_mapped: "to_ipv4_mapped a = None \<longleftrightarrow> unat a div 2 ^ 32 \<noteq> 0xffff"
  by (simp add: to_ipv4_mapped_def)

lemma range_v4:
  assumes "p \<le> 32" and "g = \<lparr>cg_network = V4 (n AND mask4 p), cg_prefix = p\<rparr>"
  shows "cidr_contains g ip \<longleftrightarrow> in_range (V4 n) p ip"
proof (cases ip rule: canonical_cases)
  case (v4 a)
  then have "cidr_contains g ip \<longleftrightarrow> unat a div 2 ^ (32 - p) = unat n div 2 ^ (32 - p)"
    using assms contains_v4 [of p "n AND mask4 p" a] contains_canonical [of g ip] by (simp add: unat_mask4)
  moreover have "as6 ip = 0xffff * 2 ^ 32 + unat a" using as6_canonical [of ip] unfolding v4 as6_simps by (rule sym)
  ultimately show ?thesis
    unfolding in_range_def host_bits_def by (simp only: as6_simps is_ipv4.simps if_True high_add diff_le_self add_left_cancel)
next
  case (v6 a)
  have ip: "as6 ip = unat a" using as6_canonical [of ip] unfolding v6 as6_simps by (rule sym)
  have "\<not> in_range (V4 n) p ip"
  proof
    assume "in_range (V4 n) p ip"
    then have "unat a div 2 ^ (32 - p) = (0xffff * 2 ^ 32 + unat n) div 2 ^ (32 - p)"
      by (simp only: in_range_def host_bits_def ip as6_simps is_ipv4.simps if_True)
    then have "unat a div 2 ^ (32 - p) div 2 ^ p = (0xffff * 2 ^ 32 + unat n) div 2 ^ (32 - p) div 2 ^ p" by simp
    then have "unat a div 2 ^ 32 = (0xffff * 2 ^ 32 + unat n) div 2 ^ 32"
      using assms(1) by (simp only: div_mult2_eq [symmetric] power_add [symmetric] le_add_diff_inverse2)
    then show False using v6(2) unat_less4 [of n] by (simp add: not_mapped)
  qed
  moreover have "\<not> cidr_contains g ip"
    using assms(2) v6 contains_other(2) [of a "n AND mask4 p" p] contains_canonical [of g ip] by simp
  ultimately show ?thesis by simp
qed

lemma trunc_div: "x div 2 ^ k * 2 ^ k div 2 ^ (k + j) = x div 2 ^ (k + j)" for x :: nat
  by (simp add: power_add div_mult2_eq)

lemma masked_network_mapped:
  assumes "p \<le> 128"
  shows "to_ipv4_mapped (n AND mask6 p) \<noteq> None \<longleftrightarrow> 96 \<le> p \<and> to_ipv4_mapped n \<noteq> None"
proof (cases "96 \<le> p")
  case True
  then have "32 = 128 - p + (p - 96)" using assms by simp
  then have "unat n div 2 ^ (128 - p) * 2 ^ (128 - p) div 2 ^ 32 = unat n div 2 ^ 32"
    using trunc_div [of "unat n" "128 - p" "p - 96"] by argo
  then show ?thesis using assms True by (simp only: not_mapped unat_mask6 simp_thms)
next
  case False
  then have j: "128 - p = Suc (32 + (95 - p))" by simp
  have "unat (n AND mask6 p) div 2 ^ 32 = unat n div 2 ^ (128 - p) * 2 ^ Suc (95 - p)"
    unfolding unat_mask6 [OF assms] unfolding j by (simp add: power_add)
  then have "even (unat (n AND mask6 p) div 2 ^ 32)" by simp
  then have "unat (n AND mask6 p) div 2 ^ 32 \<noteq> 0xffff" by auto
  then show ?thesis using False by (simp add: not_mapped)
qed

lemma contains_mapped:
  assumes "p \<le> 128" and "96 \<le> p" and "to_ipv4_mapped (n AND mask6 p) = Some v"
    and "g = \<lparr>cg_network = V6 (n AND mask6 p), cg_prefix = p\<rparr>"
  shows "cidr_contains g ip \<longleftrightarrow> canonical_ip ip = V4 v"
proof -
  have "canonical_ip (cg_network g) = V4 v" using assms(3,4) by (simp add: canonical_ip_def)
  moreover have "ipv4_prefix_eq a v 32 \<longleftrightarrow> a = v" for a by (simp add: ipv4_prefix_iff word_unat_eq_iff)
  moreover have "min (cg_prefix g) 32 = 32" using assms(2,4) by simp
  ultimately show ?thesis by (cases ip rule: canonical_cases) (auto simp: cidr_contains_def)
qed

lemma range_v6:
  assumes p: "p \<le> 128" and g: "g = \<lparr>cg_network = V6 (n AND mask6 p), cg_prefix = p\<rparr>"
  shows "cidr_contains g ip \<Longrightarrow> in_range (V6 n) p ip"
    and "canonical_ip ip = V6 a \<Longrightarrow> cidr_contains g ip \<longleftrightarrow> in_range (V6 n) p ip"
proof -
  have range: "in_range (V6 n) p ip \<longleftrightarrow> as6 ip div 2 ^ (128 - p) = unat n div 2 ^ (128 - p)"
    by (simp only: in_range_def host_bits_def as6_simps is_ipv4.simps if_False)
  have masked: "unat (n AND mask6 p) div 2 ^ (128 - p) = unat n div 2 ^ (128 - p)"
    unfolding unat_mask6 [OF p] by simp
  have v6: "cidr_contains g ip \<longleftrightarrow> in_range (V6 n) p ip" if ip: "canonical_ip ip = V6 a" for a
  proof (cases "to_ipv4_mapped (n AND mask6 p)")
    case None
    have "to_ipv4_mapped a = None" using ip by (cases ip rule: canonical_cases) auto
    with None show ?thesis
      using contains_v6 [OF p None, of a] contains_canonical [of g ip] as6_canonical [of ip]
      by (simp add: g ip range masked as6_simps)
  next
    case (Some v)
    then have 96: "96 \<le> p" "unat n div 2 ^ 32 = 0xffff"
      using masked_network_mapped [OF p, of n] by (auto simp: not_mapped)
    have a: "unat a div 2 ^ 32 \<noteq> 0xffff" using ip by (cases ip rule: canonical_cases) (auto simp: not_mapped)
    have "\<not> in_range (V6 n) p ip"
    proof
      assume "in_range (V6 n) p ip"
      then have "unat a div 2 ^ (128 - p) div 2 ^ (p - 96) = unat n div 2 ^ (128 - p) div 2 ^ (p - 96)"
        using as6_canonical [of ip] by (simp add: range ip as6_simps)
      moreover have "(2 :: nat) ^ 32 = 2 ^ (128 - p) * 2 ^ (p - 96)" using p 96(1) by (simp flip: power_add)
      ultimately show False using a 96(2) by (simp only: div_mult2_eq)
    qed
    then show ?thesis using contains_mapped [OF p 96(1) Some g, of ip] by (simp add: ip)
  qed
  show "canonical_ip ip = V6 a \<Longrightarrow> cidr_contains g ip \<longleftrightarrow> in_range (V6 n) p ip" by (rule v6)
  show "in_range (V6 n) p ip" if c: "cidr_contains g ip"
  proof (cases ip rule: canonical_cases)
    case (v4 a)
    then have "to_ipv4_mapped (n AND mask6 p) \<noteq> None"
      using c contains_other(1) [of "n AND mask6 p" p a] contains_canonical [of g ip] by (auto simp: g)
    then obtain v where v: "to_ipv4_mapped (n AND mask6 p) = Some v" "96 \<le> p"
      using masked_network_mapped [OF p, of n] by auto
    then have "v = a" using contains_mapped [OF p v(2,1) g, of ip] c v4 by simp
    then have "as6 ip = unat (n AND mask6 p)"
      using as6_canonical [of ip] unat_mapped [OF v(1)] unfolding v4 as6_simps by simp
    then show ?thesis by (simp only: range masked)
  qed (use c v6 in blast)
qed

text \<open>C22: A CIDR grant never reaches past the range it names. An address that a grant contains shares the prefix of the
  grant's address, IPv4 addresses counted as their IPv4-mapped forms; and the grant contains all of that range when it
  was written as an IPv4 range, or when the address is a proper IPv6 one.\<close>

theorem cidr_grant_range:
  assumes "masked addr prefix = Inr g"
  shows "(cidr_contains g ip \<longrightarrow> in_range addr prefix ip)
    \<and> (is_ipv4 addr \<or> \<not> is_ipv4 (canonical_ip ip) \<longrightarrow> (cidr_contains g ip \<longleftrightarrow> in_range addr prefix ip))"
proof (cases addr)
  case (V4 n)
  then show ?thesis using assms range_v4 [of prefix g n ip] by (simp add: masked_Inr mask_ip_def)
next
  case (V6 n)
  with assms have p: "prefix \<le> 128" and g: "g = \<lparr>cg_network = V6 (n AND mask6 prefix), cg_prefix = prefix\<rparr>"
    by (simp_all add: masked_Inr mask_ip_def)
  show ?thesis using range_v6 [OF p g, of ip] V6 by (cases "canonical_ip ip") auto
qed

lemma demo_grant_10:
  "masked (V4 0x0a000000) 8 = Inr \<lparr>cg_network = V4 0x0a000000, cg_prefix = 8\<rparr>"
  "cidr_contains \<lparr>cg_network = V4 0x0a000000, cg_prefix = 8\<rparr> (V4 0x0a010203)"
  "\<not> cidr_contains \<lparr>cg_network = V4 0x0a000000, cg_prefix = 8\<rparr> (V4 0x0b000000)"
  by code_simp+

theorem cidr_grant_range_witness:
  "in_range (V4 0x0a000000) 8 (V4 0x0a010203) \<and> \<not> in_range (V4 0x0a000000) 8 (V4 0x0b000000)"
  using cidr_grant_range [OF demo_grant_10(1), of "V4 0x0a010203"] cidr_grant_range [OF demo_grant_10(1), of "V4 0x0b000000"]
    demo_grant_10(2,3) by simp

text \<open>A grant written as a range of IPv4-mapped addresses contains one address only: the prefix length, counted in 128
  bits, is cut down to 32 and then compared with all 32 bits of the unwrapped address, so \<open>::ffff:10.0.0.0/104\<close> admits
  10.0.0.0 and none of the other addresses of 10.0.0.0/8.\<close>

theorem mapped_cidr_contains_one_address:
  assumes "masked (V6 n) prefix = Inr g" and "96 \<le> prefix" and "to_ipv4_mapped n \<noteq> None"
  shows "\<exists>v. \<forall>ip. cidr_contains g ip \<longleftrightarrow> canonical_ip ip = V4 v"
proof -
  have p: "prefix \<le> 128" and g: "g = \<lparr>cg_network = V6 (n AND mask6 prefix), cg_prefix = prefix\<rparr>"
    using assms(1) by (simp_all add: masked_Inr mask_ip_def)
  obtain v where "to_ipv4_mapped (n AND mask6 prefix) = Some v"
    using masked_network_mapped [OF p, of n] assms(2,3) by auto
  then show ?thesis using contains_mapped [OF p assms(2) _ g] by blast
qed

lemma demo_grant_mapped:
  "masked (V6 0xffff0a000000) 104 = Inr \<lparr>cg_network = V6 0xffff0a000000, cg_prefix = 104\<rparr>"
  "cidr_contains \<lparr>cg_network = V6 0xffff0a000000, cg_prefix = 104\<rparr> (V4 0x0a000000)"
  by code_simp (simp add: cidr_contains_def canonical_ip_def to_ipv4_mapped_def ipv4_prefix_iff)

theorem mapped_cidr_contains_one_address_witness:
  "\<not> cidr_contains \<lparr>cg_network = V6 0xffff0a000000, cg_prefix = 104\<rparr> (V4 0x0a000001)
   \<and> in_range (V6 0xffff0a000000) 104 (V4 0x0a000001)"
proof -
  have "to_ipv4_mapped 0xffff0a000000 \<noteq> None" by (simp add: to_ipv4_mapped_def)
  then obtain v where "\<forall>ip. cidr_contains \<lparr>cg_network = V6 0xffff0a000000, cg_prefix = 104\<rparr> ip \<longleftrightarrow> canonical_ip ip = V4 v"
    using mapped_cidr_contains_one_address [OF demo_grant_mapped(1)] by auto
  with demo_grant_mapped(2) show ?thesis by (simp add: canonical_ip_def in_range_def host_bits_def as6_def)
qed

end
