(* ===== verification/Net_Text.thy ===== *)
theory Net_Text
  imports Net_Address
begin

unbundle bit_operations_syntax

text \<open>
  Printing of addresses and grants, as \<open>Display\<close> of \<open>std::net\<close> does it, and that the parser of \<open>Net_Address\<close> reads
  the printed text back. The program stores the CIDR grants of a policy as text and parses them again on every use.
\<close>

section \<open>Numbers\<close>

fun radix_digits :: "nat \<Rightarrow> nat \<Rightarrow> nat list" where
  "radix_digits r n = (if r \<le> 1 \<or> n < r then [n] else radix_digits r (n div r) @ [n mod r])"

declare radix_digits.simps [simp del]

definition digit_char :: "nat \<Rightarrow> char" where
  "digit_char d = char_of (if d < 10 then 48 + d else 87 + d)"

text \<open>\<open>{:x}\<close> of an unsigned integer.\<close>

definition hex_str :: "nat \<Rightarrow> string" where
  "hex_str n = map digit_char (radix_digits 16 n)"

lemma radix_digits_value: "1 < r \<Longrightarrow> digits_value r (radix_digits r n) = n"
proof (induction r n rule: radix_digits.induct)
  case (1 r n)
  show ?case
  proof (cases "n < r")
    case True
    then show ?thesis by (simp add: radix_digits.simps [of r n] digits_value_def)
  next
    case False
    then have "digits_value r (radix_digits r (n div r)) = n div r" using 1 by simp
    then show ?thesis using 1(2) False by (simp add: radix_digits.simps [of r n] digits_value_def)
  qed
qed

lemma radix_digits_less: "1 < r \<Longrightarrow> d \<in> set (radix_digits r n) \<Longrightarrow> d < r"
proof (induction r n rule: radix_digits.induct)
  case (1 r n)
  then show ?case by (cases "n < r") (auto simp: radix_digits.simps [of r n])
qed

lemma radix_digits_length: "1 < r \<Longrightarrow> n < r ^ Suc k \<Longrightarrow> length (radix_digits r n) \<le> Suc k"
proof (induction k arbitrary: n)
  case 0
  then show ?case by (simp add: radix_digits.simps [of r n])
next
  case (Suc k)
  show ?case
  proof (cases "n < r")
    case True
    then show ?thesis by (simp add: radix_digits.simps [of r n])
  next
    case False
    have "n div r < r ^ Suc k" using Suc.prems by (simp add: less_mult_imp_div_less mult.commute)
    then show ?thesis using Suc.IH Suc.prems(1) False by (simp add: radix_digits.simps [of r n])
  qed
qed

lemma radix_digits_not_Nil [simp]: "radix_digits r n \<noteq> []"
  by (subst radix_digits.simps) simp

lemma radix_digits_head: "1 < r \<Longrightarrow> hd (radix_digits r n) = 0 \<Longrightarrow> n = 0"
proof (induction r n rule: radix_digits.induct)
  case (1 r n)
  show ?case
  proof (cases "n < r")
    case True
    then show ?thesis using 1(3) by (simp add: radix_digits.simps [of r n])
  next
    case False
    then have "n div r = 0" using 1 by (simp add: radix_digits.simps [of r n])
    then show ?thesis using False 1(2) by (simp add: div_eq_0_iff)
  qed
qed

lemma nat_str_digits: "nat_str n = map digit_char (radix_digits 10 n)"
proof (induction n rule: less_induct)
  case (less n)
  show ?case
  proof (cases "n < 10")
    case True
    then show ?thesis by (simp add: nat_str.simps [of n] radix_digits.simps [of 10 n] digit_char_def)
  next
    case False
    then have "nat_str (n div 10) = map digit_char (radix_digits 10 (n div 10))" using less by simp
    then show ?thesis using False by (simp add: nat_str.simps [of n] radix_digits.simps [of 10 n] digit_char_def)
  qed
qed

lemma of_char_digit: "d < 16 \<Longrightarrow> of_char (digit_char d) = (if d < 10 then 48 + d else 87 + d)"
  by (simp add: digit_char_def)

lemma to_digit_char: "d < r \<Longrightarrow> r \<le> 16 \<Longrightarrow> to_digit r (digit_char d) = Some d"
  using of_char_digit [of d] by (auto simp: to_digit_def)

lemma digit_char_zero: "d < 16 \<Longrightarrow> digit_char d = CHR ''0'' \<longleftrightarrow> d = 0"
proof -
  assume "d < 16"
  then have "of_char (digit_char d) = (of_char CHR ''0'' :: nat) \<longleftrightarrow> d = 0" using of_char_digit [of d] by auto
  then show ?thesis by (simp only: of_char_eq_iff)
qed

lemma read_digits_chars:
  assumes "r \<le> 16" and "rest = [] \<or> to_digit r (hd rest) = None"
  shows "\<forall>d \<in> set ds. d < r \<Longrightarrow> read_digits r (map digit_char ds @ rest) = (ds, rest)"
proof (induction ds)
  case Nil
  then show ?case using assms(2) by (cases rest) auto
next
  case (Cons d ds)
  then show ?case using to_digit_char [of d r] assms(1) by simp
qed

lemma read_number_chars:
  assumes r: "1 < r" "r \<le> 16" and rest: "rest = [] \<or> to_digit r (hd rest) = None" and n: "n < r ^ Suc k" "n \<le> limit"
  shows "read_number r (Suc k) zeros limit (map digit_char (radix_digits r n) @ rest) = Some (n, rest)"
proof -
  let ?ds = "radix_digits r n"
  have "read_digits r (map digit_char ?ds @ rest) = (?ds, rest)"
    using read_digits_chars [OF r(2) rest, of ?ds] radix_digits_less [OF r(1)] by blast
  moreover have "\<not> (hd (map digit_char ?ds @ rest) = CHR ''0'' \<and> 1 < length ?ds)"
  proof
    assume zero: "hd (map digit_char ?ds @ rest) = CHR ''0'' \<and> 1 < length ?ds"
    have "hd ?ds < 16" using radix_digits_less [OF r(1), of "hd ?ds" n] r(2) by simp
    with zero have "hd ?ds = 0" by (simp add: hd_map digit_char_zero)
    then have "n = 0" by (rule radix_digits_head [OF r(1)])
    then show False using zero r(1) by (simp add: radix_digits.simps)
  qed
  ultimately show ?thesis
    using radix_digits_length [OF r(1) n(1)] n(2) radix_digits_value [OF r(1), of n] by (auto simp: read_number_def)
qed

section \<open>Addresses\<close>

definition show_ipv4 :: "32 word \<Rightarrow> string" where
  "show_ipv4 a =
     nat_str (octet 0 a) @ ''.'' @ nat_str (octet 1 a) @ ''.'' @ nat_str (octet 2 a) @ ''.'' @ nat_str (octet 3 a)"

definition segments :: "128 word \<Rightarrow> nat list" where
  "segments a = map (\<lambda>i. segment i a) [0..<8]"

text \<open>The first of the longest runs of zero segments: position, longest run and current run.\<close>

fun zero_span :: "nat \<Rightarrow> nat \<times> nat \<Rightarrow> nat \<times> nat \<Rightarrow> nat list \<Rightarrow> nat \<times> nat" where
  "zero_span i longest current [] = longest"
| "zero_span i (ls, ll) (cs, cl) (x # xs) =
     (if x = 0
      then let cs' = (if cl = 0 then i else cs); cl' = cl + 1
           in zero_span (i + 1) (if ll < cl' then (cs', cl') else (ls, ll)) (cs', cl') xs
      else zero_span (i + 1) (ls, ll) (0, 0) xs)"

definition fmt_subslice :: "nat list \<Rightarrow> string" where
  "fmt_subslice gs = concat (case gs of [] \<Rightarrow> [] | g # tail \<Rightarrow> hex_str g # map (\<lambda>x. CHR '':'' # hex_str x) tail)"

definition show_ipv6 :: "128 word \<Rightarrow> string" where
  "show_ipv6 a =
     (case to_ipv4_mapped a of
        Some v4 \<Rightarrow> ''::ffff:'' @ show_ipv4 v4
      | None \<Rightarrow>
          (case zero_span 0 (0, 0) (0, 0) (segments a) of
             (start, len) \<Rightarrow>
               if 1 < len
               then fmt_subslice (take start (segments a)) @ ''::'' @ fmt_subslice (drop (start + len) (segments a))
               else fmt_subslice (segments a)))"

definition show_ip :: "IpAddr \<Rightarrow> string" where
  "show_ip ip = (case ip of V4 a \<Rightarrow> show_ipv4 a | V6 a \<Rightarrow> show_ipv6 a)"

definition show_cidr :: "CidrGrant \<Rightarrow> string" where
  "show_cidr g = show_ip (cg_network g) @ ''/'' @ nat_str (cg_prefix g)"

section \<open>Reading IPv4 addresses back\<close>

lemma octet_less: "octet i a < 256"
  by (simp add: octet_def)

lemma from_octets_of: "from_octets (octet 0 a) (octet 1 a) (octet 2 a) (octet 3 a) = a"
proof -
  let ?x = "unat a"
  have "?x div 2 ^ 24 mod 256 = ?x div 2 ^ 24" using unat_less4 [of a] by simp
  moreover have "?x div 2 ^ 24 * 256 + ?x div 2 ^ 16 mod 256 = ?x div 2 ^ 16"
    "?x div 2 ^ 16 * 256 + ?x div 2 ^ 8 mod 256 = ?x div 2 ^ 8" "?x div 2 ^ 8 * 256 + ?x mod 256 = ?x"
    using div_mult_mod_eq [of "?x div 2 ^ 16" 256] div_mult_mod_eq [of "?x div 2 ^ 8" 256] div_mult_mod_eq [of ?x 256]
    by (simp_all add: div_mult2_eq [symmetric])
  ultimately show ?thesis by (simp add: from_octets_def octet_def)
qed

lemma read_octet_str:
  assumes "n < 256" and "rest = [] \<or> to_digit 10 (hd rest) = None"
  shows "read_octet 0 (nat_str n @ rest) = Some (n, rest)" "i \<noteq> 0 \<Longrightarrow> read_octet i (CHR ''.'' # nat_str n @ rest) = Some (n, rest)"
  using read_number_chars [of 10 rest n 2 255 False] assms
  by (simp_all add: read_octet_def read_separator_def nat_str_digits)

lemma not_digit: "to_digit 10 CHR ''.'' = None" "to_digit 10 CHR '':'' = None" "to_digit 16 CHR '':'' = None"
  "to_digit 10 CHR ''/'' = None" "to_digit 10 CHR ''f'' = None"
  by (simp_all add: to_digit_def)

lemma read_show_ipv4:
  assumes "rest = [] \<or> to_digit 10 (hd rest) = None"
  shows "read_ipv4_addr (show_ipv4 a @ rest) = Some (a, rest)"
  using assms octet_less [of _ a] by (simp add: read_ipv4_addr_def show_ipv4_def read_octet_str not_digit from_octets_of
      del: One_nat_def)

section \<open>Reading IPv6 addresses back\<close>

lemma read_digits_suffix: "read_digits r s = (ds, rest) \<Longrightarrow> set rest \<subseteq> set s"
  by (induction r s arbitrary: ds rule: read_digits.induct) (fastforce split: option.splits prod.splits)+

lemma read_ipv4_no_dot: "CHR ''.'' \<notin> set s \<Longrightarrow> read_ipv4_addr s = None"
proof -
  assume dot: "CHR ''.'' \<notin> set s"
  have "read_octet 1 rest = None" if "read_octet 0 s = Some (a, rest)" for a rest
  proof -
    have "set rest \<subseteq> set s"
      using that read_digits_suffix [of 10 s] by (auto simp: read_octet_def read_separator_def read_number_def split: prod.splits if_splits)
    then show ?thesis using dot by (cases rest) (auto simp: read_octet_def read_separator_def)
  qed
  then show ?thesis by (auto simp: read_ipv4_addr_def split: option.splits)
qed

lemma read_number_hex:
  "g < 65536 \<Longrightarrow> rest = [] \<or> hd rest = CHR '':'' \<Longrightarrow> read_number 16 4 True 65535 (hex_str g @ rest) = Some (g, rest)"
  using read_number_chars [of 16 rest g 3 65535 True] by (auto simp: hex_str_def not_digit)

text \<open>The groups as the parser meets them at position \<open>i\<close>.\<close>

fun group_text :: "nat \<Rightarrow> nat list \<Rightarrow> string" where
  "group_text i [] = []"
| "group_text i (g # gs) = (if i = 0 then [] else '':'') @ hex_str g @ group_text (i + 1) gs"

lemma group_text_later: "i \<noteq> 0 \<Longrightarrow> group_text i gs = concat (map (\<lambda>x. CHR '':'' # hex_str x) gs)"
  by (induction gs arbitrary: i) auto

lemma fmt_subslice_text: "fmt_subslice gs = group_text 0 gs"
  by (cases gs) (simp_all add: fmt_subslice_def group_text_later)

lemma hex_chars: "c \<in> set (hex_str n) \<Longrightarrow> \<exists>d < 16. c = digit_char d"
  using radix_digits_less [of 16 _ n] by (auto simp: hex_str_def)

lemma digit_char_not_sign: "d < 16 \<Longrightarrow> digit_char d \<notin> {CHR ''.'', CHR ''/'', CHR '':''}"
proof -
  assume d: "d < 16"
  have "digit_char d \<noteq> c" if "of_char c \<in> {46, 47, 58 :: nat}" for c
    using of_char_digit [OF d] that by (auto split: if_splits)
  then show ?thesis by auto
qed

lemma hex_no_sign: "CHR ''.'' \<notin> set (hex_str n)" "CHR ''/'' \<notin> set (hex_str n)"
  using hex_chars [of _ n] digit_char_not_sign by fastforce+

lemma group_text_no_dot: "CHR ''.'' \<notin> set (group_text i gs)"
  using hex_no_sign(1) by (induction i gs rule: group_text.induct) auto

lemma group_text_hd: "i \<noteq> 0 \<Longrightarrow> group_text i gs = [] \<or> hd (group_text i gs) = CHR '':''"
  by (cases gs) auto

definition stops :: "string \<Rightarrow> bool" where
  "stops rest \<longleftrightarrow> rest = [] \<or> (\<exists>rest'. rest = CHR '':'' # CHR '':'' # rest')"

lemma read_groups_stop:
  assumes "stops rest" and "CHR ''.'' \<notin> set rest"
  shows "read_groups limit i rest = ([], False, rest)"
proof -
  have "read_separator CHR '':'' i read_ipv4_addr rest = None"
    using assms read_ipv4_no_dot [of rest] read_ipv4_no_dot [of "tl rest"]
    by (cases rest) (auto simp: read_separator_def)
  moreover have "read_separator CHR '':'' i (read_number 16 4 True 65535) rest = None"
    using assms(1) by (auto simp: stops_def read_separator_def read_number_def not_digit)
  ultimately show ?thesis by (simp add: read_groups.simps [of limit i rest])
qed

lemma read_groups_text:
  assumes "\<forall>g \<in> set gs. g < 65536" and "i + length gs \<le> limit" and "stops rest" and "CHR ''.'' \<notin> set rest"
  shows "read_groups limit i (group_text i gs @ rest) = (gs, False, rest)"
  using assms
proof (induction gs arbitrary: i)
  case Nil
  then show ?case by (simp add: read_groups_stop)
next
  case (Cons g gs)
  let ?tail = "group_text (i + 1) gs @ rest"
  let ?s = "group_text i (g # gs) @ rest"
  have tail: "?tail = [] \<or> hd ?tail = CHR '':''"
    using group_text_hd [of "i + 1" gs] Cons.prems(3) by (cases "group_text (i + 1) gs") (auto simp: stops_def)
  have "read_separator CHR '':'' i read_ipv4_addr ?s = None"
    using group_text_no_dot [of i "g # gs"] Cons.prems(4) by (auto simp: read_separator_def intro!: read_ipv4_no_dot)
  moreover have "read_separator CHR '':'' i (read_number 16 4 True 65535) ?s = Some (g, ?tail)"
    using read_number_hex [OF _ tail, of g] Cons.prems(1) by (cases "i = 0") (simp_all add: read_separator_def)
  moreover have "read_groups limit (i + 1) ?tail = (gs, False, rest)" using Cons by simp
  ultimately show ?case using Cons.prems(2) by (subst read_groups.simps) (simp del: group_text.simps)
qed

definition zero_run :: "nat list \<Rightarrow> nat \<times> nat \<Rightarrow> bool" where
  "zero_run ys r \<longleftrightarrow> fst r + snd r \<le> length ys \<and> (\<forall>j. fst r \<le> j \<and> j < fst r + snd r \<longrightarrow> ys ! j = 0)"

lemma zero_run_append: "zero_run ys r \<Longrightarrow> zero_run (ys @ zs) r"
  by (auto simp: zero_run_def nth_append)

lemma zero_run_extend:
  "zero_run ys (s, l) \<Longrightarrow> l = 0 \<or> s + l = length ys \<Longrightarrow> zero_run (ys @ [0]) (if l = 0 then length ys else s, l + 1)"
  by (auto simp: zero_run_def nth_append less_Suc_eq)

lemma zero_span_run:
  assumes "zero_run ys longest" and "zero_run ys (cs, cl)" and "cl = 0 \<or> cs + cl = length ys"
  shows "zero_run (ys @ xs) (zero_span (length ys) longest (cs, cl) xs)"
  using assms
proof (induction xs arbitrary: ys longest cs cl)
  case Nil
  then show ?case by (cases longest) simp
next
  case (Cons x xs)
  obtain ls ll where longest: "longest = (ls, ll)" by fastforce
  let ?c = "(if cl = 0 then length ys else cs, cl + 1)"
  show ?case
  proof (cases "x = 0")
    case True
    have c: "zero_run (ys @ [0]) ?c" using Cons.prems(2,3) by (rule zero_run_extend)
    then have "zero_run (ys @ [0]) (if ll < cl + 1 then ?c else (ls, ll))"
      using zero_run_append [OF Cons.prems(1)] by (simp add: longest)
    from Cons.IH [OF this c] show ?thesis using True Cons.prems(3) by (auto simp: longest Let_def)
  next
    case False
    have "zero_run (ys @ [x]) (0, 0)" by (simp add: zero_run_def)
    from Cons.IH [OF zero_run_append [OF Cons.prems(1)] this] show ?thesis using False by (simp add: longest)
  qed
qed

lemma zero_run_split: "zero_run ys (s, l) \<Longrightarrow> ys = take s ys @ replicate l 0 @ drop (s + l) ys"
  by (rule nth_equalityI) (auto simp: zero_run_def nth_append min_def)

lemma segment_less: "segment i a < 65536"
  by (simp add: segment_def)

lemma length_segments [simp]: "length (segments a) = 8"
  by (simp add: segments_def)

lemma segments_less: "g \<in> set (segments a) \<Longrightarrow> g < 65536"
  using segment_less by (auto simp: segments_def)

lemma fold_digits: "foldl (\<lambda>n i. n * b + x div b ^ (m - i) mod b) (x div b ^ Suc m) [0..<Suc k] = x div b ^ (m - k)"
  if "k \<le> m" for x b m k :: nat
  using that
proof (induction k)
  case 0
  show ?case using div_mult_mod_eq [of "x div b ^ m" b] by (simp add: div_mult2_eq [symmetric] mult.commute)
next
  case (Suc k)
  then have m: "m - k = Suc (m - Suc k)" by simp
  have "foldl (\<lambda>n i. n * b + x div b ^ (m - i) mod b) (x div b ^ Suc m) [0..<Suc (Suc k)]
      = x div b ^ (m - k) * b + x div b ^ (m - Suc k) mod b"
    using Suc by simp
  also have "x div b ^ (m - k) = x div b ^ (m - Suc k) div b"
    unfolding m by (simp add: div_mult2_eq [symmetric] mult.commute)
  finally show ?case by simp
qed

lemma from_segments_of: "from_segments (segments a) = a"
proof -
  have pow: "(2 :: nat) ^ (112 - 16 * i) = 65536 ^ (7 - i)" for i
  proof -
    have "112 - 16 * i = 16 * (7 - i)" by (simp add: diff_mult_distrib2)
    then have "(2 :: nat) ^ (112 - 16 * i) = (2 ^ 16) ^ (7 - i)" by (simp only: power_mult)
    then show ?thesis by simp
  qed
  have "foldl (\<lambda>n g. n * 65536 + g) 0 (segments a)
      = foldl (\<lambda>n i. n * 65536 + unat a div 65536 ^ (7 - i) mod 65536) 0 [0..<8]"
    unfolding segments_def foldl_map by (rule foldl_cong) (simp_all add: segment_def pow)
  also have "\<dots> = unat a"
    using fold_digits [of 7 7 65536 "unat a"] unat_less6 [of a] by simp
  finally show ?thesis by (simp add: from_segments_def)
qed

lemma read_ipv6_groups:
  assumes "\<forall>g \<in> set gs. g < 65536" and "length gs = 8"
  shows "read_ipv6_addr (fmt_subslice gs) = Some (from_segments gs, [])"
  using read_groups_text [of gs 0 8 "[]"] assms by (simp add: read_ipv6_addr_def fmt_subslice_text stops_def)

lemma read_ipv6_compressed:
  assumes "\<forall>g \<in> set gs. g < 65536" and "\<forall>h \<in> set hs. h < 65536" and "length gs + length hs < 8"
  shows "read_ipv6_addr (fmt_subslice gs @ ''::'' @ fmt_subslice hs) =
    Some (from_segments (gs @ replicate (8 - length gs - length hs) 0 @ hs), [])"
  using read_groups_text [of gs 0 8 "''::'' @ group_text 0 hs"] read_groups_text [of hs 0 "8 - (length gs + 1)" "[]"]
    group_text_no_dot [of 0 hs] assms
  by (simp add: read_ipv6_addr_def fmt_subslice_text stops_def)

lemma fmt_no_dot: "CHR ''.'' \<notin> set (fmt_subslice gs)"
  by (simp add: fmt_subslice_text group_text_no_dot)

lemma parse_ipv6_text:
  "CHR ''.'' \<notin> set s \<Longrightarrow> read_ipv6_addr s = Some (a, []) \<Longrightarrow> parse_ip s = Some (V6 a)"
  by (simp add: parse_ip_def read_ipv4_no_dot)

lemma parse_show_mapped:
  assumes "to_ipv4_mapped a = Some v"
  shows "parse_ip (''::ffff:'' @ show_ipv4 v) = Some (V6 a)"
proof -
  let ?s = "show_ipv4 v"
  have no4: "read_ipv4_addr (CHR '':'' # x) = None" "read_ipv4_addr (CHR ''f'' # x) = None" for x
    by (simp_all add: read_ipv4_addr_def read_octet_def read_separator_def read_number_def not_digit)
  have ffff: "read_number 16 4 True 65535 (''ffff:'' @ ?s) = Some (65535, CHR '':'' # ?s)"
    by (simp add: read_number_def to_digit_def digits_value_def)
  have "read_groups 7 1 (CHR '':'' # ?s) = ([unat v div 65536, unat v mod 65536], True, [])"
    using read_show_ipv4 [of "[]" v] by (subst read_groups.simps) (simp add: read_separator_def)
  then have "read_groups 7 0 (''ffff:'' @ ?s) = ([65535, unat v div 65536, unat v mod 65536], True, [])"
    using ffff by (subst read_groups.simps) (simp add: read_separator_def no4)
  moreover have "read_groups 8 0 (''::ffff:'' @ ?s) = ([], False, ''::ffff:'' @ ?s)"
    by (subst read_groups.simps) (simp add: read_separator_def no4 read_number_def not_digit)
  ultimately have "read_ipv6_addr (''::ffff:'' @ ?s) =
      Some (from_segments (replicate 5 0 @ [65535, unat v div 65536, unat v mod 65536]), [])"
    by (simp add: read_ipv6_addr_def)
  moreover have "from_segments (replicate 5 0 @ [65535, unat v div 65536, unat v mod 65536]) = a"
  proof -
    have "foldl (\<lambda>n g. n * 65536 + g) 0 (replicate 5 0 @ [65535, unat v div 65536, unat v mod 65536]) = unat a"
      using unat_mapped [OF assms] div_mult_mod_eq [of "unat v" 65536] by (simp add: replicate_numeral)
    then show ?thesis by (simp only: from_segments_def word_unat_eq_iff) simp
  qed
  ultimately show ?thesis by (simp add: parse_ip_def no4)
qed

lemma parse_show_ip: "parse_ip (show_ip ip) = Some ip"
proof (cases ip)
  case (V4 a)
  then show ?thesis using read_show_ipv4 [of "[]" a] by (simp add: show_ip_def parse_ip_def)
next
  case (V6 a)
  show ?thesis
  proof (cases "to_ipv4_mapped a")
    case (Some v)
    then show ?thesis using parse_show_mapped [OF Some] by (simp add: V6 show_ip_def show_ipv6_def)
  next
    case None
    obtain start len where span: "zero_span 0 (0, 0) (0, 0) (segments a) = (start, len)" by fastforce
    have run: "zero_run (segments a) (start, len)"
      using zero_span_run [of "[]" "(0, 0)" 0 0 "segments a"] span by (simp add: zero_run_def)
    show ?thesis
    proof (cases "1 < len")
      case True
      define gs hs where "gs = take start (segments a)" and "hs = drop (start + len) (segments a)"
      have split: "segments a = gs @ replicate len 0 @ hs" unfolding gs_def hs_def by (rule zero_run_split [OF run])
      have len: "length gs + len + length hs = 8" using arg_cong [OF split, of length] by simp
      then have "8 - length gs - length hs = len" by simp
      moreover have "\<forall>g \<in> set gs. g < 65536" "\<forall>h \<in> set hs. h < 65536"
        using segments_less [of _ a] by (auto simp: split)
      ultimately have "read_ipv6_addr (fmt_subslice gs @ ''::'' @ fmt_subslice hs) = Some (a, [])"
        using read_ipv6_compressed [of gs hs] len True split from_segments_of [of a] by simp
      then show ?thesis
        using None True span fmt_no_dot by (simp add: V6 show_ip_def show_ipv6_def gs_def hs_def parse_ipv6_text)
    next
      case False
      then show ?thesis using None span read_ipv6_groups [of "segments a"] segments_less [of _ a] fmt_no_dot
        by (simp add: V6 show_ip_def show_ipv6_def parse_ipv6_text from_segments_of)
    qed
  qed
qed

section \<open>Reading grants back\<close>

definition printable :: "string \<Rightarrow> bool" where
  "printable s \<longleftrightarrow> list_all (\<lambda>c. 0x20 < (of_char c :: nat) \<and> (of_char c :: nat) < 0x80) s"

lemma strip_printable:
  assumes "printable s" and "\<forall>w \<in> set ws. w = [] \<or> \<not> (0x20 < (of_char (hd w) :: nat) \<and> (of_char (hd w) :: nat) < 0x80)"
  shows "strip_seqs ws s = s"
proof (rule strip_seqs_id)
  have "\<not> (w \<noteq> [] \<and> take (length w) s = w)" if "w \<in> set ws" for w
  proof
    assume w: "w \<noteq> [] \<and> take (length w) s = w"
    then have "s \<noteq> []" "hd s = hd w" by (auto simp: hd_take [symmetric] simp del: hd_take) (metis hd_take length_greater_0_conv)
    then show False using assms w that by (cases s) (auto simp: printable_def)
  qed
  then show "find (\<lambda>w. w \<noteq> [] \<and> take (length w) s = w) ws = None" by (auto simp: find_None_iff)
qed

lemma trim_printable: "printable s \<Longrightarrow> trim s = s"
proof -
  assume s: "printable s"
  then have "printable (rev s)" by (simp add: printable_def)
  then have "strip_seqs (map rev ws_seqs) (rev s) = rev s" by (rule strip_printable) (simp add: ws_seqs_def)
  moreover have "strip_seqs ws_seqs s = s" using s by (rule strip_printable) (simp add: ws_seqs_def)
  ultimately show ?thesis by (simp add: trim_def trim_start_def trim_end_def)
qed

lemma printable_append [simp]: "printable (s @ t) \<longleftrightarrow> printable s \<and> printable t"
  by (simp add: printable_def)

lemma printable_digits: "\<forall>d \<in> set ds. d < 16 \<Longrightarrow> printable (map digit_char ds)"
  by (auto simp: printable_def list_all_iff of_char_digit)

lemma printable_numbers [simp]: "printable (nat_str n)" "printable (hex_str n)"
  using radix_digits_less [of 10 _ n] radix_digits_less [of 16 _ n]
  by (fastforce simp: nat_str_digits hex_str_def intro!: printable_digits)+

lemma printable_literals [simp]: "printable []" "printable (CHR ''.'' # s) = printable s" "printable (CHR '':'' # s) = printable s"
  "printable (CHR ''/'' # s) = printable s" "printable (CHR ''f'' # s) = printable s"
  by (simp_all add: printable_def)

lemma printable_groups [simp]: "printable (group_text i gs)"
  by (induction i gs rule: group_text.induct) simp_all

lemma printable_ip [simp]: "printable (show_ip ip)"
  by (auto simp: show_ip_def show_ipv6_def show_ipv4_def fmt_subslice_text split: IpAddr.split option.split prod.split)

lemma dec_chars: "c \<in> set (nat_str n) \<Longrightarrow> \<exists>d < 16. c = digit_char d"
proof -
  assume "c \<in> set (nat_str n)"
  then obtain d where "d \<in> set (radix_digits 10 n)" "c = digit_char d" by (auto simp: nat_str_digits)
  then show ?thesis using radix_digits_less [of 10 d n] by (intro exI [of _ d]) simp
qed

lemma no_slash: "CHR ''/'' \<notin> set (nat_str n)" "CHR ''/'' \<notin> set (group_text i gs)"
proof -
  show "CHR ''/'' \<notin> set (nat_str n)"
    using dec_chars [of "CHR ''/''" n] digit_char_not_sign by fastforce
  show "CHR ''/'' \<notin> set (group_text i gs)"
    using hex_no_sign(2) by (induction i gs rule: group_text.induct) auto
qed

lemma show_ip_no_slash: "CHR ''/'' \<notin> set (show_ip ip)"
  using no_slash
  by (auto simp: show_ip_def show_ipv6_def show_ipv4_def fmt_subslice_text split: IpAddr.split option.split prod.split)

lemma split_once_append: "c \<notin> set s \<Longrightarrow> split_once c (s @ c # t) = Some (s, t)"
  by (induction s) auto

lemma parse_u8_str: "n \<le> 255 \<Longrightarrow> parse_u8 (nat_str n) = Some n"
proof -
  assume n: "n \<le> 255"
  have digits: "\<forall>d \<in> set (radix_digits 10 n). d < 10" using radix_digits_less [of 10 _ n] by simp
  obtain d ds where ds: "radix_digits 10 n = d # ds" by (cases "radix_digits 10 n") auto
  have "of_char (digit_char d) \<noteq> (43 :: nat)" using of_char_digit [of d] digits by (simp add: ds)
  then have "digit_char d \<noteq> CHR ''+''" by auto
  moreover have "read_digits 10 (nat_str n) = (radix_digits 10 n, [])"
    using read_digits_chars [of 10 "[]" "radix_digits 10 n"] digits by (simp add: nat_str_digits)
  ultimately show ?thesis
    using n radix_digits_value [of 10 n] by (simp add: parse_u8_def nat_str_digits ds)
qed

lemma mask_idem: "masked addr p = Inr g \<Longrightarrow> masked (cg_network g) (cg_prefix g) = Inr g"
  by (cases addr) (auto simp: masked_Inr mask_ip_def and.assoc)

text \<open>A grant that the program has parsed prints as a text that parses to the same grant.\<close>

lemma parse_show_cidr:
  assumes "masked addr p = Inr g"
  shows "CidrGrant_parse (show_cidr g) = Inr g"
proof -
  have "cg_prefix g \<le> 255" using assms by (auto simp: masked_Inr split: if_splits)
  then have "CidrGrant_parse (show_cidr g) = masked (cg_network g) (cg_prefix g)"
    by (intro parse_slash [where x = "show_ip (cg_network g)" and p = "nat_str (cg_prefix g)"])
      (simp_all add: show_cidr_def trim_printable split_once_append show_ip_no_slash parse_u8_str parse_show_ip)
  then show ?thesis using mask_idem [OF assms] by simp
qed

lemma CidrGrant_parse_masked: "CidrGrant_parse raw = Inr g \<Longrightarrow> \<exists>addr p. masked addr p = Inr g"
  by (simp add: CidrGrant_parse_def Let_def split: if_splits option.splits prod.splits) blast+

section \<open>Network tokens of a worker\<close>

definition workerd_network_allow :: "CidrGrant list \<Rightarrow> string list" where
  "workerd_network_allow cidrs = remdups_adj (sort (''public'' # map show_cidr cidrs))"

text \<open>A worker is given \<open>public\<close> and the granted ranges, never one of the blanket tokens.\<close>

lemma workerd_network_tokens:
  "set (workerd_network_allow cidrs) = insert ''public'' (show_cidr ` set cidrs)"
  "set (workerd_network_allow cidrs) \<inter> {''private'', ''local'', ''network''} = {}"
proof -
  show tokens: "set (workerd_network_allow cidrs) = insert ''public'' (show_cidr ` set cidrs)"
    by (simp add: workerd_network_allow_def set_insort_key)
  have slash: "CHR ''/'' \<in> set (show_cidr g)" for g by (simp add: show_cidr_def)
  have "show_cidr g \<notin> {''private'', ''local'', ''network''}" for g
  proof
    assume "show_cidr g \<in> {''private'', ''local'', ''network''}"
    then have "set (show_cidr g) \<subseteq> set ''privatelocalnetwork''" by auto
    with slash [of g] show False by auto
  qed
  then have "show_cidr ` set cidrs \<inter> {''private'', ''local'', ''network''} = {}" by blast
  then show "set (workerd_network_allow cidrs) \<inter> {''private'', ''local'', ''network''} = {}"
    unfolding tokens by simp
qed

end
