(* ===== verification/Egress.thy ===== *)
theory Egress
  imports Net_Text
begin

text \<open>
  Network egress of plugins (\<^verbatim>\<open>crates/bookclerk-plugin-manifest/src/egress.rs\<close>): hostname normalization and
  matching, the policy built from the capabilities a plugin declares, its decisions on initial requests, redirects
  and raw TCP, and the connection step of the socket proxy (\<^verbatim>\<open>crates/bookclerk-workerd/src/socket_proxy.rs\<close>).
  IDNA conversion is the third-party function \<open>idna::domain_to_ascii_cow\<close>; it is the parameter \<open>idna\<close>.
\<close>

type_synonym idna = "string \<Rightarrow> string option"

section \<open>Strings of the standard library\<close>

definition to_ascii_lowercase :: "string \<Rightarrow> string" where
  "to_ascii_lowercase s =
     map (\<lambda>c. if CHR ''A'' \<le> c \<and> c \<le> CHR ''Z'' then char_of (of_char c + 32 :: nat) else c) s"

definition eq_ignore_ascii_case :: "string \<Rightarrow> string \<Rightarrow> bool" where
  "eq_ignore_ascii_case s t \<longleftrightarrow> to_ascii_lowercase s = to_ascii_lowercase t"

definition ends_with :: "string \<Rightarrow> string \<Rightarrow> bool" where
  "ends_with s t \<longleftrightarrow> length t \<le> length s \<and> drop (length s - length t) s = t"

definition strip_prefix :: "string \<Rightarrow> string \<Rightarrow> string option" where
  "strip_prefix t s = (if take (length t) s = t then Some (drop (length t) s) else None)"

text \<open>\<open>trim_end_matches('.')\<close>\<close>

definition trim_dots :: "string \<Rightarrow> string" where
  "trim_dots s = rev (dropWhile (\<lambda>c. c = CHR ''.'') (rev s))"

lemma ends_with_iff: "ends_with s t \<longleftrightarrow> (\<exists>u. s = u @ t)"
proof
  assume "ends_with s t"
  then have "s = take (length s - length t) s @ t"
    using append_take_drop_id [of "length s - length t" s] by (simp add: ends_with_def)
  then show "\<exists>u. s = u @ t" ..
qed (auto simp: ends_with_def)

lemma strip_prefix_Some [simp]: "strip_prefix t s = Some u \<longleftrightarrow> s = t @ u"
  by (auto simp: strip_prefix_def) (metis append_take_drop_id)

section \<open>Hostnames\<close>

definition is_restricted_hostname :: "string \<Rightarrow> bool" where
  "is_restricted_hostname host \<longleftrightarrow>
     (let h = to_ascii_lowercase (trim_dots (trim host))
      in h = ''localhost'' \<or> h = ''localhost.localdomain'' \<or> ends_with h ''.localhost''
         \<or> h = ''metadata.google.internal'')"

definition normalize_hostname :: "idna \<Rightarrow> string \<Rightarrow> string option" where
  "normalize_hostname idna host0 =
     (let host = trim_dots (trim host0)
      in if host = [] \<or> CHR ''%'' \<in> set host then None else idna host)"

definition normalize_domain_pattern :: "idna \<Rightarrow> string \<Rightarrow> string option" where
  "normalize_domain_pattern idna pattern0 =
     (let pattern = trim_dots (trim pattern0)
      in if pattern = [] \<or> CHR ''%'' \<in> set pattern then None
         else case strip_prefix ''*.'' pattern of
           Some rest \<Rightarrow> map_option (\<lambda>ascii. ''*.'' @ ascii) (normalize_hostname idna rest)
         | None \<Rightarrow> normalize_hostname idna pattern)"

definition host_matches_normalized :: "string \<Rightarrow> string \<Rightarrow> bool" where
  "host_matches_normalized host pattern =
     (case strip_prefix ''*.'' pattern of
        Some rest \<Rightarrow> host = rest \<or> ends_with host (''.'' @ rest)
      | None \<Rightarrow> host = pattern)"

definition host_matches :: "idna \<Rightarrow> string \<Rightarrow> string \<Rightarrow> bool" where
  "host_matches idna host pattern =
     (case (normalize_hostname idna host, normalize_domain_pattern idna pattern) of
        (Some h, Some p) \<Rightarrow> host_matches_normalized h p
      | _ \<Rightarrow> False)"

fun normalize_domains :: "idna \<Rightarrow> string list \<Rightarrow> string list \<Rightarrow> string + string list" where
  "normalize_domains idna out [] = Inr out"
| "normalize_domains idna out (d # ds) =
     (case normalize_domain_pattern idna d of
        None \<Rightarrow> Inl (''invalid network domain '' @ backquoted d @ '' (IDNA/percent-encoding)'')
      | Some n \<Rightarrow> normalize_domains idna (if n \<in> set out then out else out @ [n]) ds)"

definition normalize_domain_list :: "idna \<Rightarrow> string list \<Rightarrow> string + string list" where
  "normalize_domain_list idna = normalize_domains idna []"

section \<open>Policies\<close>

datatype NetworkMode = Deny | Outbound

record TcpCapability =
  tc_host :: string
  tc_ports :: "nat list"

record NetworkCapabilities =
  nc_mode :: NetworkMode
  nc_domains :: "string list"
  nc_tcp :: "TcpCapability list"
  nc_allow_undeclared_public_redirects :: bool
  nc_address_cidrs :: "string list"

record TcpGrant =
  tg_host :: string
  tg_ports :: "nat list"

record EgressPolicy =
  ep_mode :: NetworkMode
  ep_domains :: "string list"
  ep_max_redirects :: nat
  ep_subrequests :: "nat option"
  ep_allow_undeclared_public_redirects :: bool
  ep_tcp :: "TcpGrant list"
  ep_address_cidrs :: "string list"

definition DEFAULT_MAX_REDIRECTS :: nat where
  "DEFAULT_MAX_REDIRECTS = 10"

definition EgressPolicy_deny :: EgressPolicy where
  "EgressPolicy_deny =
     \<lparr>ep_mode = Deny, ep_domains = [], ep_max_redirects = DEFAULT_MAX_REDIRECTS, ep_subrequests = None,
      ep_allow_undeclared_public_redirects = False, ep_tcp = [], ep_address_cidrs = []\<rparr>"

fun tcp_grants :: "idna \<Rightarrow> TcpCapability list \<Rightarrow> string + TcpGrant list" where
  "tcp_grants idna [] = Inr []"
| "tcp_grants idna (t # ts) =
     (case normalize_domain_pattern idna (tc_host t) of
        None \<Rightarrow> Inl (''invalid TCP host '' @ backquoted (tc_host t))
      | Some host \<Rightarrow>
          (case tcp_grants idna ts of
             Inl err \<Rightarrow> Inl err
           | Inr gs \<Rightarrow> Inr (\<lparr>tg_host = host, tg_ports = remdups (sort (tc_ports t))\<rparr> # gs)))"

fun cidr_texts :: "string list \<Rightarrow> string + string list" where
  "cidr_texts [] = Inr []"
| "cidr_texts (raw # raws) =
     (case CidrGrant_parse raw of
        Inl err \<Rightarrow> Inl err
      | Inr g \<Rightarrow> (case cidr_texts raws of Inl err \<Rightarrow> Inl err | Inr ts \<Rightarrow> Inr (show_cidr g # ts)))"

definition try_from_network :: "idna \<Rightarrow> NetworkCapabilities \<Rightarrow> string + EgressPolicy" where
  "try_from_network idna caps =
     (case normalize_domain_list idna (nc_domains caps) of
        Inl err \<Rightarrow> Inl err
      | Inr domains \<Rightarrow>
          (case tcp_grants idna (nc_tcp caps) of
             Inl err \<Rightarrow> Inl err
           | Inr tcp \<Rightarrow>
               (case cidr_texts (nc_address_cidrs caps) of
                  Inl err \<Rightarrow> Inl err
                | Inr cidrs \<Rightarrow>
                    Inr \<lparr>ep_mode = nc_mode caps, ep_domains = domains, ep_max_redirects = DEFAULT_MAX_REDIRECTS,
                         ep_subrequests = None,
                         ep_allow_undeclared_public_redirects = nc_allow_undeclared_public_redirects caps,
                         ep_tcp = sort_key (\<lambda>t. (tg_host t, tg_ports t)) tcp, ep_address_cidrs = cidrs\<rparr>)))"

definition from_network :: "idna \<Rightarrow> NetworkCapabilities \<Rightarrow> EgressPolicy" where
  "from_network idna caps = (case try_from_network idna caps of Inr p \<Rightarrow> p | Inl err \<Rightarrow> EgressPolicy_deny)"

definition cidr_grants :: "EgressPolicy \<Rightarrow> CidrGrant list" where
  "cidr_grants p =
     List.map_filter (\<lambda>s. case CidrGrant_parse s of Inr g \<Rightarrow> Some g | Inl err \<Rightarrow> None) (ep_address_cidrs p)"

definition allows_ip :: "EgressPolicy \<Rightarrow> IpAddr \<Rightarrow> bool" where
  "allows_ip p ip \<longleftrightarrow> ep_mode p \<noteq> Deny \<and> address_allowed ip (cidr_grants p)"

definition hostname_address_ok :: "EgressPolicy \<Rightarrow> string \<Rightarrow> bool" where
  "hostname_address_ok p host =
     (if eq_ignore_ascii_case host ''localhost'' \<or> ends_with (to_ascii_lowercase host) ''.localhost''
      then allows_ip p (V4 0x7f000001) \<or> allows_ip p (V6 1)
      else True)"

definition allows_initial :: "idna \<Rightarrow> EgressPolicy \<Rightarrow> string \<Rightarrow> bool" where
  "allows_initial idna p host0 =
     (case ep_mode p of
        Deny \<Rightarrow> False
      | Outbound \<Rightarrow>
          if is_restricted_hostname host0 \<and> \<not> hostname_address_ok p host0 then False
          else case normalize_hostname idna host0 of
            None \<Rightarrow> False
          | Some host \<Rightarrow>
              if (case parse_ip host of Some ip \<Rightarrow> \<not> allows_ip p ip | None \<Rightarrow> False) then False
              else list_ex (host_matches_normalized host) (ep_domains p))"

definition allows_tcp :: "idna \<Rightarrow> EgressPolicy \<Rightarrow> string \<Rightarrow> nat \<Rightarrow> bool" where
  "allows_tcp idna p host0 port =
     (if ep_mode p = Deny then False
      else if is_restricted_hostname host0 \<and> \<not> hostname_address_ok p host0 then False
      else case normalize_hostname idna host0 of
        None \<Rightarrow> False
      | Some host \<Rightarrow>
          if (case parse_ip host of Some ip \<Rightarrow> \<not> allows_ip p ip | None \<Rightarrow> False) then False
          else list_ex (\<lambda>g. host_matches_normalized host (tg_host g) \<and> port \<in> set (tg_ports g)) (ep_tcp p))"

definition allows_redirect :: "idna \<Rightarrow> EgressPolicy \<Rightarrow> string \<Rightarrow> nat \<Rightarrow> bool" where
  "allows_redirect idna p host0 hop_index =
     (case ep_mode p of
        Deny \<Rightarrow> False
      | Outbound \<Rightarrow>
          if ep_max_redirects p \<le> hop_index then False
          else if (case parse_ip host0 of
                     Some ip \<Rightarrow> \<not> allows_ip p ip
                   | None \<Rightarrow> is_restricted_hostname host0 \<and> \<not> hostname_address_ok p host0) then False
          else if ep_allow_undeclared_public_redirects p
          then (case parse_ip host0 of Some ip \<Rightarrow> allows_ip p ip | None \<Rightarrow> \<not> is_restricted_hostname host0)
          else case normalize_hostname idna host0 of
            None \<Rightarrow> False
          | Some host \<Rightarrow> list_ex (host_matches_normalized host) (ep_domains p))"

section \<open>Manifests\<close>

datatype PluginRuntimeKind = Native | Workerd

record WorkerdLimits =
  wl_cpu_ms :: "nat option"
  wl_subrequests :: "nat option"

record EffectiveWorkerdLimits =
  el_cpu_ms :: nat
  el_subrequests :: nat

definition DEFAULT_CPU_MS :: nat where
  "DEFAULT_CPU_MS = 30000"

definition DEFAULT_SUBREQUESTS :: nat where
  "DEFAULT_SUBREQUESTS = 50"

definition MAX_CPU_MS :: nat where
  "MAX_CPU_MS = 120000"

definition MAX_SUBREQUESTS :: nat where
  "MAX_SUBREQUESTS = 1000"

definition clamp_limit :: "nat option \<Rightarrow> nat \<Rightarrow> nat \<Rightarrow> nat" where
  "clamp_limit raw preset limit =
     (case raw of None \<Rightarrow> preset | Some n \<Rightarrow> if n = 0 then preset else min n limit)"

definition effective :: "WorkerdLimits \<Rightarrow> EffectiveWorkerdLimits" where
  "effective l =
     \<lparr>el_cpu_ms = clamp_limit (wl_cpu_ms l) DEFAULT_CPU_MS MAX_CPU_MS,
      el_subrequests = clamp_limit (wl_subrequests l) DEFAULT_SUBREQUESTS MAX_SUBREQUESTS\<rparr>"

record WorkerdRuntimeManifest =
  wm_compatibility_date :: string
  wm_compatibility_flags :: "string list"
  wm_main_module :: string
  wm_modules_dir :: string
  wm_entrypoint :: string
  wm_limits :: WorkerdLimits

record ModuleSpec =
  ms_name :: string
  ms_path :: string
  ms_module_type :: string

text \<open>The fields of \<open>PluginManifest\<close> that egress reads.\<close>

record PluginManifest =
  pm_runtime :: PluginRuntimeKind
  pm_workerd :: "WorkerdRuntimeManifest option"
  pm_modules :: "ModuleSpec list"
  pm_network :: NetworkCapabilities

definition PYODIDE_EGRESS_HOSTS :: "string list" where
  "PYODIDE_EGRESS_HOSTS = [''cdn.jsdelivr.net'', ''pypi.org'', ''files.pythonhosted.org'']"

definition workerd_declares_python :: "WorkerdRuntimeManifest \<Rightarrow> bool" where
  "workerd_declares_python w \<longleftrightarrow>
     ends_with (to_ascii_lowercase (wm_main_module w)) ''.py'' \<or> ''python_workers'' \<in> set (wm_compatibility_flags w)"

definition manifest_needs_python :: "PluginManifest \<Rightarrow> bool" where
  "manifest_needs_python m \<longleftrightarrow>
     pm_runtime m = Workerd
     \<and> ((case pm_workerd m of Some w \<Rightarrow> workerd_declares_python w | None \<Rightarrow> False)
        \<or> list_ex (\<lambda>s. eq_ignore_ascii_case (ms_module_type s) ''python''
             \<or> ends_with (to_ascii_lowercase (ms_name s)) ''.py''
             \<or> ends_with (to_ascii_lowercase (ms_path s)) ''.py'') (pm_modules m))"

definition with_python_runtime_hosts :: "bool \<Rightarrow> NetworkMode \<Rightarrow> string list \<Rightarrow> string list" where
  "with_python_runtime_hosts needs_python mode base =
     (if needs_python \<and> mode = Outbound
      then fold (\<lambda>host domains. if list_ex (\<lambda>d. eq_ignore_ascii_case d host) domains then domains else domains @ [host])
             PYODIDE_EGRESS_HOSTS base
      else base)"

definition try_from_manifest :: "idna \<Rightarrow> PluginManifest \<Rightarrow> string + EgressPolicy" where
  "try_from_manifest idna m =
     (case try_from_network idna (pm_network m) of
        Inl err \<Rightarrow> Inl err
      | Inr policy \<Rightarrow>
          let policy' = policy\<lparr>ep_domains := with_python_runtime_hosts (manifest_needs_python m) (ep_mode policy) (ep_domains policy)\<rparr>
          in Inr (case pm_workerd m of
                    Some w \<Rightarrow> policy'\<lparr>ep_subrequests := Some (el_subrequests (effective (wm_limits w)))\<rparr>
                  | None \<Rightarrow> policy'))"

definition from_manifest :: "idna \<Rightarrow> PluginManifest \<Rightarrow> EgressPolicy" where
  "from_manifest idna m = (case try_from_manifest idna m of Inr p \<Rightarrow> p | Inl err \<Rightarrow> EgressPolicy_deny)"

definition consent_domains_for :: "idna \<Rightarrow> PluginManifest \<Rightarrow> string + string list" where
  "consent_domains_for idna m =
     (case normalize_domain_list idna (nc_domains (pm_network m)) of
        Inl err \<Rightarrow> Inl err
      | Inr base \<Rightarrow> Inr (with_python_runtime_hosts (manifest_needs_python m) (nc_mode (pm_network m)) base))"

section \<open>The socket proxy\<close>

text \<open>
  One CONNECT of the proxy after its handshake. The session fence is an atomic flag that the session's owner may
  raise at any time; \<open>fence k\<close> is what the \<open>k\<close>-th reading of it gives. \<open>looked_up\<close> is the answer of the resolver,
  \<open>None\<close> when it fails or the fence interrupts it, and \<open>dialled k ip\<close> whether the attempt to connect succeeds.
\<close>

datatype connect_result =
  SessionFenced
| GrantDenied
| ResolveFailed
| AddressDenied
| DialFailed
| Connected IpAddr

fun dial :: "(nat \<Rightarrow> bool) \<Rightarrow> (nat \<Rightarrow> IpAddr \<Rightarrow> bool) \<Rightarrow> nat \<Rightarrow> IpAddr list \<Rightarrow> connect_result" where
  "dial fence dialled k [] = DialFailed"
| "dial fence dialled k (dest # addrs) =
     (if fence k then SessionFenced
      else if dialled k dest then (if fence (k + 1) then SessionFenced else Connected dest)
      else dial fence dialled (k + 2) addrs)"

definition handle_connect ::
  "idna \<Rightarrow> EgressPolicy \<Rightarrow> (nat \<Rightarrow> bool) \<Rightarrow> IpAddr list option \<Rightarrow> (nat \<Rightarrow> IpAddr \<Rightarrow> bool) \<Rightarrow> string \<Rightarrow> nat \<Rightarrow> connect_result" where
  "handle_connect idna policy fence looked_up dialled host port =
     (if \<not> allows_tcp idna policy host port then GrantDenied
      else case looked_up of
        None \<Rightarrow> ResolveFailed
      | Some ips \<Rightarrow>
          let addrs = filter (allows_ip policy) ips
          in if addrs = [] then AddressDenied
             else if fence 0 then SessionFenced
             else dial fence dialled 1 (sort_key (\<lambda>ip. \<not> is_ipv4 ip) addrs))"

end
