(* ===== verification/Egress_Props.thy ===== *)
theory Egress_Props
  imports Egress
begin

text \<open>
  What a plugin can reach: exactly the hosts, ports and address ranges its capabilities declare, as the operator sees
  them when consenting. The policy stores normalized patterns and printed CIDR grants; the laws are about the
  declared capabilities, so they include that nothing is lost or gained on the way.
\<close>

section \<open>From capabilities to policies\<close>

text \<open>The addresses the capabilities admit: the public Internet and the declared ranges.\<close>

definition declared_address :: "NetworkCapabilities \<Rightarrow> IpAddr \<Rightarrow> bool" where
  "declared_address caps ip \<longleftrightarrow>
     is_public_internet ip \<or> (\<exists>raw \<in> set (nc_address_cidrs caps). \<exists>g. CidrGrant_parse raw = Inr g \<and> cidr_contains g ip)"

lemma normalize_domains_Inr:
  "normalize_domains idna out ds = Inr out' \<Longrightarrow>
     set out' = set out \<union> {n. \<exists>d \<in> set ds. normalize_domain_pattern idna d = Some n}"
  by (induction idna out ds rule: normalize_domains.induct) (auto split: option.splits if_splits)

lemma tcp_grants_Inr:
  "tcp_grants idna ts = Inr gs \<Longrightarrow>
     (\<exists>g \<in> set gs. host_matches_normalized h (tg_host g) \<and> port \<in> set (tg_ports g)) \<longleftrightarrow>
     (\<exists>t \<in> set ts. \<exists>n. normalize_domain_pattern idna (tc_host t) = Some n \<and> host_matches_normalized h n \<and> port \<in> set (tc_ports t))"
  by (induction ts arbitrary: gs) (auto split: option.splits sum.splits)

lemma cidr_texts_Inr: "cidr_texts raws = Inr ts \<Longrightarrow> \<exists>gs. map CidrGrant_parse raws = map Inr gs \<and> ts = map show_cidr gs"
proof (induction raws arbitrary: ts)
  case (Cons raw raws)
  then obtain g ts' where "CidrGrant_parse raw = Inr g" "cidr_texts raws = Inr ts'" "ts = show_cidr g # ts'"
    by (auto split: sum.splits)
  with Cons.IH [of ts'] show ?case by (metis list.simps(9))
qed simp

lemma stored_grants:
  assumes "map CidrGrant_parse raws = map Inr gs"
  shows "List.map_filter (\<lambda>s. case CidrGrant_parse s of Inr g \<Rightarrow> Some g | Inl err \<Rightarrow> None) (map show_cidr gs) = gs"
  using assms
proof (induction gs arbitrary: raws)
  case (Cons g gs)
  then obtain raw raws' where "raws = raw # raws'" "CidrGrant_parse raw = Inr g" "map CidrGrant_parse raws' = map Inr gs"
    by auto
  moreover from this(2) have "CidrGrant_parse (show_cidr g) = Inr g"
    using CidrGrant_parse_masked parse_show_cidr by blast
  ultimately show ?case using Cons.IH by (simp add: map_filter_simps)
qed (simp add: map_filter_simps)

lemma try_from_network_Inr:
  assumes "try_from_network idna caps = Inr p"
  obtains tcp gs where "ep_mode p = nc_mode caps" and "ep_max_redirects p = DEFAULT_MAX_REDIRECTS"
    and "ep_allow_undeclared_public_redirects p = nc_allow_undeclared_public_redirects caps"
    and "normalize_domain_list idna (nc_domains caps) = Inr (ep_domains p)"
    and "tcp_grants idna (nc_tcp caps) = Inr tcp" and "set (ep_tcp p) = set tcp"
    and "map CidrGrant_parse (nc_address_cidrs caps) = map Inr gs" and "cidr_grants p = gs"
proof -
  obtain domains tcp cidrs where parts: "normalize_domain_list idna (nc_domains caps) = Inr domains"
    "tcp_grants idna (nc_tcp caps) = Inr tcp" "cidr_texts (nc_address_cidrs caps) = Inr cidrs"
    using assms by (auto simp: try_from_network_def split: sum.splits)
  obtain gs where gs: "map CidrGrant_parse (nc_address_cidrs caps) = map Inr gs" "cidrs = map show_cidr gs"
    using cidr_texts_Inr [OF parts(3)] by blast
  have "cidr_grants p = gs" using assms parts gs(2) stored_grants [OF gs(1)] by (auto simp: try_from_network_def cidr_grants_def)
  then show ?thesis using assms parts gs(1) by (intro that [of tcp gs]) (auto simp: try_from_network_def)
qed

lemma allows_ip_declared:
  assumes "try_from_network idna caps = Inr p"
  shows "allows_ip p ip \<longleftrightarrow> nc_mode caps = Outbound \<and> declared_address caps ip"
proof -
  obtain gs where p: "ep_mode p = nc_mode caps" "map CidrGrant_parse (nc_address_cidrs caps) = map Inr gs" "cidr_grants p = gs"
    using assms by (rule try_from_network_Inr)
  have "Inr g \<in> set (map CidrGrant_parse (nc_address_cidrs caps)) \<longleftrightarrow> g \<in> set gs" for g
    unfolding p(2) by auto
  then have "(\<exists>raw \<in> set (nc_address_cidrs caps). CidrGrant_parse raw = Inr g) \<longleftrightarrow> g \<in> set gs" for g
    by (simp add: image_iff eq_commute)
  then have "(\<exists>raw \<in> set (nc_address_cidrs caps). \<exists>g. CidrGrant_parse raw = Inr g \<and> cidr_contains g ip)
      \<longleftrightarrow> list_ex (\<lambda>g. cidr_contains g ip) gs" unfolding list_ex_iff by blast
  then show ?thesis using p(1,3) NetworkMode.exhaust
    by (cases "nc_mode caps") (simp_all add: allows_ip_def address_allowed_def declared_address_def)
qed

lemma declared_domain:
  assumes "try_from_network idna caps = Inr p" and "normalize_hostname idna host = Some h"
  shows "list_ex (host_matches_normalized h) (ep_domains p) \<longleftrightarrow> (\<exists>pat \<in> set (nc_domains caps). host_matches idna host pat)"
proof -
  have "normalize_domain_list idna (nc_domains caps) = Inr (ep_domains p)" using assms(1) by (rule try_from_network_Inr)
  then have "set (ep_domains p) = {n. \<exists>d \<in> set (nc_domains caps). normalize_domain_pattern idna d = Some n}"
    using normalize_domains_Inr [of idna "[]"] by (simp add: normalize_domain_list_def)
  then show ?thesis using assms(2) by (auto simp: list_ex_iff host_matches_def split: option.splits)
qed

lemma no_host: "normalize_hostname idna host = None \<Longrightarrow> \<not> host_matches idna host pat"
  by (simp add: host_matches_def)

section \<open>Decisions\<close>

text \<open>The names that stand for the loopback address whichever way they resolve.\<close>

definition loopback_name :: "string \<Rightarrow> bool" where
  "loopback_name host \<longleftrightarrow> eq_ignore_ascii_case host ''localhost'' \<or> ends_with (to_ascii_lowercase host) ''.localhost''"

definition loopback_declared :: "NetworkCapabilities \<Rightarrow> bool" where
  "loopback_declared caps \<longleftrightarrow> declared_address caps (V4 0x7f000001) \<or> declared_address caps (V6 1)"

text \<open>What both kinds of requests check of a host, apart from the allowlist.\<close>

definition host_ok :: "idna \<Rightarrow> NetworkCapabilities \<Rightarrow> string \<Rightarrow> bool" where
  "host_ok idna caps host \<longleftrightarrow>
     (is_restricted_hostname host \<and> loopback_name host \<longrightarrow> loopback_declared caps)
     \<and> (\<forall>h ip. normalize_hostname idna host = Some h \<and> parse_ip h = Some ip \<longrightarrow> declared_address caps ip)"

lemma hostname_address_declared:
  assumes "try_from_network idna caps = Inr p" and "nc_mode caps = Outbound"
  shows "hostname_address_ok p host \<longleftrightarrow> (loopback_name host \<longrightarrow> loopback_declared caps)"
  using allows_ip_declared [OF assms(1)] assms(2)
  by (auto simp: hostname_address_ok_def loopback_name_def loopback_declared_def)

lemma initial_declared:
  assumes "try_from_network idna caps = Inr p"
  shows "allows_initial idna p host \<longleftrightarrow>
    nc_mode caps = Outbound \<and> host_ok idna caps host \<and> (\<exists>pat \<in> set (nc_domains caps). host_matches idna host pat)"
proof (cases "nc_mode caps")
  case Deny
  moreover have "ep_mode p = nc_mode caps" using assms by (rule try_from_network_Inr)
  ultimately show ?thesis by (simp add: allows_initial_def)
next
  case Outbound
  moreover have "ep_mode p = nc_mode caps" using assms by (rule try_from_network_Inr)
  ultimately show ?thesis
    using allows_ip_declared [OF assms] declared_domain [OF assms, of host] hostname_address_declared [OF assms, of host]
      no_host [of idna host]
    by (cases "normalize_hostname idna host") (auto simp: allows_initial_def host_ok_def split: option.splits)
qed


section \<open>An example\<close>

text \<open>IDNA conversion on ASCII names lowercases them.\<close>

definition demo_idna :: idna where
  "demo_idna s = Some (to_ascii_lowercase s)"

definition demo_caps :: NetworkCapabilities where
  "demo_caps =
     \<lparr>nc_mode = Outbound, nc_domains = [''localhost'', ''*.example.com'', ''metadata.google.internal''],
      nc_tcp = [\<lparr>tc_host = ''db.example.com'', tc_ports = [22]\<rparr>],
      nc_allow_undeclared_public_redirects = False, nc_address_cidrs = []\<rparr>"

definition demo_policy :: EgressPolicy where
  "demo_policy =
     \<lparr>ep_mode = Outbound, ep_domains = [''localhost'', ''*.example.com'', ''metadata.google.internal''],
      ep_max_redirects = DEFAULT_MAX_REDIRECTS, ep_subrequests = None, ep_allow_undeclared_public_redirects = False,
      ep_tcp = [\<lparr>tg_host = ''db.example.com'', tg_ports = [22]\<rparr>], ep_address_cidrs = []\<rparr>"

lemma demo_network: "try_from_network demo_idna demo_caps = Inr demo_policy"
  by code_simp

lemma demo_names:
  "normalize_hostname demo_idna ''API.example.com.'' = Some ''api.example.com''" "\<not> is_restricted_hostname ''API.example.com.''"
  "normalize_hostname demo_idna ''www.example.com'' = Some ''www.example.com''" "\<not> is_restricted_hostname ''www.example.com''"
  "normalize_hostname demo_idna ''db.example.com'' = Some ''db.example.com''" "\<not> is_restricted_hostname ''db.example.com''"
  by code_simp+

lemma demo_matches:
  "host_matches_normalized ''api.example.com'' ''*.example.com''" "host_matches_normalized ''www.example.com'' ''*.example.com''"
  "host_matches_normalized ''db.example.com'' ''db.example.com''"
  by code_simp+

lemma demo_no_ip: "parse_ip ''api.example.com'' = None" "parse_ip ''www.example.com'' = None" "parse_ip ''db.example.com'' = None"
  by (simp_all add: parse_ip_simps)

lemma demo_initial: "allows_initial demo_idna demo_policy ''API.example.com.''"
  by (simp add: allows_initial_def demo_policy_def demo_names demo_no_ip demo_matches)


section \<open>Redirects\<close>


lemma demo_redirect: "allows_redirect demo_idna demo_policy ''www.example.com'' 9"
  by (simp add: allows_redirect_def demo_policy_def demo_names demo_no_ip demo_matches DEFAULT_MAX_REDIRECTS_def)


text \<open>An address literal with a trailing dot is not read as an address here, so that the grant of undeclared public
  redirects admits it, although the dot does not change where a request goes.\<close>

lemma dotted_literal_redirect:
  assumes "ep_mode p = Outbound" and "ep_allow_undeclared_public_redirects p" and "hop < ep_max_redirects p"
  shows "allows_redirect idna p ''127.0.0.1.'' hop"
proof -
  have "\<not> is_restricted_hostname ''127.0.0.1.''" by code_simp
  moreover have "parse_ip ''127.0.0.1.'' = None" by (simp add: parse_ip_simps)
  ultimately show ?thesis using assms by (simp add: allows_redirect_def)
qed

section \<open>Raw connections\<close>

lemma tcp_declared:
  assumes "try_from_network idna caps = Inr p"
  shows "allows_tcp idna p host port \<longleftrightarrow>
    nc_mode caps = Outbound \<and> host_ok idna caps host
    \<and> (\<exists>t \<in> set (nc_tcp caps). host_matches idna host (tc_host t) \<and> port \<in> set (tc_ports t))"
proof -
  obtain tcp where p: "ep_mode p = nc_mode caps" "tcp_grants idna (nc_tcp caps) = Inr tcp" "set (ep_tcp p) = set tcp"
    using assms by (rule try_from_network_Inr)
  have tcp: "list_ex (\<lambda>g. host_matches_normalized h (tg_host g) \<and> port \<in> set (tg_ports g)) (ep_tcp p) \<longleftrightarrow>
      (\<exists>t \<in> set (nc_tcp caps). host_matches idna host (tc_host t) \<and> port \<in> set (tc_ports t))"
    if "normalize_hostname idna host = Some h" for h
    using tcp_grants_Inr [OF p(2), of h port] that by (auto simp: list_ex_iff p(3) host_matches_def split: option.splits)
  show ?thesis
  proof (cases "nc_mode caps")
    case Outbound
    then show ?thesis
      using allows_ip_declared [OF assms] hostname_address_declared [OF assms Outbound, of host] no_host [of idna host] tcp
      by (cases "normalize_hostname idna host") (auto simp: allows_tcp_def host_ok_def p(1) split: option.splits)
  qed (simp add: allows_tcp_def p(1))
qed

lemma dial_Connected:
  "dial fence dialled k addrs = Connected ip \<Longrightarrow> ip \<in> set addrs \<and> (\<exists>j. dialled j ip \<and> \<not> fence j \<and> \<not> fence (j + 1))"
proof (induction fence dialled k addrs rule: dial.induct)
  case (2 fence dialled k dest addrs)
  then show ?case by (cases "fence k \<or> dialled k dest") (auto split: if_splits)
qed simp

text \<open>C10: Whatever a name resolves to, the socket proxy connects only where the capabilities point: the plugin declares a TCP
  grant that covers the host and the port, the address is one the resolver returned and is public or in a declared range,
  and the session was not fenced when the connection was made.\<close>

theorem proxy_connects_within_grants:
  assumes caps: "try_from_network idna caps = Inr p"
    and conn: "handle_connect idna p fence looked_up dialled host port = Connected ip"
  shows "nc_mode caps = Outbound \<and> (\<exists>t \<in> set (nc_tcp caps). host_matches idna host (tc_host t) \<and> port \<in> set (tc_ports t))
    \<and> (\<exists>ips. looked_up = Some ips \<and> ip \<in> set ips) \<and> declared_address caps ip
    \<and> \<not> fence 0 \<and> (\<exists>k. dialled k ip \<and> \<not> fence k \<and> \<not> fence (k + 1))"
proof -
  obtain ips where tcp: "allows_tcp idna p host port" and ips: "looked_up = Some ips" "\<not> fence 0"
    and dial: "dial fence dialled 1 (sort_key (\<lambda>ip. \<not> is_ipv4 ip) (filter (allows_ip p) ips)) = Connected ip"
    using conn by (auto simp: handle_connect_def Let_def split: if_splits option.splits)
  from dial_Connected [OF dial] ips tcp show ?thesis
    using allows_ip_declared [OF caps, of ip] tcp_declared [OF caps, of host port] by auto
qed

lemma demo_connect:
  "handle_connect demo_idna demo_policy (\<lambda>_. False) (Some [V4 0x0a000001, V4 0x01010101]) (\<lambda>_ _. True) ''db.example.com'' 22
     = Connected (V4 0x01010101)"
proof -
  have "allows_tcp demo_idna demo_policy ''db.example.com'' 22"
    by (simp add: allows_tcp_def demo_policy_def demo_names demo_no_ip demo_matches)
  moreover have "allows_ip demo_policy (V4 0x01010101)" "\<not> allows_ip demo_policy (V4 0x0a000001)"
    by (simp_all add: allows_ip_def demo_policy_def cidr_grants_def map_filter_simps address_allowed_def is_public_internet_def
        canonical_ip_def is_public_v4_def octet_def v4_is_private_def v4_is_multicast_def v4_is_documentation_def is_cgnat_def
        is_benchmark_v4_def)
  ultimately show ?thesis by (simp add: handle_connect_def)
qed

theorem proxy_connects_within_grants_witness:
  "(\<exists>t \<in> set (nc_tcp demo_caps). host_matches demo_idna ''db.example.com'' (tc_host t) \<and> 22 \<in> set (tc_ports t))
   \<and> declared_address demo_caps (V4 0x01010101)"
  using proxy_connects_within_grants [OF demo_network demo_connect] by simp

section \<open>A gap in the name check\<close>

lemma restricted_names:
  "is_restricted_hostname ''localhost''" "is_restricted_hostname ''localhost.''" "is_restricted_hostname ''metadata.google.internal''"
  "loopback_name ''localhost''" "\<not> loopback_name ''localhost.''" "\<not> loopback_name ''metadata.google.internal''"
  "trim_dots (trim ''localhost'') = ''localhost''" "trim_dots (trim ''localhost.'') = ''localhost''"
  "trim_dots (trim ''metadata.google.internal'') = ''metadata.google.internal''"
  "strip_prefix ''*.'' ''localhost'' = None" "strip_prefix ''*.'' ''metadata.google.internal'' = None"
  by code_simp+

lemma name_not_ip: "parse_ip ''localhost'' = None" "parse_ip ''metadata.google.internal'' = None"
  by (simp_all add: parse_ip_simps)

text \<open>C39: The check that keeps loopback and metadata names out is by-passed. A plugin that declares the domain
  \<open>localhost\<close> without any range for the loopback address is refused \<open>localhost\<close> but allowed \<open>localhost.\<close>, because the
  trailing dot is stripped when the name is recognised as restricted but not when its address grant is looked up; and
  the metadata name, though restricted, needs no grant at all.\<close>

theorem restricted_name_check_bypassed:
  assumes caps: "try_from_network idna caps = Inr p" and out: "nc_mode caps = Outbound"
    and names: "idna ''localhost'' = Some ''localhost''" "idna ''metadata.google.internal'' = Some ''metadata.google.internal''"
    and declared: "''localhost'' \<in> set (nc_domains caps)" "''metadata.google.internal'' \<in> set (nc_domains caps)"
    and no_grant: "\<not> loopback_declared caps"
  shows "\<not> allows_initial idna p ''localhost'' \<and> allows_initial idna p ''localhost.''
    \<and> is_restricted_hostname ''metadata.google.internal'' \<and> allows_initial idna p ''metadata.google.internal''"
proof -
  have norm: "normalize_hostname idna ''localhost'' = Some ''localhost''" "normalize_hostname idna ''localhost.'' = Some ''localhost''"
    "normalize_hostname idna ''metadata.google.internal'' = Some ''metadata.google.internal''"
    using names by (simp_all add: normalize_hostname_def restricted_names)
  then have pats: "normalize_domain_pattern idna ''localhost'' = Some ''localhost''"
    "normalize_domain_pattern idna ''metadata.google.internal'' = Some ''metadata.google.internal''"
    by (simp_all add: normalize_domain_pattern_def restricted_names)
  have matches: "host_matches idna ''localhost.'' ''localhost''"
    "host_matches idna ''metadata.google.internal'' ''metadata.google.internal''"
    using norm pats by (simp_all add: host_matches_def host_matches_normalized_def restricted_names)
  have ok: "host_ok idna caps ''localhost.''" "host_ok idna caps ''metadata.google.internal''" "\<not> host_ok idna caps ''localhost''"
    using norm no_grant by (simp_all add: host_ok_def restricted_names name_not_ip)
  show ?thesis using initial_declared [OF caps] out declared matches ok restricted_names(3) by blast
qed

lemma demo_no_loopback: "\<not> loopback_declared demo_caps"
  by (simp add: loopback_declared_def declared_address_def demo_caps_def is_public_internet_def canonical_ip_def to_ipv4_mapped_def
      is_public_v4_def is_public_v6_def octet_def)

lemma demo_idna_names: "demo_idna ''localhost'' = Some ''localhost''"
  "demo_idna ''metadata.google.internal'' = Some ''metadata.google.internal''"
  by code_simp+

theorem restricted_name_check_bypassed_witness:
  "\<not> allows_initial demo_idna demo_policy ''localhost'' \<and> allows_initial demo_idna demo_policy ''localhost.''
   \<and> allows_initial demo_idna demo_policy ''metadata.google.internal''"
  using restricted_name_check_bypassed [OF demo_network _ demo_idna_names _ _ demo_no_loopback] by (simp add: demo_caps_def)

section \<open>Consent\<close>

lemma clamp_limit_range: "0 < preset \<Longrightarrow> preset \<le> limit \<Longrightarrow> 0 < clamp_limit raw preset limit \<and> clamp_limit raw preset limit \<le> limit"
  by (auto simp: clamp_limit_def split: option.split)

lemma python_hosts_set:
  "set (with_python_runtime_hosts py mode base) \<subseteq> set base \<union> (if py \<and> mode = Outbound then set PYODIDE_EGRESS_HOSTS else {})"
  by (auto simp: with_python_runtime_hosts_def PYODIDE_EGRESS_HOSTS_def split: if_splits)

text \<open>The operator consents to what is enforced. Whenever a manifest gives a policy, the domains shown for consent are
  the domains of that policy; each of them is the normalized form of a declared pattern, or one of the fixed Pyodide hosts
  of a Python plugin with outbound network; and the request budget of a worker is between one and the host's maximum.\<close>

theorem consent_shows_enforced_domains:
  assumes "try_from_manifest idna m = Inr p"
  shows "consent_domains_for idna m = Inr (ep_domains p)
    \<and> (\<forall>d \<in> set (ep_domains p).
         (\<exists>pat \<in> set (nc_domains (pm_network m)). normalize_domain_pattern idna pat = Some d)
         \<or> d \<in> set PYODIDE_EGRESS_HOSTS \<and> manifest_needs_python m \<and> nc_mode (pm_network m) = Outbound)
    \<and> (\<forall>n. ep_subrequests p = Some n \<longrightarrow> 1 \<le> n \<and> n \<le> MAX_SUBREQUESTS)"
proof -
  obtain q where q: "try_from_network idna (pm_network m) = Inr q"
    using assms by (auto simp: try_from_manifest_def split: sum.splits)
  obtain tcp gs where net: "ep_mode q = nc_mode (pm_network m)"
    "normalize_domain_list idna (nc_domains (pm_network m)) = Inr (ep_domains q)"
    using q by (rule try_from_network_Inr)
  have dom: "ep_domains p = with_python_runtime_hosts (manifest_needs_python m) (nc_mode (pm_network m)) (ep_domains q)"
    using assms q net(1) by (auto simp: try_from_manifest_def Let_def split: option.splits)
  have base: "set (ep_domains q) = {n. \<exists>d \<in> set (nc_domains (pm_network m)). normalize_domain_pattern idna d = Some n}"
    using normalize_domains_Inr [of idna "[]"] net(2) by (simp add: normalize_domain_list_def)
  have "ep_subrequests q = None" using q by (auto simp: try_from_network_def split: sum.splits)
  then have "1 \<le> n \<and> n \<le> MAX_SUBREQUESTS" if "ep_subrequests p = Some n" for n
    using assms q that clamp_limit_range [of DEFAULT_SUBREQUESTS MAX_SUBREQUESTS]
    by (auto simp: try_from_manifest_def Let_def effective_def DEFAULT_SUBREQUESTS_def MAX_SUBREQUESTS_def Suc_le_eq
        split: option.splits)
  moreover have "consent_domains_for idna m = Inr (ep_domains p)" by (simp add: consent_domains_for_def net(2) dom)
  ultimately show ?thesis
    using python_hosts_set [of "manifest_needs_python m" "nc_mode (pm_network m)" "ep_domains q"] base
    unfolding dom by (auto split: if_splits)
qed

definition demo_manifest :: PluginManifest where
  "demo_manifest =
     \<lparr>pm_runtime = Workerd,
      pm_workerd = Some \<lparr>wm_compatibility_date = ''2026-01-01'', wm_compatibility_flags = [''python_workers''],
        wm_main_module = ''main.py'', wm_modules_dir = ''modules'', wm_entrypoint = ''default'',
        wm_limits = \<lparr>wl_cpu_ms = None, wl_subrequests = Some 5\<rparr>\<rparr>,
      pm_modules = [], pm_network = demo_caps\<rparr>"

lemma demo_from_manifest:
  "try_from_manifest demo_idna demo_manifest =
     Inr (demo_policy\<lparr>ep_domains := ep_domains demo_policy @ PYODIDE_EGRESS_HOSTS, ep_subrequests := Some 5\<rparr>)"
proof -
  have hosts: "with_python_runtime_hosts (manifest_needs_python demo_manifest) Outbound (ep_domains demo_policy)
      = ep_domains demo_policy @ PYODIDE_EGRESS_HOSTS" by code_simp
  have net: "pm_network demo_manifest = demo_caps" "ep_mode demo_policy = Outbound"
    by (simp_all add: demo_manifest_def demo_policy_def)
  have worker: "\<exists>w. pm_workerd demo_manifest = Some w \<and> el_subrequests (effective (wm_limits w)) = 5"
    by (simp add: demo_manifest_def effective_def clamp_limit_def MAX_SUBREQUESTS_def)
  show ?thesis using hosts worker by (auto simp: try_from_manifest_def net demo_network)
qed

theorem consent_shows_enforced_domains_witness:
  "consent_domains_for demo_idna demo_manifest = Inr (ep_domains demo_policy @ PYODIDE_EGRESS_HOSTS)"
  using consent_shows_enforced_domains [OF demo_from_manifest] by simp

end
