(* ===== verification/Mp4_Bytes.thy ===== *)
theory Mp4_Bytes
  imports Rust_Std
begin

text \<open>
  Byte buffers of the MP4 crate (\<^verbatim>\<open>crates/bookclerk-mp4\<close>): a byte is a \<open>char\<close>, a buffer a list of bytes. Slices,
  \<open>copy_from_slice\<close>, big-endian integers, and the crate's error type without its message texts. Offsets into buffers in
  memory are natural numbers: such a buffer is far shorter than \<open>usize::MAX\<close>.
\<close>

named_theorems byte_simps \<open>rewrites for slices and big-endian integers\<close>

type_synonym bytes = "char list"

datatype Mp4Error = Container | Transform | NoRoom nat nat | Io

section \<open>Slices\<close>

definition slice :: "bytes \<Rightarrow> nat \<Rightarrow> nat \<Rightarrow> bytes" where
  "slice buf a b = take (b - a) (drop a buf)"

definition put :: "bytes \<Rightarrow> nat \<Rightarrow> bytes \<Rightarrow> bytes" where
  "put buf pos bs = take pos buf @ bs @ drop (pos + length bs) buf"

lemma length_slice [byte_simps]: "b \<le> length buf \<Longrightarrow> length (slice buf a b) = b - a"
  by (simp add: slice_def)

lemma length_put [byte_simps]: "pos + length bs \<le> length buf \<Longrightarrow> length (put buf pos bs) = length buf"
  by (simp add: put_def)

lemma nth_put:
  assumes "pos + length bs \<le> length buf" and "i < length buf"
  shows "put buf pos bs ! i = (if pos \<le> i \<and> i < pos + length bs then bs ! (i - pos) else buf ! i)"
  using assms by (auto simp: put_def nth_append)

lemma slice_eqI:
  assumes "length buf' = length buf" and "\<And>i. a \<le> i \<Longrightarrow> i < b \<Longrightarrow> i < length buf \<Longrightarrow> buf' ! i = buf ! i"
  shows "slice buf' a b = slice buf a b"
  using assms by (intro nth_equalityI) (auto simp: slice_def)

lemma slice_put [byte_simps]:
  "pos + length bs \<le> length buf \<Longrightarrow> b = pos + length bs \<Longrightarrow> slice (put buf pos bs) pos b = bs"
  by (simp add: slice_def put_def)

lemma slice_put_other:
  assumes "pos + length bs \<le> length buf" and "b \<le> pos \<or> pos + length bs \<le> a"
  shows "slice (put buf pos bs) a b = slice buf a b"
  by (rule slice_eqI) (use assms in \<open>auto simp: nth_put byte_simps\<close>)

lemma slice_append1: "b \<le> length xs \<Longrightarrow> slice (xs @ ys) a b = slice xs a b"
  by (cases "a \<le> length xs") (simp_all add: slice_def)

lemma put_slice [byte_simps]: "a \<le> b \<Longrightarrow> b \<le> length buf \<Longrightarrow> put buf a (slice buf a b) = buf"
  by (rule nth_equalityI) (auto simp: nth_put byte_simps slice_def)

section \<open>Big-endian integers\<close>

definition from_be :: "bytes \<Rightarrow> nat" where
  "from_be bs = foldl (\<lambda>n c. n * 256 + of_char c) 0 bs"

fun to_be :: "nat \<Rightarrow> nat \<Rightarrow> bytes" where
  "to_be 0 n = []"
| "to_be (Suc k) n = to_be k (n div 256) @ [char_of n]"

lemma length_to_be [simp]: "length (to_be k n) = k"
  by (induction k arbitrary: n) simp_all

lemma from_be_snoc: "from_be (bs @ [c]) = from_be bs * 256 + of_char c"
  by (simp add: from_be_def)

lemma from_be_to_be [byte_simps]: "from_be (to_be k n) = n mod 256 ^ k"
proof (induction k arbitrary: n)
  case (Suc k)
  have "n mod 256 ^ Suc k = (n div 256) mod 256 ^ k * 256 + n mod 256"
    by (simp add: mod_mult2_eq [of n 256 "256 ^ k"])
  with Suc show ?case by (simp add: from_be_snoc)
qed (simp add: from_be_def)

lemma from_be_less: "from_be bs < 256 ^ length bs"
proof (induction bs rule: rev_induct)
  case (snoc c bs)
  have "of_char c < (256 :: nat)" by simp
  with snoc have "from_be bs * 256 + of_char c < (from_be bs + 1) * 256" by simp
  also have "\<dots> \<le> 256 ^ length bs * 256" using snoc by (intro mult_le_mono1) simp
  finally show ?case by (simp add: from_be_snoc mult.commute)
qed (simp add: from_be_def)

lemma to_be_from_be [byte_simps]: "length bs = k \<Longrightarrow> to_be k (from_be bs) = bs"
proof (induction bs arbitrary: k rule: rev_induct)
  case (snoc c bs)
  have "of_char c < (256 :: nat)" by simp
  then have "(from_be bs * 256 + of_char c) div 256 = from_be bs" by simp
  moreover have "char_of (from_be bs * 256 + of_char c) = c"
    using \<open>of_char c < (256 :: nat)\<close> by (simp add: char_of_eq_iff take_bit_eq_mod)
  ultimately show ?case using snoc by (auto simp: from_be_snoc)
qed (simp add: from_be_def)

lemma from_be_inject: "length bs = length cs \<Longrightarrow> from_be bs = from_be cs \<Longrightarrow> bs = cs"
  by (metis to_be_from_be)

definition be_at :: "nat \<Rightarrow> bytes \<Rightarrow> nat \<Rightarrow> nat" where
  "be_at k buf pos = from_be (slice buf pos (pos + k))"

lemma be_at_less: "be_at k buf pos < 256 ^ k"
proof -
  have "be_at k buf pos < 256 ^ length (slice buf pos (pos + k))" unfolding be_at_def by (rule from_be_less)
  also have "\<dots> \<le> 256 ^ k" by (intro power_increasing) (simp_all add: slice_def)
  finally show ?thesis .
qed

lemma be_at_put [byte_simps]: "pos + k \<le> length buf \<Longrightarrow> be_at k (put buf pos (to_be k n)) pos = n mod 256 ^ k"
  by (simp add: be_at_def byte_simps)

lemma be_at_put_other:
  assumes "pos + length bs \<le> length buf" and "p + k \<le> pos \<or> pos + length bs \<le> p"
  shows "be_at k (put buf pos bs) p = be_at k buf p"
  using assms by (simp add: be_at_def slice_put_other)

lemma be_at_eqI:
  assumes "length buf' = length buf" and "\<And>i. pos \<le> i \<Longrightarrow> i < pos + k \<Longrightarrow> i < length buf \<Longrightarrow> buf' ! i = buf ! i"
  shows "be_at k buf' pos = be_at k buf pos"
  unfolding be_at_def using assms by (intro arg_cong [of _ _ from_be] slice_eqI) auto

lemma be_at_inject:
  assumes "be_at k buf' pos = be_at k buf pos" and "pos + k \<le> length buf" and "length buf' = length buf"
    and "pos \<le> i" and "i < pos + k"
  shows "buf' ! i = buf ! i"
proof -
  have "slice buf' pos (pos + k) = slice buf pos (pos + k)"
    by (rule from_be_inject) (use assms in \<open>simp_all add: be_at_def byte_simps\<close>)
  then have "slice buf' pos (pos + k) ! (i - pos) = slice buf pos (pos + k) ! (i - pos)" by simp
  with assms show ?thesis by (simp add: slice_def)
qed

end
