(* ===== verification/Mp4_Moov.thy ===== *)
theory Mp4_Moov
  imports Mp4_Bytes
begin

text \<open>
  Replacing the \<open>moov\<close> box of a file without moving its media (\<^verbatim>\<open>crates/bookclerk-mp4/src/patch.rs\<close>): the slack at the end
  of \<open>moov\<close>, the chunk offsets inside it, and the write in place. A file is the list of its bytes.
\<close>

definition FREE_BOX_LEN :: nat where
  "FREE_BOX_LEN = 8"

record MoovLocation =
  ml_start :: nat
  ml_len :: nat
  ml_is_last :: bool

section \<open>The slack\<close>

definition set_box_len :: "bytes \<Rightarrow> Mp4Error + bytes" where
  "set_box_len buf =
     (if U32_MAX < length buf then Inl Container
      else if length buf < 4 then Inl Container
      else Inr (put buf 0 (to_be 4 (length buf))))"

function last_child_loop :: "bytes \<Rightarrow> nat \<Rightarrow> (nat \<times> bytes) option \<Rightarrow> (nat \<times> bytes) option" where
  "last_child_loop buf pos prev =
     (if pos + 8 \<le> length buf then
        let size = be_at 4 buf pos
        in if size < 8 \<or> length buf < pos + size then prev
           else last_child_loop buf (pos + size) (Some (pos, slice buf (pos + 4) (pos + 8)))
      else prev)"
  by pat_completeness auto
termination
  by (relation "measure (\<lambda>(buf, pos, prev). length buf - pos)") auto

declare last_child_loop.simps [simp del]

definition last_child_range :: "bytes \<Rightarrow> Mp4Error + (nat \<times> bytes) option" where
  "last_child_range buf = (if length buf < 8 then Inl Container else Inr (last_child_loop buf 8 None))"

text \<open>The flag says whether slack was removed; the buffer is the one the caller holds afterwards.\<close>

definition strip_trailing_free :: "bytes \<Rightarrow> Mp4Error + bool \<times> bytes" where
  "strip_trailing_free moov =
     (case last_child_range moov of
        Inl err \<Rightarrow> Inl err
      | Inr None \<Rightarrow> Inr (False, moov)
      | Inr (Some (start, kind)) \<Rightarrow>
          if kind \<noteq> ''free'' \<and> kind \<noteq> ''skip'' then Inr (False, moov)
          else (case set_box_len (take start moov) of Inl err \<Rightarrow> Inl err | Inr moov' \<Rightarrow> Inr (True, moov')))"

definition pad_moov_to :: "bytes \<Rightarrow> nat \<Rightarrow> Mp4Error + bytes" where
  "pad_moov_to moov total_len =
     (if length moov = total_len then Inr moov
      else if U32_MAX < total_len then Inl (NoRoom (length moov) total_len)
      else if total_len < length moov \<or> total_len - length moov < FREE_BOX_LEN then Inl (NoRoom (length moov) total_len)
      else let gap = total_len - length moov
           in set_box_len (moov @ to_be 4 gap @ ''free'' @ replicate (gap - 8) (CHR 0x00)))"

section \<open>Chunk offsets\<close>

definition OFFSET_ANCESTORS :: "bytes list" where
  "OFFSET_ANCESTORS = [''moov'', ''trak'', ''mdia'', ''minf'', ''stbl'']"

function collect_chunk_offset_boxes :: "bytes \<Rightarrow> nat \<Rightarrow> nat \<Rightarrow> (nat \<times> nat \<times> bool) list" where
  "collect_chunk_offset_boxes buf pos end =
     (if pos + 8 \<le> end then
        let size = be_at 4 buf pos
        in if size < 8 \<or> end < pos + size then []
           else let kind = slice buf (pos + 4) (pos + 8)
                in (if kind = ''stco'' then [(pos, pos + size, False)]
                    else if kind = ''co64'' then [(pos, pos + size, True)]
                    else if kind \<in> set OFFSET_ANCESTORS then collect_chunk_offset_boxes buf (pos + 8) (pos + size)
                    else [])
                   @ collect_chunk_offset_boxes buf (pos + size) end
      else [])"
  by pat_completeness auto
termination
  by (relation "measure (\<lambda>(buf, pos, end). end - pos)") auto

declare collect_chunk_offset_boxes.simps [simp del]

text \<open>One entry: \<open>None\<close> when the moved offset leaves \<open>i64\<close> or \<open>u64\<close>, or a 32-bit entry leaves \<open>u32\<close>.\<close>

definition moved_offset :: "bool \<Rightarrow> nat \<Rightarrow> int \<Rightarrow> nat \<Rightarrow> nat option" where
  "moved_offset wide limit delta old =
     (if old \<le> limit then Some old
      else if I64_MAX < old \<or> int I64_MAX < int old + delta \<or> int old + delta < 0 then None
      else if \<not> wide \<and> int U32_MAX < int old + delta then None
      else Some (nat (int old + delta)))"

definition stride :: "bool \<Rightarrow> nat" where
  "stride wide = (if wide then 8 else 4)"

function shift_table :: "bool \<Rightarrow> nat \<Rightarrow> int \<Rightarrow> bytes \<Rightarrow> nat \<Rightarrow> nat \<Rightarrow> Mp4Error + bytes" where
  "shift_table wide limit delta moov pos end =
     (if pos + stride wide \<le> end then
        let old = be_at (stride wide) moov pos
        in if old \<le> limit then shift_table wide limit delta moov (pos + stride wide) end
           else (case moved_offset wide limit delta old of
                   None \<Rightarrow> Inl Container
                 | Some new \<Rightarrow>
                     shift_table wide limit delta (put moov pos (to_be (stride wide) new)) (pos + stride wide) end)
      else Inr moov)"
  by pat_completeness auto
termination
  by (relation "measure (\<lambda>(wide, limit, delta, moov, pos, end). end - pos)") (auto simp: stride_def)

declare shift_table.simps [simp del]

fun shift_tables :: "nat \<Rightarrow> int \<Rightarrow> bytes \<Rightarrow> (nat \<times> nat \<times> bool) list \<Rightarrow> Mp4Error + bytes" where
  "shift_tables limit delta moov [] = Inr moov"
| "shift_tables limit delta moov ((start, end, wide) # boxes) =
     (case shift_table wide limit delta moov (start + 16) end of
        Inl err \<Rightarrow> Inl err
      | Inr moov' \<Rightarrow> shift_tables limit delta moov' boxes)"

definition shift_chunk_offsets :: "bytes \<Rightarrow> nat \<Rightarrow> int \<Rightarrow> Mp4Error + bytes" where
  "shift_chunk_offsets moov limit delta =
     (if delta = 0 then Inr moov
      else shift_tables limit delta moov (collect_chunk_offset_boxes moov 0 (length moov)))"

section \<open>Writing in place\<close>

text \<open>A seek followed by \<open>write_all\<close>, and \<open>set_len\<close>: a hole past the end of a file reads as zeros.\<close>

definition write_at :: "bytes \<Rightarrow> nat \<Rightarrow> bytes \<Rightarrow> bytes" where
  "write_at file pos bs = put (file @ replicate (pos - length file) (CHR 0x00)) pos bs"

definition set_len :: "bytes \<Rightarrow> nat \<Rightarrow> bytes" where
  "set_len file n = take n file @ replicate (n - length file) (CHR 0x00)"

definition write_moov_in_place :: "bytes \<Rightarrow> MoovLocation \<Rightarrow> bytes \<Rightarrow> Mp4Error + bytes" where
  "write_moov_in_place file at moov =
     (case (if length moov = ml_len at \<or> ml_is_last at then Inr moov else pad_moov_to moov (ml_len at)) of
        Inl err \<Rightarrow> Inl err
      | Inr bs \<Rightarrow>
          let file' = write_at file (ml_start at) bs
          in Inr (if ml_is_last at then set_len file' (ml_start at + length bs) else file'))"

section \<open>Slack comes off as it went on\<close>

text \<open>A \<open>moov\<close> whose size field is its length and whose children fill it.\<close>

function tiled :: "bytes \<Rightarrow> nat \<Rightarrow> bool" where
  "tiled buf pos =
     (if pos + 8 \<le> length buf
      then (if be_at 4 buf pos < 8 \<or> length buf < pos + be_at 4 buf pos then False else tiled buf (pos + be_at 4 buf pos))
      else pos = length buf)"
  by pat_completeness auto
termination
  by (relation "measure (\<lambda>(buf, pos). length buf - pos)") auto

declare tiled.simps [simp del]

definition moov_ok :: "bytes \<Rightarrow> bool" where
  "moov_ok moov \<longleftrightarrow> 8 \<le> length moov \<and> be_at 4 moov 0 = length moov \<and> tiled moov 8"

lemma set_box_len_Inr:
  "set_box_len buf = Inr buf' \<longleftrightarrow> 4 \<le> length buf \<and> length buf \<le> U32_MAX \<and> buf' = put buf 0 (to_be 4 (length buf))"
  by (auto simp: set_box_len_def)

lemma be_at_append: "pos + k \<le> length xs \<Longrightarrow> be_at k (xs @ ys) pos = be_at k xs pos"
  by (simp add: be_at_def slice_append1)

lemma set_len_same: "be_at 4 buf 0 = length buf \<Longrightarrow> 4 \<le> length buf \<Longrightarrow> put buf 0 (to_be 4 (length buf)) = buf"
  using to_be_from_be [of "slice buf 0 4" 4] put_slice [of 0 4 buf] by (simp add: be_at_def byte_simps)

text \<open>Walking the children of an extended \<open>moov\<close> reaches the appended box.\<close>

lemma last_child_extended:
  assumes "tiled buf pos" and "pos \<le> length buf" and "length bs = n" and "8 \<le> n" and "be_at 4 bs 0 = n"
  shows "last_child_loop (buf @ bs) pos prev = Some (length buf, slice bs 4 8)"
  using assms
proof (induction buf pos arbitrary: prev rule: tiled.induct)
  case (1 buf pos)
  show ?case
  proof (cases "pos + 8 \<le> length buf")
    case True
    with "1.prems"(1) have step: "8 \<le> be_at 4 buf pos" "pos + be_at 4 buf pos \<le> length buf" "tiled buf (pos + be_at 4 buf pos)"
      by (auto simp: tiled.simps [of buf pos] split: if_splits)
    have "be_at 4 (buf @ bs) pos = be_at 4 buf pos" using True by (simp add: be_at_append)
    then show ?thesis
      using step True "1.IH" [OF True _ step(3) step(2) "1.prems"(3-5)]
      by (subst last_child_loop.simps) simp
  next
    case False
    with "1.prems"(1) have pos: "pos = length buf" by (simp add: tiled.simps [of buf pos])
    have "be_at 4 (buf @ bs) pos = n" "slice (buf @ bs) (pos + 4) (pos + 8) = slice bs 4 8"
      using "1.prems"(5) by (simp_all add: pos be_at_def slice_def)
    moreover have "last_child_loop (buf @ bs) (pos + n) l = l" for l
      using "1.prems"(3) by (simp add: pos last_child_loop.simps [of _ "length buf + n"])
    ultimately show ?thesis
      using "1.prems"(3,4) by (subst last_child_loop.simps) (simp add: pos)
  qed
qed

lemma tiled_extended:
  assumes "tiled buf pos" and "pos \<le> length buf" and "length bs = n" and "8 \<le> n" and "be_at 4 bs 0 = n"
  shows "tiled (buf @ bs) pos"
  using assms
proof (induction buf pos rule: tiled.induct)
  case (1 buf pos)
  show ?case
  proof (cases "pos + 8 \<le> length buf")
    case True
    with "1.prems"(1) have step: "8 \<le> be_at 4 buf pos" "pos + be_at 4 buf pos \<le> length buf" "tiled buf (pos + be_at 4 buf pos)"
      by (auto simp: tiled.simps [of buf pos] split: if_splits)
    have "be_at 4 (buf @ bs) pos = be_at 4 buf pos" using True by (simp add: be_at_append)
    then show ?thesis
      using step True "1.IH" [OF True _ step(3) step(2) "1.prems"(3-5)] by (subst tiled.simps) simp
  next
    case False
    with "1.prems"(1) have pos: "pos = length buf" by (simp add: tiled.simps [of buf pos])
    have "be_at 4 (buf @ bs) pos = n" using "1.prems"(5) by (simp add: pos be_at_def slice_def)
    moreover have "tiled (buf @ bs) (pos + n)" using "1.prems"(3) by (simp add: pos tiled.simps [of _ "length buf + n"])
    ultimately show ?thesis using "1.prems"(3,4) by (subst tiled.simps) (simp add: pos)
  qed
qed

lemma tiled_cong:
  assumes "length buf' = length buf" and "\<And>i. pos \<le> i \<Longrightarrow> i < length buf \<Longrightarrow> buf' ! i = buf ! i"
  shows "tiled buf' pos = tiled buf pos"
  using assms
proof (induction buf pos rule: tiled.induct)
  case (1 buf pos)
  have same: "be_at 4 buf' pos = be_at 4 buf pos" by (rule be_at_eqI) (use "1.prems" in simp_all)
  show ?case
  proof (cases "pos + 8 \<le> length buf \<and> \<not> (be_at 4 buf pos < 8 \<or> length buf < pos + be_at 4 buf pos)")
    case True
    then have "tiled buf' (pos + be_at 4 buf pos) = tiled buf (pos + be_at 4 buf pos)"
      by (intro "1.IH") (use "1.prems" in simp_all)
    then show ?thesis using "1.prems"(1) by (simp add: tiled.simps [of _ pos] same)
  next
    case False
    then show ?thesis using "1.prems"(1) by (auto simp: tiled.simps [of _ pos] same)
  qed
qed

lemma pad_moov_to_Inr:
  assumes "pad_moov_to moov n = Inr padded" and "length moov \<noteq> n" and "4 \<le> length moov"
  shows "length moov + 8 \<le> n" and "n \<le> U32_MAX"
    and "padded = put moov 0 (to_be 4 n) @ to_be 4 (n - length moov) @ ''free'' @ replicate (n - length moov - 8) (CHR 0x00)"
proof -
  show gap: "length moov + 8 \<le> n" "n \<le> U32_MAX"
    using assms(1,2) by (auto simp: pad_moov_to_def FREE_BOX_LEN_def split: if_splits)
  define tail where "tail = to_be 4 (n - length moov) @ ''free'' @ replicate (n - length moov - 8) (CHR 0x00)"
  have "length (moov @ tail) = n" using gap by (simp add: tail_def)
  moreover have "set_box_len (moov @ tail) = Inr padded"
    using assms gap by (auto simp: pad_moov_to_def FREE_BOX_LEN_def tail_def Let_def split: if_splits)
  ultimately show "padded = put moov 0 (to_be 4 n) @ to_be 4 (n - length moov) @ ''free'' @ replicate (n - length moov - 8) (CHR 0x00)"
    using assms(3) unfolding tail_def [symmetric] by (auto simp: set_box_len_Inr put_def)
qed

lemma put_put: "length bs = length cs \<Longrightarrow> pos + length bs \<le> length buf \<Longrightarrow> put (put buf pos bs) pos cs = put buf pos cs"
  by (simp add: put_def)

text \<open>Slack comes off as it went on. Padding a well-formed \<open>moov\<close> to a length gives a well-formed \<open>moov\<close> of exactly that
  length, and stripping the slack from it gives back the original bytes.\<close>

lemma slack_round_trip:
  assumes "moov_ok moov" and "length moov \<noteq> n" and "pad_moov_to moov n = Inr padded"
  shows "length padded = n \<and> moov_ok padded \<and> strip_trailing_free padded = Inr (True, moov)"
proof -
  define moov1 where "moov1 = put moov 0 (to_be 4 n)"
  define bs where "bs = to_be 4 (n - length moov) @ ''free'' @ replicate (n - length moov - 8) (CHR 0x00)"
  have len: "8 \<le> length moov" and field: "be_at 4 moov 0 = length moov" and tiles: "tiled moov 8"
    using assms(1) by (simp_all add: moov_ok_def)
  have gap: "length moov + 8 \<le> n" "n \<le> U32_MAX" and padded: "padded = moov1 @ bs"
    using pad_moov_to_Inr [OF assms(3,2)] len by (simp_all add: moov1_def bs_def)
  have len1: "length moov1 = length moov" using len by (simp add: moov1_def byte_simps)
  have bs: "length bs = n - length moov" "be_at 4 bs 0 = n - length moov" "slice bs 4 8 = ''free''"
    using gap by (auto simp: bs_def be_at_def slice_def byte_simps U32_MAX_def)
  have tiles1: "tiled moov1 8"
    using tiles by (subst tiled_cong [of _ moov]) (use len in \<open>auto simp: moov1_def nth_put byte_simps\<close>)
  have size: "be_at 4 padded 0 = n"
    using len gap by (simp add: padded be_at_append len1) (simp add: moov1_def byte_simps U32_MAX_def)
  have "tiled padded 8" and "last_child_loop padded 8 None = Some (length moov, ''free'')"
    unfolding padded using tiled_extended [OF tiles1 _ bs(1)] last_child_extended [OF tiles1 _ bs(1)] bs gap len len1 by simp_all
  moreover have "set_box_len moov1 = Inr moov"
    using set_len_same [OF field] len len1 gap by (simp add: set_box_len_Inr moov1_def put_put)
  ultimately show ?thesis
    using size len len1 bs(1) gap by (simp add: moov_ok_def strip_trailing_free_def last_child_range_def padded)
qed

section \<open>The write keeps the media in place\<close>

lemma pad_moov_to_fails: "8 \<le> length moov \<Longrightarrow> pad_moov_to moov n = Inl err \<Longrightarrow>
   err = NoRoom (length moov) n \<and> length moov \<noteq> n \<and> (n < length moov + 8 \<or> U32_MAX < n)"
  by (auto simp: pad_moov_to_def FREE_BOX_LEN_def Let_def set_box_len_def split: if_splits)

lemma write_at_inside: "pos + length bs \<le> length file \<Longrightarrow> write_at file pos bs = put file pos bs"
  by (simp add: write_at_def)

text \<open>C14: Swapping \<open>moov\<close> does not move the media. Writing a well-formed \<open>moov\<close> over one that other boxes follow either
  changes nothing and reports the missing room, and then the new \<open>moov\<close> really does not fit, or it leaves every byte
  outside the old \<open>moov\<close> where it was and puts a well-formed \<open>moov\<close> in its place, from which the new one can be read
  back.\<close>

theorem moov_swap_keeps_media:
  assumes "moov_ok moov" and "ml_start at + ml_len at \<le> length file" and "\<not> ml_is_last at"
  shows "case write_moov_in_place file at moov of
      Inl err \<Rightarrow> err = NoRoom (length moov) (ml_len at) \<and> length moov \<noteq> ml_len at
        \<and> (ml_len at < length moov + FREE_BOX_LEN \<or> U32_MAX < ml_len at)
    | Inr file' \<Rightarrow> length file' = length file \<and> take (ml_start at) file' = take (ml_start at) file
        \<and> drop (ml_start at + ml_len at) file' = drop (ml_start at + ml_len at) file
        \<and> (let written = slice file' (ml_start at) (ml_start at + ml_len at)
           in moov_ok written \<and> (written = moov \<or> strip_trailing_free written = Inr (True, moov)))"
proof -
  have len: "8 \<le> length moov" using assms(1) by (simp add: moov_ok_def)
  have placed: "length (put file p bs) = length file \<and> take p (put file p bs) = take p file
      \<and> drop (p + length bs) (put file p bs) = drop (p + length bs) file \<and> slice (put file p bs) p (p + length bs) = bs"
    if "p + length bs \<le> length file" for p bs using that by (simp add: put_def slice_def)
  show ?thesis
  proof (cases "length moov = ml_len at")
    case True
    then show ?thesis
      using placed [of "ml_start at" moov] assms by (simp add: write_moov_in_place_def Let_def write_at_inside)
  next
    case False
    show ?thesis
    proof (cases "pad_moov_to moov (ml_len at)")
      case (Inl err)
      then show ?thesis
        using pad_moov_to_fails [OF len Inl] False assms(3) by (simp add: write_moov_in_place_def FREE_BOX_LEN_def)
    next
      case (Inr padded)
      then show ?thesis
        using slack_round_trip [OF assms(1) False Inr] placed [of "ml_start at" padded] False assms(2,3)
        by (simp add: write_moov_in_place_def Let_def write_at_inside)
    qed
  qed
qed

definition demo_moov :: bytes where
  "demo_moov = to_be 4 16 @ ''moov'' @ to_be 4 8 @ ''udta''"

lemma demo_moov_ok: "moov_ok demo_moov"
  by code_simp

theorem moov_swap_keeps_media_witness:
  "case write_moov_in_place (''ftyp'' @ replicate 24 (CHR 0x00) @ ''media'')
      \<lparr>ml_start = 4, ml_len = 24, ml_is_last = False\<rparr> demo_moov of
      Inl err \<Rightarrow> False
    | Inr file' \<Rightarrow> take 4 file' = ''ftyp'' \<and> drop 28 file' = ''media''"
proof -
  have "write_moov_in_place (''ftyp'' @ replicate 24 (CHR 0x00) @ ''media'') \<lparr>ml_start = 4, ml_len = 24, ml_is_last = False\<rparr> demo_moov
      \<noteq> Inl (NoRoom (length demo_moov) 24)"
    by (simp add: write_moov_in_place_def pad_moov_to_def demo_moov_def FREE_BOX_LEN_def U32_MAX_def set_box_len_def Let_def)
  then show ?thesis
    using moov_swap_keeps_media [OF demo_moov_ok, of "\<lparr>ml_start = 4, ml_len = 24, ml_is_last = False\<rparr>"
        "''ftyp'' @ replicate 24 (CHR 0x00) @ ''media''"]
    by (auto split: sum.splits)
qed

end
