(* ===== verification/Mp4_Offsets.thy ===== *)
theory Mp4_Offsets
  imports Mp4_Moov
begin

text \<open>
  What \<open>shift_chunk_offsets\<close> does to a \<open>moov\<close>: it moves the entries of the chunk offset tables and nothing else, it fails
  only when an entry cannot be moved, and moving back undoes it.
\<close>

section \<open>The entries of the tables\<close>

function table_positions :: "bool \<Rightarrow> nat \<Rightarrow> nat \<Rightarrow> (nat \<times> bool) list" where
  "table_positions wide pos end = (if pos + stride wide \<le> end then (pos, wide) # table_positions wide (pos + stride wide) end else [])"
  by pat_completeness auto
termination
  by (relation "measure (\<lambda>(wide, pos, end). end - pos)") (auto simp: stride_def)

declare table_positions.simps [simp del]

definition entry_positions :: "(nat \<times> nat \<times> bool) list \<Rightarrow> (nat \<times> bool) list" where
  "entry_positions boxes = concat (map (\<lambda>(start, end, wide). table_positions wide (start + 16) end) boxes)"

definition entry_at :: "bytes \<Rightarrow> nat \<times> bool \<Rightarrow> nat" where
  "entry_at buf = (\<lambda>(pos, wide). be_at (stride wide) buf pos)"

definition covered_by :: "(nat \<times> bool) list \<Rightarrow> nat \<Rightarrow> bool" where
  "covered_by es i \<longleftrightarrow> list_ex (\<lambda>(pos, wide). pos \<le> i \<and> i < pos + stride wide) es"

definition apart :: "(nat \<times> bool) list \<Rightarrow> bool" where
  "apart es = sorted_wrt (\<lambda>(p, w) (q, v). p + stride w \<le> q) es"

text \<open>The offsets of a \<open>moov\<close>, in the order of its tables.\<close>

definition chunk_offset_entries :: "bytes \<Rightarrow> (nat \<times> bool) list" where
  "chunk_offset_entries moov = entry_positions (collect_chunk_offset_boxes moov 0 (length moov))"

definition chunk_offsets_of :: "bytes \<Rightarrow> nat list" where
  "chunk_offsets_of moov = map (entry_at moov) (chunk_offset_entries moov)"

section \<open>Shifting entry by entry\<close>

fun shift_entries :: "nat \<Rightarrow> int \<Rightarrow> bytes \<Rightarrow> (nat \<times> bool) list \<Rightarrow> Mp4Error + bytes" where
  "shift_entries limit delta buf [] = Inr buf"
| "shift_entries limit delta buf ((pos, wide) # es) =
     (case moved_offset wide limit delta (be_at (stride wide) buf pos) of
        None \<Rightarrow> Inl Container
      | Some new \<Rightarrow> shift_entries limit delta (put buf pos (to_be (stride wide) new)) es)"

lemma put_same: "pos + k \<le> length buf \<Longrightarrow> put buf pos (to_be k (be_at k buf pos)) = buf"
  using to_be_from_be [of "slice buf pos (pos + k)" k] put_slice [of pos "pos + k" buf]
  by (simp add: be_at_def byte_simps)

lemma shift_entries_append:
  "shift_entries limit delta buf (es @ fs) =
     (case shift_entries limit delta buf es of Inl err \<Rightarrow> Inl err | Inr buf' \<Rightarrow> shift_entries limit delta buf' fs)"
  by (induction limit delta buf es rule: shift_entries.induct) (auto split: option.split)

lemma shift_table_entries:
  "end \<le> length moov \<Longrightarrow> shift_table wide limit delta moov pos end = shift_entries limit delta moov (table_positions wide pos end)"
proof (induction wide limit delta moov pos "end" rule: shift_table.induct)
  case (1 wide limit delta moov pos "end")
  show ?case
  proof (cases "pos + stride wide \<le> end")
    case True
    note fits = this
    show ?thesis
    proof (cases "be_at (stride wide) moov pos \<le> limit")
      case True
      then have "moved_offset wide limit delta (be_at (stride wide) moov pos) = Some (be_at (stride wide) moov pos)"
        by (simp add: moved_offset_def)
      with True fits "1.prems" "1.IH"(1) [OF fits refl True] show ?thesis
        by (simp add: shift_table.simps [of wide limit delta moov] table_positions.simps [of wide pos] put_same)
    next
      case False
      have "length (put moov pos (to_be (stride wide) new)) = length moov" for new
        using fits "1.prems" by (simp add: byte_simps)
      with False fits "1.prems" "1.IH"(2) [OF fits refl False] show ?thesis
        by (auto simp: shift_table.simps [of wide limit delta moov] table_positions.simps [of wide pos] split: option.split)
    qed
  qed (simp add: shift_table.simps [of wide limit delta moov] table_positions.simps [of wide pos])
qed

lemma shift_entries_length:
  "shift_entries limit delta buf es = Inr buf' \<Longrightarrow> \<forall>(p, w) \<in> set es. p + stride w \<le> length buf \<Longrightarrow> length buf' = length buf"
  by (induction limit delta buf es rule: shift_entries.induct) (auto split: option.splits simp: byte_simps)

section \<open>What it changes\<close>

lemma moved_offset_fits:
  assumes "moved_offset wide limit delta old = Some new" and "old < 256 ^ stride wide"
  shows "new mod 256 ^ stride wide = new"
proof -
  have "new < 256 ^ stride wide"
    using assms by (auto simp: moved_offset_def stride_def U32_MAX_def I64_MAX_def split: if_splits)
  then show ?thesis by simp
qed

lemma shift_entries_spec:
  assumes "apart es" and "\<forall>(p, w) \<in> set es. p + stride w \<le> length buf"
  shows "case shift_entries limit delta buf es of
      Inl err \<Rightarrow> err = Container \<and> (\<exists>(p, w) \<in> set es. moved_offset w limit delta (entry_at buf (p, w)) = None)
    | Inr buf' \<Rightarrow> (\<forall>i < length buf. \<not> covered_by es i \<longrightarrow> buf' ! i = buf ! i)
        \<and> (\<forall>(p, w) \<in> set es. moved_offset w limit delta (entry_at buf (p, w)) = Some (entry_at buf' (p, w)))"
  using assms
proof (induction limit delta buf es rule: shift_entries.induct)
  case (2 limit delta buf pos wide es)
  have later: "pos + stride wide \<le> q" if "(q, v) \<in> set es" for q v using "2.prems"(1) that by (auto simp: apart_def)
  have room: "pos + stride wide \<le> length buf" using "2.prems"(2) by simp
  show ?case
  proof (cases "moved_offset wide limit delta (be_at (stride wide) buf pos)")
    case None
    then show ?thesis by (simp add: entry_at_def)
  next
    case (Some new)
    let ?buf = "put buf pos (to_be (stride wide) new)"
    have len: "length ?buf = length buf" using room by (simp add: byte_simps)
    have same: "entry_at ?buf (q, v) = entry_at buf (q, v)" if "(q, v) \<in> set es" for q v
      using later [OF that] room by (simp add: entry_at_def be_at_put_other)
    have new: "be_at (stride wide) ?buf pos = new"
      using moved_offset_fits [OF Some be_at_less] room by (simp add: byte_simps)
    have outside: "?buf ! i = buf ! i" if "i < length buf" "\<not> (pos \<le> i \<and> i < pos + stride wide)" for i
      using that room by (auto simp: nth_put)
    have IH: "case shift_entries limit delta ?buf es of
        Inl err \<Rightarrow> err = Container \<and> (\<exists>(p, w) \<in> set es. moved_offset w limit delta (entry_at ?buf (p, w)) = None)
      | Inr buf' \<Rightarrow> (\<forall>i < length ?buf. \<not> covered_by es i \<longrightarrow> buf' ! i = ?buf ! i)
          \<and> (\<forall>(p, w) \<in> set es. moved_offset w limit delta (entry_at ?buf (p, w)) = Some (entry_at buf' (p, w)))"
      using "2.IH" [OF Some] "2.prems" len by (simp add: apart_def)
    show ?thesis
    proof (cases "shift_entries limit delta ?buf es")
      case (Inl err)
      with IH Some same show ?thesis by (fastforce simp: case_prod_beta)
    next
      case (Inr buf')
      have len': "length buf' = length buf"
        using shift_entries_length [OF Inr] "2.prems"(2) len by simp
      have "\<not> covered_by es i" if "pos \<le> i" "i < pos + stride wide" for i
        using later that by (fastforce simp: covered_by_def list_ex_iff)
      then have "be_at (stride wide) buf' pos = be_at (stride wide) ?buf pos"
        by (intro be_at_eqI) (use IH Inr len len' in simp_all)
      then have "moved_offset wide limit delta (entry_at buf (pos, wide)) = Some (entry_at buf' (pos, wide))"
        using Some new by (simp add: entry_at_def)
      moreover have "\<forall>i < length buf. \<not> covered_by ((pos, wide) # es) i \<longrightarrow> buf' ! i = buf ! i"
        using IH Inr len outside by (auto simp: covered_by_def)
      moreover have "\<forall>(p, w) \<in> set es. moved_offset w limit delta (entry_at buf (p, w)) = Some (entry_at buf' (p, w))"
        using IH Inr same by fastforce
      ultimately show ?thesis using Some Inr by simp
    qed
  qed
qed (simp add: covered_by_def)

text \<open>A buffer is given by its entries and the bytes around them.\<close>

lemma entries_determine:
  assumes "length buf' = length buf" and "\<forall>(p, w) \<in> set es. p + stride w \<le> length buf"
    and "\<And>i. i < length buf \<Longrightarrow> \<not> covered_by es i \<Longrightarrow> buf' ! i = buf ! i"
    and "\<And>p w. (p, w) \<in> set es \<Longrightarrow> entry_at buf' (p, w) = entry_at buf (p, w)"
  shows "buf' = buf"
proof (rule nth_equalityI)
  fix i assume i: "i < length buf'"
  show "buf' ! i = buf ! i"
  proof (cases "covered_by es i")
    case True
    then obtain p w where e: "(p, w) \<in> set es" "p \<le> i" "i < p + stride w" by (auto simp: covered_by_def list_ex_iff)
    then have "p + stride w \<le> length buf" using assms(2) by auto
    then show ?thesis
      using be_at_inject [of "stride w" buf' p buf i] assms(1) assms(4) [OF e(1)] e by (simp add: entry_at_def)
  qed (use assms i in simp)
qed (use assms in simp)

section \<open>The tables of a moov\<close>

lemma table_positions_bounds: "(p, w) \<in> set (table_positions wide pos end) \<Longrightarrow> w = wide \<and> pos \<le> p \<and> p + stride wide \<le> end"
  by (induction wide pos "end" rule: table_positions.induct)
    (subst (asm) (2) table_positions.simps, auto split: if_splits)

lemma table_positions_apart: "apart (table_positions wide pos end)"
proof (induction wide pos "end" rule: table_positions.induct)
  case (1 wide pos "end")
  then show ?case
    by (subst table_positions.simps) (auto simp: apart_def dest: table_positions_bounds)
qed

text \<open>One step of the walk over the boxes between two positions.\<close>

lemma collect_cases:
  obtains (stop) "\<And>buf'. length buf' = length buf \<Longrightarrow> be_at 4 buf' pos = be_at 4 buf pos \<Longrightarrow> collect_chunk_offset_boxes buf' pos end = []"
  | (step) "pos + 8 \<le> end" "8 \<le> be_at 4 buf pos" "pos + be_at 4 buf pos \<le> end"
      "\<not> (be_at 4 buf pos < 8 \<or> end < pos + be_at 4 buf pos)"
proof (cases "pos + 8 \<le> end \<and> 8 \<le> be_at 4 buf pos \<and> pos + be_at 4 buf pos \<le> end")
  case True
  then show ?thesis by (intro step) auto
next
  case False
  then show ?thesis by (intro stop) (subst collect_chunk_offset_boxes.simps, auto simp: Let_def)
qed

definition here :: "bytes \<Rightarrow> nat \<Rightarrow> (nat \<times> nat \<times> bool) list" where
  "here buf pos =
     (let kind = slice buf (pos + 4) (pos + 8); size = be_at 4 buf pos
      in if kind = ''stco'' then [(pos, pos + size, False)]
         else if kind = ''co64'' then [(pos, pos + size, True)]
         else if kind \<in> set OFFSET_ANCESTORS then collect_chunk_offset_boxes buf (pos + 8) (pos + size)
         else [])"

lemma collect_step:
  assumes "pos + 8 \<le> end" and "8 \<le> be_at 4 buf pos" and "pos + be_at 4 buf pos \<le> end"
  shows "collect_chunk_offset_boxes buf pos end = here buf pos @ collect_chunk_offset_boxes buf (pos + be_at 4 buf pos) end"
  using assms by (subst collect_chunk_offset_boxes.simps) (simp add: here_def Let_def)

lemma collect_bounds:
  "(s, e, w) \<in> set (collect_chunk_offset_boxes buf pos end) \<Longrightarrow> pos \<le> s \<and> s + 8 \<le> e \<and> e \<le> end"
proof (induction buf pos "end" rule: collect_chunk_offset_boxes.induct)
  case (1 buf pos "end")
  show ?case
  proof (cases rule: collect_cases [of buf pos "end"])
    case stop
    then show ?thesis using "1.prems" by simp
  next
    case step
    note IH = "1.IH"(1) [OF step(1) refl step(4) refl] "1.IH"(2) [OF step(1) refl step(4) refl]
    from "1.prems" consider "(s, e, w) \<in> set (here buf pos)" | "(s, e, w) \<in> set (collect_chunk_offset_boxes buf (pos + be_at 4 buf pos) end)"
      using collect_step [OF step(1-3)] by auto
    then show ?thesis
    proof cases
      case 1
      then show ?thesis using IH(1) step(2,3) by (auto simp: here_def Let_def split: if_splits)
    qed (use IH(2) in auto)
  qed
qed

lemma here_bounds: "(s, e, w) \<in> set (here buf pos) \<Longrightarrow> 8 \<le> be_at 4 buf pos \<Longrightarrow> pos \<le> s \<and> s + 8 \<le> e \<and> e \<le> pos + be_at 4 buf pos"
  by (auto simp: here_def Let_def dest: collect_bounds split: if_splits)

lemma collect_sorted: "sorted_wrt (\<lambda>x y. fst (snd x) \<le> fst y) (collect_chunk_offset_boxes buf pos end)"
proof (induction buf pos "end" rule: collect_chunk_offset_boxes.induct)
  case (1 buf pos "end")
  show ?case
  proof (cases rule: collect_cases [of buf pos "end"])
    case stop
    then show ?thesis by simp
  next
    case step
    note IH = "1.IH"(1) [OF step(1) refl step(4) refl] "1.IH"(2) [OF step(1) refl step(4) refl]
    have "sorted_wrt (\<lambda>x y. fst (snd x) \<le> fst y) (here buf pos)"
      using IH(1) by (auto simp: here_def Let_def)
    moreover have "e \<le> s'" if "(s, e, w) \<in> set (here buf pos)"
      "(s', e', w') \<in> set (collect_chunk_offset_boxes buf (pos + be_at 4 buf pos) end)" for s e w s' e' w'
      using here_bounds [OF that(1) step(2)] collect_bounds [OF that(2)] by simp
    ultimately show ?thesis using IH(2) by (fastforce simp: collect_step [OF step(1-3)] sorted_wrt_append)
  qed
qed

text \<open>The walk reads box headers only, never the entries of a table.\<close>

lemma collect_cong:
  assumes "length buf' = length buf"
    and "\<And>i. pos \<le> i \<Longrightarrow> i < end \<Longrightarrow> i < length buf
      \<Longrightarrow> (\<forall>(s, e, w) \<in> set (collect_chunk_offset_boxes buf pos end). i < s + 16 \<or> e \<le> i) \<Longrightarrow> buf' ! i = buf ! i"
  shows "collect_chunk_offset_boxes buf' pos end = collect_chunk_offset_boxes buf pos end"
  using assms
proof (induction buf pos "end" rule: collect_chunk_offset_boxes.induct)
  case (1 buf pos "end")
  show ?case
  proof (cases "pos + 8 \<le> end")
    case False
    then show ?thesis by (simp add: collect_chunk_offset_boxes.simps [of _ pos])
  next
    case fits: True
    have head: "buf' ! i = buf ! i" if "pos \<le> i" "i < pos + 8" "i < length buf" for i
    proof (rule "1.prems"(2))
      show "\<forall>(s, e, w) \<in> set (collect_chunk_offset_boxes buf pos end). i < s + 16 \<or> e \<le> i"
        using that collect_bounds [of _ _ _ buf pos "end"] by fastforce
    qed (use that fits in simp_all)
    have size: "be_at 4 buf' pos = be_at 4 buf pos" by (rule be_at_eqI) (use head "1.prems"(1) in auto)
    have kind: "slice buf' (pos + 4) (pos + 8) = slice buf (pos + 4) (pos + 8)"
      by (rule slice_eqI) (use head "1.prems"(1) in auto)
    show ?thesis
    proof (cases rule: collect_cases [of buf pos "end"])
      case stop
      then show ?thesis using "1.prems"(1) size by metis
    next
      case step
      note split = collect_step [OF step(1-3)]
      have rest: "collect_chunk_offset_boxes buf' (pos + be_at 4 buf pos) end = collect_chunk_offset_boxes buf (pos + be_at 4 buf pos) end"
      proof (rule "1.IH"(2) [OF step(1) refl step(4) refl "1.prems"(1)])
        fix i assume i: "pos + be_at 4 buf pos \<le> i" "i < end" "i < length buf"
          "\<forall>(s, e, w) \<in> set (collect_chunk_offset_boxes buf (pos + be_at 4 buf pos) end). i < s + 16 \<or> e \<le> i"
        then have "\<forall>(s, e, w) \<in> set (collect_chunk_offset_boxes buf pos end). i < s + 16 \<or> e \<le> i"
          using here_bounds [OF _ step(2)] unfolding split by fastforce
        then show "buf' ! i = buf ! i" using i step by (intro "1.prems"(2)) auto
      qed
      have "here buf' pos = here buf pos"
      proof (cases "slice buf (pos + 4) (pos + 8) \<in> set OFFSET_ANCESTORS")
        case True
        then have anc: "slice buf (pos + 4) (pos + 8) \<noteq> ''stco''" "slice buf (pos + 4) (pos + 8) \<noteq> ''co64''"
          by (auto simp: OFFSET_ANCESTORS_def)
        then have here: "here buf pos = collect_chunk_offset_boxes buf (pos + 8) (pos + be_at 4 buf pos)"
          using True by (simp add: here_def)
        have "collect_chunk_offset_boxes buf' (pos + 8) (pos + be_at 4 buf pos)
            = collect_chunk_offset_boxes buf (pos + 8) (pos + be_at 4 buf pos)"
        proof (rule "1.IH"(1) [OF step(1) refl step(4) refl anc True "1.prems"(1)])
          fix i assume i: "pos + 8 \<le> i" "i < pos + be_at 4 buf pos" "i < length buf"
            "\<forall>(s, e, w) \<in> set (collect_chunk_offset_boxes buf (pos + 8) (pos + be_at 4 buf pos)). i < s + 16 \<or> e \<le> i"
          then have "\<forall>(s, e, w) \<in> set (collect_chunk_offset_boxes buf pos end). i < s + 16 \<or> e \<le> i"
            using collect_bounds [of _ _ _ buf "pos + be_at 4 buf pos" "end"] unfolding split here by fastforce
          then show "buf' ! i = buf ! i" using i step by (intro "1.prems"(2)) auto
        qed
        then show ?thesis using here anc True by (simp add: here_def size kind)
      qed (simp add: here_def size kind Let_def)
      then show ?thesis using rest collect_step [of pos "end" buf'] step by (simp add: split size)
    qed
  qed
qed

lemma apart_append:
  "apart (es @ fs) \<longleftrightarrow> apart es \<and> apart fs \<and> (\<forall>(p, w) \<in> set es. \<forall>(q, v) \<in> set fs. p + stride w \<le> q)"
  by (auto simp: apart_def sorted_wrt_append)

lemma entry_positions_simps:
  "entry_positions [] = []"
  "entry_positions ((s, e, w) # boxes) = table_positions w (s + 16) e @ entry_positions boxes"
  by (simp_all add: entry_positions_def)

lemma entry_positions_apart:
  "sorted_wrt (\<lambda>x y. fst (snd x) \<le> fst y) boxes \<Longrightarrow> apart (entry_positions boxes)"
proof (induction boxes)
  case (Cons b boxes)
  obtain s e w where b: "b = (s, e, w)" by (cases b)
  have "p + stride v \<le> q" if "(p, v) \<in> set (table_positions w (s + 16) e)" "(q, u) \<in> set (entry_positions boxes)" for p v q u
    using that Cons.prems by (fastforce simp: b entry_positions_def dest!: table_positions_bounds)
  then show ?case
    using Cons table_positions_apart [of w "s + 16" e] by (auto simp: b entry_positions_simps apart_append)
qed (simp add: entry_positions_simps apart_def)

lemma entry_in_box:
  "(p, w) \<in> set (entry_positions boxes) \<longleftrightarrow> (\<exists>s e. (s, e, w) \<in> set boxes \<and> (p, w) \<in> set (table_positions w (s + 16) e))"
  by (auto simp: entry_positions_def dest: table_positions_bounds)

lemma moov_entries:
  "apart (chunk_offset_entries moov)" "\<forall>(p, w) \<in> set (chunk_offset_entries moov). p + stride w \<le> length moov"
proof -
  show "apart (chunk_offset_entries moov)"
    unfolding chunk_offset_entries_def by (rule entry_positions_apart [OF collect_sorted])
  show "\<forall>(p, w) \<in> set (chunk_offset_entries moov). p + stride w \<le> length moov"
    by (fastforce simp: chunk_offset_entries_def entry_in_box dest: collect_bounds table_positions_bounds)
qed

lemma shift_tables_entries:
  assumes "\<forall>(s, e, w) \<in> set boxes. e \<le> length moov"
  shows "shift_tables limit delta moov boxes = shift_entries limit delta moov (entry_positions boxes)"
  using assms
proof (induction limit delta moov boxes rule: shift_tables.induct)
  case (2 limit delta moov s e w boxes)
  have table: "shift_table w limit delta moov (s + 16) e = shift_entries limit delta moov (table_positions w (s + 16) e)"
    using "2.prems" by (intro shift_table_entries) simp
  have "length moov' = length moov" if "shift_entries limit delta moov (table_positions w (s + 16) e) = Inr moov'" for moov'
    by (rule shift_entries_length [OF that]) (use "2.prems" in \<open>fastforce dest: table_positions_bounds\<close>)
  with "2.IH" "2.prems" show ?case
    by (auto simp: table entry_positions_def shift_entries_append split: sum.split)
qed (simp add: entry_positions_def)

lemma shift_chunk_offsets_entries:
  assumes "delta \<noteq> 0"
  shows "shift_chunk_offsets moov limit delta = shift_entries limit delta moov (chunk_offset_entries moov)"
proof -
  have "\<forall>(s, e, w) \<in> set (collect_chunk_offset_boxes moov 0 (length moov)). e \<le> length moov"
    by (auto dest: collect_bounds)
  then show ?thesis
    using assms by (simp add: shift_chunk_offsets_def shift_tables_entries chunk_offset_entries_def)
qed

lemma entries_kept:
  assumes "length moov' = length moov"
    and "\<And>i. i < length moov \<Longrightarrow> \<not> covered_by (chunk_offset_entries moov) i \<Longrightarrow> moov' ! i = moov ! i"
  shows "chunk_offset_entries moov' = chunk_offset_entries moov"
proof -
  have "collect_chunk_offset_boxes moov' 0 (length moov) = collect_chunk_offset_boxes moov 0 (length moov)"
  proof (rule collect_cong [OF assms(1)])
    fix i assume i: "i < length moov"
      and free: "\<forall>(s, e, w) \<in> set (collect_chunk_offset_boxes moov 0 (length moov)). i < s + 16 \<or> e \<le> i"
    then have "\<not> covered_by (chunk_offset_entries moov) i"
      by (fastforce simp: covered_by_def list_ex_iff chunk_offset_entries_def entry_in_box dest: table_positions_bounds)
    with i show "moov' ! i = moov ! i" by (rule assms(2))
  qed
  then show ?thesis by (simp add: chunk_offset_entries_def assms(1))
qed

section \<open>Moving the offsets of a moov\<close>

lemma moved_offset_Some:
  "moved_offset w limit delta old = Some new \<Longrightarrow> new = (if old \<le> limit then old else nat (int old + delta))"
  by (auto simp: moved_offset_def split: if_splits)

lemma shift_chunk_offsets_Inr:
  assumes "shift_chunk_offsets moov limit delta = Inr moov'"
  shows "length moov' = length moov" and "chunk_offset_entries moov' = chunk_offset_entries moov"
    and "\<And>i. i < length moov \<Longrightarrow> \<not> covered_by (chunk_offset_entries moov) i \<Longrightarrow> moov' ! i = moov ! i"
    and "\<And>p w. (p, w) \<in> set (chunk_offset_entries moov) \<Longrightarrow> delta \<noteq> 0
      \<Longrightarrow> moved_offset w limit delta (entry_at moov (p, w)) = Some (entry_at moov' (p, w))"
    and "\<And>p w. (p, w) \<in> set (chunk_offset_entries moov)
      \<Longrightarrow> entry_at moov' (p, w) = (if entry_at moov (p, w) \<le> limit then entry_at moov (p, w) else nat (int (entry_at moov (p, w)) + delta))"
proof -
  have moved: "length moov' = length moov
      \<and> (\<forall>i < length moov. \<not> covered_by (chunk_offset_entries moov) i \<longrightarrow> moov' ! i = moov ! i)
      \<and> (\<forall>(p, w) \<in> set (chunk_offset_entries moov). moved_offset w limit delta (entry_at moov (p, w)) = Some (entry_at moov' (p, w)))"
    if "delta \<noteq> 0"
    using assms shift_entries_spec [OF moov_entries, of moov limit delta] shift_entries_length [OF _ moov_entries(2)]
    by (auto simp: shift_chunk_offsets_entries [OF that])
  have still: "moov' = moov" if "delta = 0" using assms that by (simp add: shift_chunk_offsets_def)
  show len: "length moov' = length moov" using moved still by blast
  show out: "moov' ! i = moov ! i" if "i < length moov" "\<not> covered_by (chunk_offset_entries moov) i" for i
    using moved still that by blast
  show "chunk_offset_entries moov' = chunk_offset_entries moov" using len out by (rule entries_kept)
  show mv: "moved_offset w limit delta (entry_at moov (p, w)) = Some (entry_at moov' (p, w))"
    if "(p, w) \<in> set (chunk_offset_entries moov)" "delta \<noteq> 0" for p w using moved that by blast
  show "entry_at moov' (p, w) = (if entry_at moov (p, w) \<le> limit then entry_at moov (p, w) else nat (int (entry_at moov (p, w)) + delta))"
    if "(p, w) \<in> set (chunk_offset_entries moov)" for p w
    using still moved_offset_Some [OF mv [OF that]] by (cases "delta = 0") auto
qed


definition demo_table :: "nat \<Rightarrow> bytes" where
  "demo_table off = to_be 4 28 @ ''moov'' @ to_be 4 20 @ ''stco'' @ to_be 4 0 @ to_be 4 1 @ to_be 4 off"

lemma demo_table_facts:
  "chunk_offset_entries (demo_table 40) = [(24, False)]" "be_at 4 (demo_table 40) 24 = 40"
  "put (demo_table 40) 24 (to_be 4 45) = demo_table 45" "chunk_offsets_of (demo_table 40) = [40]"
  by code_simp+

lemma demo_shift: "shift_chunk_offsets (demo_table 40) 10 5 = Inr (demo_table 45)"
  using demo_table_facts
  by (simp add: shift_chunk_offsets_entries stride_def moved_offset_def U32_MAX_def I64_MAX_def)


lemma moved_offset_back:
  assumes "moved_offset w limit delta old = Some new" and "0 < delta" and "delta \<le> int I64_MAX" and "old < 256 ^ stride w"
  shows "moved_offset w limit (- delta) new = Some old"
  using assms by (auto simp: moved_offset_def stride_def U32_MAX_def I64_MAX_def split: if_splits)

text \<open>C26: A shift can be undone. Moving the offsets behind the edit forward and then back by the same amount gives the
  original \<open>moov\<close>, byte for byte.\<close>

theorem offsets_shift_back:
  assumes "shift_chunk_offsets moov limit delta = Inr moov'" and "0 \<le> delta" and "delta \<le> int I64_MAX"
  shows "shift_chunk_offsets moov' limit (- delta) = Inr moov"
proof (cases "delta = 0")
  case True
  then show ?thesis using assms by (simp add: shift_chunk_offsets_def)
next
  case False
  note spec = shift_chunk_offsets_Inr [OF assms(1)]
  have undo: "moved_offset w limit (- delta) (entry_at moov' (p, w)) = Some (entry_at moov (p, w))"
    if "(p, w) \<in> set (chunk_offset_entries moov)" for p w
    using moved_offset_back [OF spec(4) [OF that False]] assms(2,3) False be_at_less by (simp add: entry_at_def)
  show ?thesis
  proof (cases "shift_chunk_offsets moov' limit (- delta)")
    case (Inl err)
    have "- delta \<noteq> 0" using False by simp
    then show ?thesis
      using Inl undo shift_entries_spec [OF moov_entries, of moov' limit "- delta"]
      by (fastforce simp: shift_chunk_offsets_entries spec(2))
  next
    case (Inr moov'')
    note spec' = shift_chunk_offsets_Inr [OF Inr]
    have "entry_at moov'' (p, w) = entry_at moov (p, w)" if "(p, w) \<in> set (chunk_offset_entries moov)" for p w
      using spec'(4) [of p w] undo [OF that] that False by (simp add: spec(2))
    then have "moov'' = moov"
      using spec(1,2,3) spec'(1,3) by (intro entries_determine [OF _ moov_entries(2)]) auto
    then show ?thesis using Inr by simp
  qed
qed

theorem offsets_shift_back_witness: "shift_chunk_offsets (demo_table 45) 10 (- 5) = Inr (demo_table 40)"
  using offsets_shift_back [OF demo_shift] by (simp add: I64_MAX_def)

end
