(* ===== verification/Mp4_Box.thy ===== *)
theory Mp4_Box
  imports Mp4_Bytes
begin

text \<open>
  Reading boxes from a file (\<^verbatim>\<open>crates/bookclerk-mp4/src/boxutil.rs\<close>, and \<open>top_level_boxes\<close> and \<open>read_moov\<close> of
  \<^verbatim>\<open>patch.rs\<close>). A file is the list of its bytes and a reader a position in it. Positions and box sizes are \<open>u64\<close>: sums
  wrap around as they do in a release build. A loop that the code does not bound is a partial function, which is
  \<open>None\<close> where the loop runs for ever.
\<close>

definition u64_add :: "nat \<Rightarrow> nat \<Rightarrow> nat" where
  "u64_add a b = (a + b) mod 2 ^ 64"

lemma u64_add_small [simp]: "a + b < 2 ^ 64 \<Longrightarrow> u64_add a b = a + b"
  by (simp add: u64_add_def)

lemma u64_add_less [simp]: "u64_add a b < 2 ^ 64"
  by (simp add: u64_add_def)

section \<open>Reading\<close>

definition MAX_MP4_TABLE_ENTRIES :: nat where
  "MAX_MP4_TABLE_ENTRIES = 10000000"

definition MAX_READ_EXACT_VEC_BYTES :: nat where
  "MAX_READ_EXACT_VEC_BYTES = 64 * 1024 * 1024"

definition ensure_table_entries :: "nat \<Rightarrow> nat \<Rightarrow> nat \<Rightarrow> Mp4Error + nat" where
  "ensure_table_entries count entry_bytes available =
     (if MAX_MP4_TABLE_ENTRIES < count then Inl Container
      else if available < min U64_MAX (count * max entry_bytes 1) then Inl Container
      else Inr count)"

text \<open>\<open>seek(SeekFrom::Start(to))\<close> fails on positions that are not an \<open>off_t\<close>; \<open>read_exact\<close> fails at the end of the file.\<close>

definition seek :: "nat \<Rightarrow> Mp4Error + nat" where
  "seek to = (if I64_MAX < to then Inl Io else Inr to)"

definition read_array :: "nat \<Rightarrow> bytes \<Rightarrow> nat \<Rightarrow> Mp4Error + bytes \<times> nat" where
  "read_array n file pos = (if pos + n \<le> length file then Inr (slice file pos (pos + n), pos + n) else Inl Io)"

definition read_u8 :: "bytes \<Rightarrow> nat \<Rightarrow> Mp4Error + nat \<times> nat" where
  "read_u8 file pos = (case read_array 1 file pos of Inl err \<Rightarrow> Inl err | Inr (buf, p) \<Rightarrow> Inr (from_be buf, p))"

definition read_u32 :: "bytes \<Rightarrow> nat \<Rightarrow> Mp4Error + nat \<times> nat" where
  "read_u32 file pos = (case read_array 4 file pos of Inl err \<Rightarrow> Inl err | Inr (buf, p) \<Rightarrow> Inr (from_be buf, p))"

definition read_u64 :: "bytes \<Rightarrow> nat \<Rightarrow> Mp4Error + nat \<times> nat" where
  "read_u64 file pos = (case read_array 8 file pos of Inl err \<Rightarrow> Inl err | Inr (buf, p) \<Rightarrow> Inr (from_be buf, p))"

definition read_fourcc :: "bytes \<Rightarrow> nat \<Rightarrow> Mp4Error + bytes \<times> nat" where
  "read_fourcc = read_array 4"

definition read_exact_vec :: "bytes \<Rightarrow> nat \<Rightarrow> nat \<Rightarrow> Mp4Error + bytes" where
  "read_exact_vec file pos n =
     (if MAX_READ_EXACT_VEC_BYTES < n then Inl Container
      else if length (slice file pos (pos + n)) \<noteq> n then Inl Io
      else Inr (slice file pos (pos + n)))"

definition read_full_box_version_flags :: "bytes \<Rightarrow> nat \<Rightarrow> Mp4Error + (nat \<times> nat) \<times> nat" where
  "read_full_box_version_flags file pos =
     (case read_u8 file pos of
        Inl err \<Rightarrow> Inl err
      | Inr (version, p) \<Rightarrow>
          (case read_array 3 file p of Inl err \<Rightarrow> Inl err | Inr (flags, q) \<Rightarrow> Inr ((version, from_be flags), q)))"

section \<open>Box headers\<close>

record BoxHeader =
  bh_start :: nat
  bh_size :: nat
  bh_header_len :: nat
  bh_kind :: bytes

definition content_start :: "BoxHeader \<Rightarrow> nat" where
  "content_start h = u64_add (bh_start h) (bh_header_len h)"

definition content_len :: "BoxHeader \<Rightarrow> nat" where
  "content_len h = bh_size h - bh_header_len h"

definition box_end :: "BoxHeader \<Rightarrow> nat" where
  "box_end h = u64_add (bh_start h) (bh_size h)"

definition read_box_header :: "bytes \<Rightarrow> nat \<Rightarrow> Mp4Error + BoxHeader \<times> nat" where
  "read_box_header file start =
     (case read_u32 file start of
        Inl err \<Rightarrow> Inl err
      | Inr (size32, p) \<Rightarrow>
          (case read_fourcc file p of
             Inl err \<Rightarrow> Inl err
           | Inr (kind, q) \<Rightarrow>
               (case (if size32 = 1
                      then (case read_u64 file q of Inl err \<Rightarrow> Inl err | Inr (size64, r) \<Rightarrow> Inr (size64, 16, r))
                      else if size32 = 0 then Inr (length file - start, 8, start + 8)
                      else Inr (size32, 8, q)) of
                  Inl err \<Rightarrow> Inl err
                | Inr (box_size, header_len, r) \<Rightarrow>
                    if box_size < header_len then Inl Container
                    else Inr (\<lparr>bh_start = start, bh_size = box_size, bh_header_len = header_len, bh_kind = kind\<rparr>, r))))"

section \<open>Walking the children of a box\<close>

text \<open>\<open>visit\<close> sees each header with the state of the caller; where it leaves the reader does not matter.\<close>

partial_function (option) walk_loop ::
  "bytes \<Rightarrow> nat \<Rightarrow> ('s \<Rightarrow> BoxHeader \<Rightarrow> (Mp4Error + 's) option) \<Rightarrow> 's \<Rightarrow> nat \<Rightarrow> (Mp4Error + 's) option" where
  "walk_loop file end visit s pos =
     (if end < u64_add pos 8 then Some (Inr s)
      else case read_box_header file pos of
        Inl err \<Rightarrow> Some (Inl err)
      | Inr (header, p) \<Rightarrow>
          if end < box_end header then Some (Inl Container)
          else Option.bind (visit s header) (\<lambda>r.
            case r of
              Inl err \<Rightarrow> Some (Inl err)
            | Inr s' \<Rightarrow>
                (case seek (box_end header) of
                   Inl err \<Rightarrow> Some (Inl err)
                 | Inr next \<Rightarrow> walk_loop file end visit s' next)))"

definition walk_children ::
  "bytes \<Rightarrow> nat \<Rightarrow> nat \<Rightarrow> ('s \<Rightarrow> BoxHeader \<Rightarrow> (Mp4Error + 's) option) \<Rightarrow> 's \<Rightarrow> (Mp4Error + 's) option" where
  "walk_children file start end visit s =
     (case seek start of Inl err \<Rightarrow> Some (Inl err) | Inr pos \<Rightarrow> walk_loop file end visit s pos)"

definition find_child :: "bytes \<Rightarrow> nat \<Rightarrow> nat \<Rightarrow> bytes \<Rightarrow> (Mp4Error + BoxHeader option) option" where
  "find_child file start end want =
     walk_children file start end
       (\<lambda>found header. Some (Inr (if bh_kind header = want \<and> found = None then Some header else found))) None"

section \<open>Top-level boxes\<close>

function top_level_loop :: "bytes \<Rightarrow> nat \<Rightarrow> BoxHeader list \<Rightarrow> Mp4Error + BoxHeader list" where
  "top_level_loop file pos out =
     (if u64_add pos 8 \<le> length file then
        (case seek pos of
           Inl err \<Rightarrow> Inl err
         | Inr pos' \<Rightarrow>
             (case read_box_header file pos' of
                Inl err \<Rightarrow> Inl err
              | Inr (header, p) \<Rightarrow>
                  if box_end header \<le> pos then Inl Container
                  else top_level_loop file (box_end header) (out @ [header])))
      else Inr out)"
  by pat_completeness auto
termination
  by (relation "measure (\<lambda>(file, pos, out). 2 ^ 64 - pos)")
    (auto simp: box_end_def seek_def I64_MAX_def intro!: diff_less_mono2 split: if_splits)

declare top_level_loop.simps [simp del]

definition top_level_boxes :: "bytes \<Rightarrow> Mp4Error + BoxHeader list" where
  "top_level_boxes file = top_level_loop file 0 []"

section \<open>Laws\<close>

lemma read_array_Inr: "read_array n file pos = Inr (bs, p) \<longleftrightarrow> pos + n \<le> length file \<and> bs = slice file pos (pos + n) \<and> p = pos + n"
  by (auto simp: read_array_def)

lemma read_int_Inr:
  "read_u8 file pos = Inr (v, p) \<longleftrightarrow> pos + 1 \<le> length file \<and> v = be_at 1 file pos \<and> p = pos + 1"
  "read_u32 file pos = Inr (v, p) \<longleftrightarrow> pos + 4 \<le> length file \<and> v = be_at 4 file pos \<and> p = pos + 4"
  "read_u64 file pos = Inr (v, p) \<longleftrightarrow> pos + 8 \<le> length file \<and> v = be_at 8 file pos \<and> p = pos + 8"
  by (auto simp: read_u8_def read_u32_def read_u64_def read_array_def be_at_def)

lemma read_box_header_Inr:
  assumes "read_box_header file pos = Inr (h, p)"
  shows "bh_start h = pos" and "pos + 8 \<le> length file" and "8 \<le> bh_size h" and "bh_header_len h \<le> bh_size h"
    and "bh_header_len h = 8 \<or> bh_header_len h = 16" and "bh_kind h = slice file (pos + 4) (pos + 8)"
    and "p = pos + bh_header_len h" and "p \<le> length file"
  using assms
  by (auto simp: read_box_header_def read_fourcc_def read_array_Inr read_int_Inr ac_simps split: sum.splits prod.splits if_splits)

lemma box_end_small: "bh_start h + bh_size h < 2 ^ 64 \<Longrightarrow> box_end h = bh_start h + bh_size h"
  by (simp add: box_end_def)

lemma seek_Inr [simp]: "seek to = Inr pos \<longleftrightarrow> to \<le> I64_MAX \<and> pos = to"
  by (auto simp: seek_def)

text \<open>What every visit keeps, a walk keeps.\<close>

lemmas walk_loop_induct = walk_loop.raw_induct [rotated 1, consumes 1, case_names step]

lemma walk_loop_keeps:
  assumes "walk_loop file end visit s pos = Some r" and "I s"
    and "\<And>s h p s'. I s \<Longrightarrow> read_box_header file (bh_start h) = Inr (h, p) \<Longrightarrow> box_end h \<le> end \<Longrightarrow> visit s h = Some (Inr s') \<Longrightarrow> I s'"
  shows "\<forall>s'. r = Inr s' \<longrightarrow> I s'"
  using assms
proof (induction "file" "end" visit s pos r rule: walk_loop_induct)
  case (step walk "file" "end" visit s pos r)
  show ?case
  proof (intro allI impI)
    fix s' assume r: "r = Inr s'"
    consider "s' = s" | h p s1 where "read_box_header file pos = Inr (h, p)" "box_end h \<le> end" "visit s h = Some (Inr s1)"
      "walk file end visit s1 (box_end h) = Some r"
      using step.hyps r by (auto split: if_splits sum.splits prod.splits bind_splits)
    then show "I s'"
    proof cases
      case 2
      then have "I s1" using step.prems(2) [OF step.prems(1), of h p s1] read_box_header_Inr(1) by metis
      from step.IH [OF 2(4) this] step.prems(2) r show ?thesis by blast
    qed (use step.prems in simp)
  qed
qed

text \<open>A box that is found is a box of the file, of the wanted kind, inside the parent.\<close>

lemma find_child_Some:
  assumes "find_child file start end want = Some (Inr (Some h))"
  shows "bh_kind h = want" and "box_end h \<le> end" and "\<exists>p. read_box_header file (bh_start h) = Inr (h, p)"
proof -
  let ?I = "\<lambda>found. \<forall>h. found = Some h \<longrightarrow> bh_kind h = want \<and> box_end h \<le> end \<and> (\<exists>p. read_box_header file (bh_start h) = Inr (h, p))"
  obtain pos where walk: "walk_loop file end
      (\<lambda>found header. Some (Inr (if bh_kind header = want \<and> found = None then Some header else found))) None pos = Some (Inr (Some h))"
    using assms by (auto simp: find_child_def walk_children_def split: sum.splits)
  have "\<forall>s'. Inr (Some h) = (Inr s' :: Mp4Error + BoxHeader option) \<longrightarrow> ?I s'"
    by (rule walk_loop_keeps [OF walk]) (auto split: if_splits)
  then show "bh_kind h = want" and "box_end h \<le> end" and "\<exists>p. read_box_header file (bh_start h) = Inr (h, p)" by auto
qed

section \<open>Termination\<close>

text \<open>A file no box of which ends past the range of \<open>u64\<close>.\<close>

definition no_wrap :: "bytes \<Rightarrow> bool" where
  "no_wrap file \<longleftrightarrow> (\<forall>pos h p. read_box_header file pos = Inr (h, p) \<longrightarrow> bh_start h + bh_size h < 2 ^ 64)"

lemma box_end_no_wrap:
  assumes "no_wrap file" and "read_box_header file pos = Inr (h, p)"
  shows "box_end h = pos + bh_size h"
proof -
  have "bh_start h + bh_size h < 2 ^ 64" using assms unfolding no_wrap_def by blast
  then show ?thesis using read_box_header_Inr(1) [OF assms(2)] by (simp add: box_end_small)
qed

lemma walk_loop_returns:
  assumes "no_wrap file" and "\<And>s h. visit s h \<noteq> None" and "pos \<le> I64_MAX"
  shows "\<exists>r. walk_loop file end visit s pos = Some r"
  using assms(3)
proof (induction "end - pos" arbitrary: s pos rule: less_induct)
  case less
  have add8: "u64_add pos 8 = pos + 8" using less.prems by (simp add: I64_MAX_def)
  show ?case
  proof (cases "end < pos + 8")
    case True
    then show ?thesis by (subst walk_loop.simps) (simp add: add8)
  next
    case False
    show ?thesis
    proof (cases "read_box_header file pos")
      case (Inl err)
      then show ?thesis using False by (subst walk_loop.simps) (simp add: add8)
    next
      case (Inr hp)
      obtain h p where hp: "hp = (h, p)" by (cases hp)
      note header = read_box_header_Inr [OF Inr [unfolded hp]]
      have ends: "box_end h = pos + bh_size h"
        using box_end_no_wrap [OF assms(1) Inr [unfolded hp]] .
      obtain r where r: "visit s h = Some r" using assms(2) by blast
      have "\<exists>r. walk_loop file end visit s' (box_end h) = Some r" if "box_end h \<le> I64_MAX" for s'
        using less.hyps [of "box_end h" s'] that header(3) False by (simp add: ends)
      then show ?thesis
        using False Inr hp r by (subst walk_loop.simps) (auto simp: add8 seek_def split: sum.split)
    qed
  qed
qed

lemma find_child_returns: "no_wrap file \<Longrightarrow> \<exists>r. find_child file start end want = Some r"
  unfolding find_child_def walk_children_def by (auto simp: seek_def not_less intro!: walk_loop_returns split: sum.split)

section \<open>The boxes of a file\<close>

definition box_of :: "bytes \<Rightarrow> BoxHeader \<Rightarrow> bool" where
  "box_of file h \<longleftrightarrow> (case read_box_header file (bh_start h) of Inl err \<Rightarrow> False | Inr (h', p) \<Rightarrow> h' = h)"

fun chained :: "bytes \<Rightarrow> nat \<Rightarrow> BoxHeader list \<Rightarrow> nat \<Rightarrow> bool" where
  "chained file pos [] stop \<longleftrightarrow> pos = stop"
| "chained file pos (h # hs) stop \<longleftrightarrow> box_of file h \<and> bh_start h = pos \<and> pos < box_end h \<and> chained file (box_end h) hs stop"

lemma box_of_read: "read_box_header file pos = Inr (h, p) \<Longrightarrow> box_of file h"
  by (frule read_box_header_Inr(1)) (simp add: box_of_def)

lemma box_of_D: "box_of file h \<Longrightarrow> \<exists>p. read_box_header file (bh_start h) = Inr (h, p)"
  by (auto simp: box_of_def split: sum.splits)

lemma chained_append: "chained file pos (hs @ [h]) stop \<longleftrightarrow> chained file pos hs (bh_start h) \<and> chained file (bh_start h) [h] stop"
  by (induction hs arbitrary: pos) auto

lemma chained_Nil: "chained file pos [] pos"
  by simp

lemma chained_header:
  "chained file pos hs stop \<Longrightarrow> h \<in> set hs \<Longrightarrow> box_of file h \<and> bh_start h < box_end h \<and> pos \<le> bh_start h"
  by (induction hs arbitrary: pos) fastforce+

lemma top_level_loop_Inr:
  assumes "top_level_loop file pos out = Inr hs" and "chained file 0 out pos"
  shows "\<exists>stop. chained file 0 hs stop \<and> length file < u64_add stop 8"
  using assms
proof (induction "file" pos out rule: top_level_loop.induct)
  case (1 "file" pos out)
  show ?case
  proof (cases "u64_add pos 8 \<le> length file")
    case False
    then show ?thesis using "1.prems" by (auto simp: top_level_loop.simps [of "file" pos])
  next
    case True
    then obtain h p where h: "seek pos = Inr pos" "read_box_header file pos = Inr (h, p)" "\<not> box_end h \<le> pos"
      "top_level_loop file (box_end h) (out @ [h]) = Inr hs"
      using "1.prems"(1) by (auto simp: top_level_loop.simps [of "file" pos] seek_def split: sum.splits if_splits)
    have "chained file 0 (out @ [h]) (box_end h)"
      using "1.prems"(2) h read_box_header_Inr(1) [OF h(2)] box_of_read [OF h(2)] by (simp add: chained_append)
    then show ?thesis using "1.IH" [OF True h(1,2) refl h(3)] h(4) by simp
  qed
qed

lemma top_level_boxes_chained:
  "top_level_boxes file = Inr hs \<Longrightarrow> \<exists>stop. chained file 0 hs stop \<and> length file < u64_add stop 8"
  unfolding top_level_boxes_def by (erule top_level_loop_Inr) (rule chained_Nil)

end
