(* ===== verification/Mp4_Swap.thy ===== *)
theory Mp4_Swap
  imports Mp4_Box Mp4_Moov
begin

text \<open>
  From a file to its \<open>moov\<close> and back: \<open>read_moov\<close> of \<^verbatim>\<open>crates/bookclerk-mp4/src/patch.rs\<close>, what the location it returns
  means, and that writing back what was read changes nothing.
\<close>

definition MOOV :: bytes where
  "MOOV = ''moov''"

definition read_moov :: "bytes \<Rightarrow> Mp4Error + MoovLocation \<times> bytes" where
  "read_moov file =
     (case top_level_boxes file of
        Inl err \<Rightarrow> Inl err
      | Inr boxes \<Rightarrow>
          (case find (\<lambda>header. bh_kind header = MOOV) boxes of
             None \<Rightarrow> Inl Container
           | Some moov \<Rightarrow>
               if U64_MAX < bh_start moov + bh_size moov then Inl Container
               else if length file < bh_start moov + bh_size moov then Inl Container
               else if MAX_READ_EXACT_VEC_BYTES < bh_size moov then Inl Container
               else (case seek (bh_start moov) of
                       Inl err \<Rightarrow> Inl err
                     | Inr pos \<Rightarrow>
                         (case read_exact_vec file pos (bh_size moov) of
                            Inl err \<Rightarrow> Inl err
                          | Inr bs \<Rightarrow>
                              Inr (\<lparr>ml_start = bh_start moov, ml_len = bh_size moov,
                                    ml_is_last = boxes \<noteq> [] \<and> bh_start (last boxes) = bh_start moov\<rparr>, bs)))))"

lemma read_moov_Inr:
  assumes "read_moov file = Inr (at, moov)"
  obtains boxes h where "top_level_boxes file = Inr boxes" "h \<in> set boxes" "bh_kind h = MOOV"
    "ml_start at = bh_start h" "ml_len at = bh_size h" "ml_is_last at \<longleftrightarrow> bh_start (last boxes) = bh_start h"
    "bh_start h + bh_size h \<le> length file" "bh_start h + bh_size h < 2 ^ 64" "moov = slice file (bh_start h) (bh_start h + bh_size h)"
proof -
  obtain boxes h where b: "top_level_boxes file = Inr boxes" "find (\<lambda>header. bh_kind header = MOOV) boxes = Some h"
    using assms by (auto simp: read_moov_def split: sum.splits option.splits)
  have h: "h \<in> set boxes" "bh_kind h = MOOV" using b(2) by (auto simp: find_Some_iff)
  have "boxes \<noteq> []" using h(1) by auto
  then show ?thesis
    using assms b h
    by (intro that [of boxes h]) (auto simp: read_moov_def read_exact_vec_def U64_MAX_def split: sum.splits if_splits)
qed

lemma write_back:
  assumes "ml_start at + ml_len at \<le> length file"
  shows "write_moov_in_place file at (slice file (ml_start at) (ml_start at + ml_len at))
    = Inr (if ml_is_last at then take (ml_start at + ml_len at) file else file)"
proof -
  have "put file (ml_start at) (slice file (ml_start at) (ml_start at + ml_len at)) = file"
    using assms by (simp add: put_slice)
  then show ?thesis
    using assms by (simp add: write_moov_in_place_def Let_def write_at_inside byte_simps set_len_def)
qed

text \<open>The \<open>moov\<close> that is read is the one of the file. The location returned for a file is the place of a box of kind
  \<open>moov\<close> in the chain of boxes from the start of the file, inside the file, and the returned bytes are its bytes; when
  another box follows it the location says so; and writing the bytes back to the location leaves the file as it was, up
  to stray bytes behind a final \<open>moov\<close>.\<close>

theorem read_moov_locates:
  assumes "read_moov file = Inr (at, moov)"
  shows "ml_start at + ml_len at \<le> length file \<and> moov = slice file (ml_start at) (ml_start at + ml_len at)
    \<and> (\<exists>before h after stop. chained file 0 (before @ h # after) stop \<and> bh_kind h = MOOV
         \<and> bh_start h = ml_start at \<and> box_end h = ml_start at + ml_len at \<and> (ml_is_last at \<longleftrightarrow> after = []))
    \<and> write_moov_in_place file at moov = Inr (if ml_is_last at then take (ml_start at + ml_len at) file else file)"
proof -
  obtain boxes h where r: "top_level_boxes file = Inr boxes" "h \<in> set boxes" "bh_kind h = MOOV"
    "ml_start at = bh_start h" "ml_len at = bh_size h" "ml_is_last at \<longleftrightarrow> bh_start (last boxes) = bh_start h"
    "bh_start h + bh_size h \<le> length file" "bh_start h + bh_size h < 2 ^ 64" "moov = slice file (bh_start h) (bh_start h + bh_size h)"
    using assms by (rule read_moov_Inr)
  obtain stop where c: "chained file 0 boxes stop" using top_level_boxes_chained [OF r(1)] by blast
  obtain before after where b: "boxes = before @ h # after" using split_list [OF r(2)] by blast
  have "bh_start h < bh_start (last after)" if "after \<noteq> []"
  proof -
    have later: "chained file pos (bs @ h # after) stop \<Longrightarrow> chained file (box_end h) after stop \<and> bh_start h < box_end h" for pos bs
      by (induction bs arbitrary: pos) auto
    show ?thesis using later [of 0 before] c chained_header [of "file" "box_end h" after stop "last after"] that by (auto simp: b)
  qed
  then have "ml_is_last at \<longleftrightarrow> after = []" using r(6) by (cases "after = []") (auto simp: b)
  moreover have "box_end h = ml_start at + ml_len at" using r(4,5,8) by (simp add: box_end_small)
  ultimately show ?thesis using r c b write_back [of at "file"] by auto
qed

definition demo_file :: bytes where
  "demo_file = to_be 4 8 @ ''ftyp'' @ demo_moov @ to_be 4 8 @ ''mdat''"

lemma demo_file_boxes:
  "read_box_header demo_file 0 = Inr (\<lparr>bh_start = 0, bh_size = 8, bh_header_len = 8, bh_kind = ''ftyp''\<rparr>, 8)"
  "read_box_header demo_file 8 = Inr (\<lparr>bh_start = 8, bh_size = 16, bh_header_len = 8, bh_kind = ''moov''\<rparr>, 16)"
  "read_box_header demo_file 24 = Inr (\<lparr>bh_start = 24, bh_size = 8, bh_header_len = 8, bh_kind = ''mdat''\<rparr>, 32)"
  "length demo_file = 32" "slice demo_file 8 24 = demo_moov"
  by code_simp+

lemma demo_read_moov: "read_moov demo_file = Inr (\<lparr>ml_start = 8, ml_len = 16, ml_is_last = False\<rparr>, demo_moov)"
proof -
  have "length demo_moov = 16" by code_simp
  then show ?thesis
    using demo_file_boxes
    by (simp add: read_moov_def top_level_boxes_def top_level_loop.simps box_end_def seek_def I64_MAX_def U64_MAX_def MOOV_def
        MAX_READ_EXACT_VEC_BYTES_def read_exact_vec_def)
qed

theorem read_moov_locates_witness:
  "write_moov_in_place demo_file \<lparr>ml_start = 8, ml_len = 16, ml_is_last = False\<rparr> demo_moov = Inr demo_file"
  using read_moov_locates [OF demo_read_moov] by simp

end
