(* ===== verification/Mp4_Samples.thy ===== *)
theory Mp4_Samples
  imports Mp4_Box
begin

text \<open>
  The sample table of a track (\<^verbatim>\<open>crates/bookclerk-mp4/src/samples.rs\<close>): where each sample lies in the file, when it
  plays, and which samples a time window keeps.
\<close>

record ChunkMapEntry =
  cm_first_chunk :: nat
  cm_samples_per_chunk :: nat
  cm_sample_description_index :: nat

record SampleInfo =
  si_offset :: nat
  si_size :: nat
  si_start_cts :: nat
  si_duration :: nat
  si_chunk_index :: nat

section \<open>Durations\<close>

definition expand_durations :: "(nat \<times> nat) list \<Rightarrow> nat list" where
  "expand_durations stts = concat (map (\<lambda>(count, delta). replicate count delta) stts)"

definition fit_durations :: "nat list \<Rightarrow> nat \<Rightarrow> Mp4Error + nat list" where
  "fit_durations durations n =
     (if length durations = n then Inr durations
      else if durations = [] then Inl Container
      else if length durations < n then Inr (durations @ replicate (n - length durations) (last durations))
      else Inr (take n durations))"

section \<open>Chunks\<close>

text \<open>\<open>chunk_number\<close> is a \<open>u32\<close>.\<close>

fun spc_loop :: "nat \<Rightarrow> nat \<Rightarrow> ChunkMapEntry list \<Rightarrow> nat" where
  "spc_loop chunk_number spc [] = spc"
| "spc_loop chunk_number spc (entry # stsc) =
     (if cm_first_chunk entry \<le> chunk_number then spc_loop chunk_number (cm_samples_per_chunk entry) stsc else spc)"

definition samples_in_chunk :: "ChunkMapEntry list \<Rightarrow> nat \<Rightarrow> nat" where
  "samples_in_chunk stsc chunk_idx =
     spc_loop ((chunk_idx mod 2 ^ 32 + 1) mod 2 ^ 32) (cm_samples_per_chunk (hd stsc)) stsc"

text \<open>The samples of one chunk from the pairs of size and duration that are left; the caller has checked that there are
  enough. The offset is a \<open>u64\<close> sum, the composition time a saturating one.\<close>

fun chunk_samples :: "nat \<Rightarrow> nat \<Rightarrow> nat \<Rightarrow> nat \<Rightarrow> (nat \<times> nat) list \<Rightarrow> SampleInfo list \<times> nat \<times> (nat \<times> nat) list" where
  "chunk_samples chunk_idx (Suc n) offset cts ((sz, duration) # rest) =
     (case chunk_samples chunk_idx n (u64_add offset sz) (u64_saturating_add cts duration) rest of
        (samples, cts', rest') \<Rightarrow>
          (\<lparr>si_offset = offset, si_size = sz, si_start_cts = cts, si_duration = duration,
            si_chunk_index = chunk_idx mod 2 ^ 32\<rparr> # samples, cts', rest'))"
| "chunk_samples chunk_idx n offset cts rest = ([], cts, rest)"

fun place_chunks :: "nat \<Rightarrow> (nat \<times> nat) list \<Rightarrow> nat \<Rightarrow> (nat \<times> nat) list \<Rightarrow> SampleInfo list" where
  "place_chunks chunk_idx [] cts rest = []"
| "place_chunks chunk_idx ((chunk_offset, spc) # chunks) cts rest =
     (case chunk_samples chunk_idx spc chunk_offset cts rest of
        (samples, cts', rest') \<Rightarrow> samples @ place_chunks (Suc chunk_idx) chunks cts' rest')"

definition build_samples ::
  "(nat \<times> nat) list \<Rightarrow> ChunkMapEntry list \<Rightarrow> nat list \<Rightarrow> nat list \<Rightarrow> Mp4Error + SampleInfo list" where
  "build_samples stts stsc sample_sizes chunk_offsets =
     (if stsc = [] then Inl Container
      else if chunk_offsets = [] then Inl Container
      else case fit_durations (expand_durations stts) (length sample_sizes) of
        Inl err \<Rightarrow> Inl err
      | Inr durations \<Rightarrow>
          let samples_per_chunk = map (samples_in_chunk stsc) [0..<length chunk_offsets]
          in if sum_list samples_per_chunk \<noteq> length sample_sizes then Inl Container
             else Inr (place_chunks 0 (zip chunk_offsets samples_per_chunk) 0 (zip sample_sizes durations)))"

section \<open>Selecting a time window\<close>

fun select_loop :: "nat \<Rightarrow> nat option \<Rightarrow> nat \<Rightarrow> SampleInfo list \<Rightarrow> nat list" where
  "select_loop start_ticks end_ticks index [] = []"
| "select_loop start_ticks end_ticks index (sample # samples) =
     (if u64_saturating_add (si_start_cts sample) (si_duration sample) \<le> start_ticks
      then select_loop start_ticks end_ticks (Suc index) samples
      else if (case end_ticks of Some e \<Rightarrow> e \<le> si_start_cts sample | None \<Rightarrow> False) then []
      else index # select_loop start_ticks end_ticks (Suc index) samples)"

definition ms_to_ticks :: "nat \<Rightarrow> nat \<Rightarrow> nat" where
  "ms_to_ticks timescale ms = min U64_MAX (ms * timescale) div 1000"

definition select_samples_by_ms :: "SampleInfo list \<Rightarrow> nat \<Rightarrow> nat \<Rightarrow> nat option \<Rightarrow> nat list" where
  "select_samples_by_ms samples timescale start_ms end_ms =
     (if timescale = 0 then [0..<length samples]
      else select_loop (ms_to_ticks timescale start_ms) (map_option (ms_to_ticks timescale) end_ms) 0 samples)"

section \<open>The sample table\<close>

lemma fit_durations_length: "fit_durations ds n = Inr ds' \<Longrightarrow> length ds' = n"
  by (auto simp: fit_durations_def split: if_splits)

text \<open>The \<open>k\<close>-th sample of a chunk that starts at \<open>offset\<close> and, in exact arithmetic, at time \<open>t\<close>.\<close>

definition sample_of :: "nat \<Rightarrow> nat \<Rightarrow> nat \<Rightarrow> (nat \<times> nat) list \<Rightarrow> nat \<Rightarrow> SampleInfo" where
  "sample_of c offset t rest k =
     \<lparr>si_offset = (offset + sum_list (map fst (take k rest))) mod 2 ^ 64, si_size = fst (rest ! k),
      si_start_cts = min U64_MAX (t + sum_list (map snd (take k rest))), si_duration = snd (rest ! k),
      si_chunk_index = c mod 2 ^ 32\<rparr>"

lemma saturating_step: "u64_saturating_add (min U64_MAX t) d = min U64_MAX (t + d)"
  by (auto simp: u64_saturating_add_def)

lemma chunk_samples_spec:
  assumes "n \<le> length rest" and "offset < 2 ^ 64"
  shows "chunk_samples c n offset (min U64_MAX t) rest =
    (map (sample_of c offset t rest) [0..<n], min U64_MAX (t + sum_list (map snd (take n rest))), drop n rest)"
  using assms
proof (induction n arbitrary: offset t rest)
  case (Suc n)
  obtain sz d rest' where rest: "rest = (sz, d) # rest'" using Suc.prems(1) by (cases rest) auto
  have IH: "chunk_samples c n (u64_add offset sz) (min U64_MAX (t + d)) rest' =
      (map (sample_of c (u64_add offset sz) (t + d) rest') [0..<n], min U64_MAX (t + d + sum_list (map snd (take n rest'))), drop n rest')"
    by (intro Suc.IH u64_add_less) (use Suc.prems(1) in \<open>simp add: rest\<close>)
  have "sample_of c (u64_add offset sz) (t + d) rest' k = sample_of c offset t rest (Suc k)" for k
    by (simp add: sample_of_def rest u64_add_def mod_simps ac_simps)
  then have "map (sample_of c (u64_add offset sz) (t + d) rest') [0..<n] = map (sample_of c offset t rest) [Suc 0..<Suc n]"
    by (intro nth_equalityI) (simp_all del: upt_Suc)
  then show ?case
    using IH Suc.prems(2) upt_conv_Cons [of 0 "Suc n"]
    by (simp add: rest saturating_step sample_of_def add.assoc del: upt_Suc)
qed simp

text \<open>What \<open>place_chunks\<close> makes of chunks whose samples add up to the pairs that are left.\<close>

definition placed :: "nat \<Rightarrow> (nat \<times> nat) list \<Rightarrow> nat \<Rightarrow> (nat \<times> nat) list \<Rightarrow> SampleInfo list \<Rightarrow> bool" where
  "placed c chunks t rest samples \<longleftrightarrow>
     map (\<lambda>s. (si_size s, si_duration s)) samples = rest
     \<and> (\<forall>i < length rest. si_start_cts (samples ! i) = min U64_MAX (t + sum_list (map snd (take i rest))))
     \<and> (\<forall>j < length chunks. \<forall>k < snd (chunks ! j).
          let b = sum_list (map snd (take j chunks))
          in si_chunk_index (samples ! (b + k)) = (c + j) mod 2 ^ 32
             \<and> si_offset (samples ! (b + k)) = (fst (chunks ! j) + sum_list (map fst (take k (drop b rest)))) mod 2 ^ 64)"

lemma place_chunks_placed:
  assumes "sum_list (map snd chunks) = length rest" and "\<forall>(off, n) \<in> set chunks. off < 2 ^ 64"
  shows "placed c chunks t rest (place_chunks c chunks (min U64_MAX t) rest)"
  using assms
proof (induction chunks arbitrary: c t rest)
  case Nil
  then show ?case by (simp add: placed_def)
next
  case (Cons chunk chunks)
  obtain off n where chunk: "chunk = (off, n)" by (cases chunk)
  let ?t = "t + sum_list (map snd (take n rest))"
  let ?here = "map (sample_of c off t rest) [0..<n]"
  let ?there = "place_chunks (Suc c) chunks (min U64_MAX ?t) (drop n rest)"
  have n: "n \<le> length rest" and rest: "sum_list (map snd chunks) = length (drop n rest)" using Cons.prems(1) by (auto simp: chunk)
  have all: "place_chunks c (chunk # chunks) (min U64_MAX t) rest = ?here @ ?there"
    using Cons.prems(2) n by (simp add: chunk chunk_samples_spec)
  have IH: "placed (Suc c) chunks ?t (drop n rest) ?there" using Cons.IH [OF rest] Cons.prems(2) by simp
  have "map (\<lambda>s. (si_size s, si_duration s)) ?here = take n rest"
    using n by (intro nth_equalityI) (simp_all add: sample_of_def)
  then have pairs: "map (\<lambda>s. (si_size s, si_duration s)) (?here @ ?there) = rest" using IH by (simp add: placed_def)
  have times: "si_start_cts ((?here @ ?there) ! i) = min U64_MAX (t + sum_list (map snd (take i rest)))" if "i < length rest" for i
  proof (cases "i < n")
    case True
    then show ?thesis by (simp add: nth_append sample_of_def)
  next
    case False
    then have "take i rest = take n rest @ take (i - n) (drop n rest)" by (simp add: take_add [symmetric])
    then show ?thesis using False that IH by (simp add: nth_append placed_def add.assoc)
  qed
  have places: "let b = sum_list (map snd (take j (chunk # chunks)))
      in si_chunk_index ((?here @ ?there) ! (b + k)) = (c + j) mod 2 ^ 32
        \<and> si_offset ((?here @ ?there) ! (b + k)) = (fst ((chunk # chunks) ! j) + sum_list (map fst (take k (drop b rest)))) mod 2 ^ 64"
    if "j < length (chunk # chunks)" "k < snd ((chunk # chunks) ! j)" for j k
  proof (cases j)
    case 0
    then show ?thesis using that by (simp add: chunk nth_append sample_of_def)
  next
    case (Suc j')
    then show ?thesis using that IH by (simp add: chunk nth_append placed_def Let_def add.assoc add.commute [of _ n])
  qed
  show ?case unfolding all using pairs times places by (simp add: placed_def del: nth_append map_append)
qed

lemma build_samples_Inr:
  assumes "build_samples stts stsc sample_sizes chunk_offsets = Inr samples" and "\<forall>off \<in> set chunk_offsets. off < 2 ^ 64"
  obtains durations where "fit_durations (expand_durations stts) (length sample_sizes) = Inr durations"
    "sum_list (map (samples_in_chunk stsc) [0..<length chunk_offsets]) = length sample_sizes"
    "placed 0 (zip chunk_offsets (map (samples_in_chunk stsc) [0..<length chunk_offsets])) 0 (zip sample_sizes durations) samples"
proof -
  obtain durations where d: "fit_durations (expand_durations stts) (length sample_sizes) = Inr durations"
    and total: "sum_list (map (samples_in_chunk stsc) [0..<length chunk_offsets]) = length sample_sizes"
    and samples: "samples = place_chunks 0 (zip chunk_offsets (map (samples_in_chunk stsc) [0..<length chunk_offsets])) 0 (zip sample_sizes durations)"
    using assms(1) by (auto simp: build_samples_def Let_def split: if_splits sum.splits)
  have "map snd (zip chunk_offsets (map (samples_in_chunk stsc) [0..<length chunk_offsets])) = map (samples_in_chunk stsc) [0..<length chunk_offsets]"
    by simp
  then have "placed 0 (zip chunk_offsets (map (samples_in_chunk stsc) [0..<length chunk_offsets])) 0 (zip sample_sizes durations)
      (place_chunks 0 (zip chunk_offsets (map (samples_in_chunk stsc) [0..<length chunk_offsets])) (min U64_MAX 0) (zip sample_sizes durations))"
    by (intro place_chunks_placed)
      (use total assms(2) fit_durations_length [OF d] in \<open>auto dest!: set_zip_leftD simp del: map_snd_zip\<close>)
  then show ?thesis using that [OF d total] by (simp add: samples)
qed

lemma placed_facts:
  assumes "placed c chunks t (zip sizes durations) samples" and "length durations = length sizes"
  shows "length samples = length sizes" and "map si_size samples = sizes" and "map si_duration samples = durations"
    and "\<And>i. i < length samples \<Longrightarrow> si_start_cts (samples ! i) = min U64_MAX (t + sum_list (take i durations))"
proof -
  have pairs: "map (\<lambda>s. (si_size s, si_duration s)) samples = zip sizes durations" using assms(1) by (simp add: placed_def)
  show len: "length samples = length sizes" using arg_cong [OF pairs, of length] assms(2) by simp
  show "map si_size samples = sizes" using arg_cong [OF pairs, of "map fst"] assms(2) by (simp add: comp_def)
  show "map si_duration samples = durations" using arg_cong [OF pairs, of "map snd"] assms(2) by (simp add: comp_def)
  show "si_start_cts (samples ! i) = min U64_MAX (t + sum_list (take i durations))" if "i < length samples" for i
    using that assms len by (simp add: placed_def take_zip)
qed

lemma placed_chunk:
  assumes "placed c chunks t rest samples" and "j < length chunks" and "k < snd (chunks ! j)"
  shows "let b = sum_list (map snd (take j chunks))
    in si_chunk_index (samples ! (b + k)) = (c + j) mod 2 ^ 32
      \<and> si_offset (samples ! (b + k)) = (fst (chunks ! j) + sum_list (map fst (take k (drop b rest)))) mod 2 ^ 64"
  using assms unfolding placed_def by blast

text \<open>C27: The sample table is what the boxes say. When building it succeeds, there is one entry per sample size, with the
  durations of the \<open>stts\<close> runs cut or padded to that number; each sample starts, in saturating arithmetic, when its
  predecessors end; and the \<open>k\<close>-th sample of a chunk lies behind the \<open>k\<close> samples before it from the chunk's offset.\<close>

theorem sample_table_exact:
  assumes "build_samples stts stsc sample_sizes chunk_offsets = Inr samples" and "\<forall>off \<in> set chunk_offsets. off < 2 ^ 64"
  shows "map si_size samples = sample_sizes
    \<and> fit_durations (expand_durations stts) (length sample_sizes) = Inr (map si_duration samples)
    \<and> (\<forall>i < length samples. si_start_cts (samples ! i) = min U64_MAX (sum_list (map si_duration (take i samples))))
    \<and> sum_list (map (samples_in_chunk stsc) [0..<length chunk_offsets]) = length samples
    \<and> (\<forall>c < length chunk_offsets. \<forall>k < samples_in_chunk stsc c.
         let b = sum_list (map (samples_in_chunk stsc) [0..<c])
         in si_chunk_index (samples ! (b + k)) = c mod 2 ^ 32
            \<and> si_offset (samples ! (b + k)) = (chunk_offsets ! c + sum_list (take k (drop b sample_sizes))) mod 2 ^ 64)"
proof -
  obtain durations where b: "fit_durations (expand_durations stts) (length sample_sizes) = Inr durations"
    "sum_list (map (samples_in_chunk stsc) [0..<length chunk_offsets]) = length sample_sizes"
    "placed 0 (zip chunk_offsets (map (samples_in_chunk stsc) [0..<length chunk_offsets])) 0 (zip sample_sizes durations) samples"
    using assms by (rule build_samples_Inr)
  have len: "length durations = length sample_sizes" using b(1) by (rule fit_durations_length)
  note facts = placed_facts [OF b(3) len]
  have "let p = sum_list (map (samples_in_chunk stsc) [0..<c])
      in si_chunk_index (samples ! (p + k)) = c mod 2 ^ 32
        \<and> si_offset (samples ! (p + k)) = (chunk_offsets ! c + sum_list (take k (drop p sample_sizes))) mod 2 ^ 64"
    if c: "c < length chunk_offsets" and k: "k < samples_in_chunk stsc c" for c k
  proof -
    have "map snd (take c (zip chunk_offsets (map (samples_in_chunk stsc) [0..<length chunk_offsets]))) = map (samples_in_chunk stsc) [0..<c]"
      using c by (simp add: take_zip take_map)
    moreover have "map fst (take k (drop p (zip sample_sizes durations))) = take k (drop p sample_sizes)" for p
      using len by (simp add: take_zip drop_zip)
    ultimately show ?thesis
      using placed_chunk [OF b(3), of c k] c k by (simp add: Let_def)
  qed
  then show ?thesis using b(1,2) facts by (simp add: take_map [symmetric])
qed

section \<open>The window\<close>

definition overlaps :: "nat \<Rightarrow> nat option \<Rightarrow> SampleInfo \<Rightarrow> bool" where
  "overlaps start_ticks end_ticks s \<longleftrightarrow>
     start_ticks < u64_saturating_add (si_start_cts s) (si_duration s)
     \<and> (case end_ticks of None \<Rightarrow> True | Some e \<Rightarrow> si_start_cts s < e)"

lemma select_loop_overlaps:
  assumes "sorted (map si_start_cts samples)"
  shows "select_loop a e index samples = map ((+) index) (filter (\<lambda>k. overlaps a e (samples ! k)) [0..<length samples])"
  using assms
proof (induction samples arbitrary: index)
  case (Cons s samples)
  have later: "filter (\<lambda>k. overlaps a e ((s # samples) ! k)) [Suc 0..<Suc (length samples)]
      = map Suc (filter (\<lambda>k. overlaps a e (samples ! k)) [0..<length samples])"
    by (simp add: map_Suc_upt [symmetric] filter_map comp_def del: upt_Suc)
  have IH: "select_loop a e (Suc index) samples = map ((+) (Suc index)) (filter (\<lambda>k. overlaps a e (samples ! k)) [0..<length samples])"
    using Cons by simp
  have after: "si_start_cts s \<le> si_start_cts (samples ! k)" if "k < length samples" for k
    using Cons.prems nth_mem [OF that] by auto
  have none: "filter (\<lambda>k. overlaps a e (samples ! k)) [0..<length samples] = []" if "e = Some t" "t \<le> si_start_cts s" for t
    using after that by (auto simp: overlaps_def filter_empty_conv not_less intro: order_trans)
  have "[0..<length (s # samples)] = 0 # [Suc 0..<Suc (length samples)]" by (simp add: upt_rec)
  then show ?case
    using IH later none by (auto simp: overlaps_def not_less not_le simp del: upt_Suc split: option.splits)
qed simp

lemma sorted_times:
  assumes "\<And>i. i < length samples \<Longrightarrow> si_start_cts (samples ! i) = min U64_MAX (t + sum_list (take i durations))"
    and "length durations = length samples"
  shows "sorted (map si_start_cts samples)"
proof (unfold sorted_iff_nth_mono, intro allI impI)
  fix i j assume ij: "i \<le> j" "j < length (map si_start_cts samples)"
  then have "take j durations = take i durations @ take (j - i) (drop i durations)" by (simp add: take_add [symmetric])
  then show "map si_start_cts samples ! i \<le> map si_start_cts samples ! j"
    using ij assms by (simp add: min_le_iff_disj)
qed


definition demo_stsc :: "ChunkMapEntry list" where
  "demo_stsc = [\<lparr>cm_first_chunk = 1, cm_samples_per_chunk = 2, cm_sample_description_index = 1\<rparr>]"

definition demo_samples :: "SampleInfo list" where
  "demo_samples =
     [\<lparr>si_offset = 100, si_size = 3, si_start_cts = 0, si_duration = 5, si_chunk_index = 0\<rparr>,
      \<lparr>si_offset = 103, si_size = 4, si_start_cts = 5, si_duration = 5, si_chunk_index = 0\<rparr>]"

lemma demo_build: "build_samples [(2, 5)] demo_stsc [3, 4] [100] = Inr demo_samples"
proof -
  have "expand_durations [(2, 5)] = [5, 5]" "samples_in_chunk demo_stsc 0 = 2" by code_simp (simp add: samples_in_chunk_def demo_stsc_def)
  moreover have "chunk_samples 0 (Suc (Suc 0)) 100 0 [(3, 5), (4, 5)] = (demo_samples, 10, [])"
    by (simp add: demo_samples_def u64_saturating_add_def U64_MAX_def u64_add_def)
  ultimately show ?thesis by (simp add: build_samples_def fit_durations_def demo_stsc_def numeral_2_eq_2)
qed

theorem sample_table_exact_witness: "si_offset (demo_samples ! 1) = 100 + 3"
  using sample_table_exact [OF demo_build]
  by (auto simp: demo_stsc_def samples_in_chunk_def dest!: spec [of _ 1])


end
