(* ===== verification/Mp4_Parser.thy ===== *)
theory Mp4_Parser
  imports Mp4_Samples
begin

text \<open>
  Parsing a progressive MP4 file (\<^verbatim>\<open>crates/bookclerk-mp4/src/parser.rs\<close>): the scan for the top-level boxes, the movie and
  track headers, the sample tables, and the MPEG-4 descriptors of the decoder configuration. Parsers that walk boxes are
  partial: \<open>None\<close> is a walk that never ends. Opening the file and the path stored in the result are left out.
\<close>

definition and_then :: "(Mp4Error + 'a) option \<Rightarrow> ('a \<Rightarrow> (Mp4Error + 'b) option) \<Rightarrow> (Mp4Error + 'b) option" where
  "and_then m f = Option.bind m (\<lambda>r. case r of Inl err \<Rightarrow> Some (Inl err) | Inr a \<Rightarrow> f a)"

lemma and_then_simps [simp]:
  "and_then None f = None" "and_then (Some (Inl err)) f = Some (Inl err)" "and_then (Some (Inr a)) f = f a"
  by (simp_all add: and_then_def)

lemma and_then_Inr: "and_then m f = Some (Inr b) \<longleftrightarrow> (\<exists>a. m = Some (Inr a) \<and> f a = Some (Inr b))"
  by (cases m) (auto simp: and_then_def split: sum.splits)

lemma and_then_returns:
  "\<exists>r. m = Some r \<Longrightarrow> (\<And>a. m = Some (Inr a) \<Longrightarrow> \<exists>r. f a = Some r) \<Longrightarrow> \<exists>r. and_then m f = Some r"
  by (cases m) (auto simp: and_then_def split: sum.splits)

definition required :: "'a option \<Rightarrow> (Mp4Error + 'a) option" where
  "required x = Some (case x of None \<Rightarrow> Inl Container | Some a \<Rightarrow> Inr a)"

datatype SampleEntryKind = Aavd | Mp4a | Enca | Other bytes

record AudioTrack =
  at_trak :: BoxHeader
  at_timescale :: nat
  at_duration :: nat
  at_sample_entry_kind :: SampleEntryKind
  at_sample_entry_type_offset :: nat
  at_samples :: "SampleInfo list"

record Mp4File =
  mf_file_size :: nat
  mf_ftyp :: BoxHeader
  mf_moov :: BoxHeader
  mf_mdat :: BoxHeader
  mf_major_brand :: bytes
  mf_compatible_brands :: "bytes list"
  mf_mvhd_timescale :: nat
  mf_mvhd_duration :: nat
  mf_audio :: AudioTrack
  mf_moov_bytes :: bytes
  mf_ftyp_bytes :: bytes

section \<open>Top-level scan\<close>

partial_function (option) scan_boxes ::
  "bytes \<Rightarrow> nat \<Rightarrow> BoxHeader option \<times> BoxHeader option \<times> BoxHeader option
     \<Rightarrow> (Mp4Error + BoxHeader option \<times> BoxHeader option \<times> BoxHeader option) option" where
  "scan_boxes file pos found =
     (if u64_add pos 8 \<le> length file then
        (case seek pos of
           Inl err \<Rightarrow> Some (Inl err)
         | Inr p \<Rightarrow>
             (case read_box_header file p of
                Inl err \<Rightarrow> Some (Inl err)
              | Inr (header, q) \<Rightarrow>
                  (case found of
                     (ftyp, moov, mdat) \<Rightarrow>
                       let found' = (if bh_kind header = ''ftyp'' \<and> ftyp = None then (Some header, moov, mdat)
                                     else if bh_kind header = ''moov'' \<and> moov = None then (ftyp, Some header, mdat)
                                     else if bh_kind header = ''mdat'' \<and> mdat = None then (ftyp, moov, Some header)
                                     else found)
                       in if bh_size header = 0 then Some (Inr found') else scan_boxes file (box_end header) found')))
      else Some (Inr found))"

section \<open>Headers\<close>

function read_brands :: "bytes \<Rightarrow> nat \<Rightarrow> nat \<Rightarrow> Mp4Error + bytes list" where
  "read_brands file pos end =
     (if u64_add pos 4 \<le> end then
        (case read_fourcc file pos of
           Inl err \<Rightarrow> Inl err
         | Inr (brand, p) \<Rightarrow> (case read_brands file p end of Inl err \<Rightarrow> Inl err | Inr brands \<Rightarrow> Inr (brand # brands)))
      else Inr [])"
  by pat_completeness auto
termination
  by (relation "measure (\<lambda>(file, pos, end). length file - pos)") (auto simp: read_fourcc_def read_array_Inr)

declare read_brands.simps [simp del]

definition parse_ftyp :: "bytes \<Rightarrow> BoxHeader \<Rightarrow> Mp4Error + bytes \<times> bytes list" where
  "parse_ftyp file ftyp =
     (case seek (content_start ftyp) of
        Inl err \<Rightarrow> Inl err
      | Inr pos \<Rightarrow>
          (case read_fourcc file pos of
             Inl err \<Rightarrow> Inl err
           | Inr (major, p) \<Rightarrow>
               (case read_u32 file p of
                  Inl err \<Rightarrow> Inl err
                | Inr (minor, q) \<Rightarrow>
                    (case read_brands file q (box_end ftyp) of Inl err \<Rightarrow> Inl err | Inr brands \<Rightarrow> Inr (major, brands)))))"

text \<open>The body that \<open>mvhd\<close> and \<open>mdhd\<close> share: version and flags, two timestamps, timescale and duration.\<close>

definition read_timescale :: "bytes \<Rightarrow> BoxHeader \<Rightarrow> Mp4Error + nat \<times> nat" where
  "read_timescale file h =
     (case seek (content_start h) of
        Inl err \<Rightarrow> Inl err
      | Inr pos \<Rightarrow>
          (case read_full_box_version_flags file pos of
             Inl err \<Rightarrow> Inl err
           | Inr ((version, flags), p) \<Rightarrow>
               let wide = (version = 1); read_time = (if wide then read_u64 else read_u32)
               in (case read_time file p of
                     Inl err \<Rightarrow> Inl err
                   | Inr (ctime, q) \<Rightarrow>
                       (case read_time file q of
                          Inl err \<Rightarrow> Inl err
                        | Inr (mtime, r) \<Rightarrow>
                            (case read_u32 file r of
                               Inl err \<Rightarrow> Inl err
                             | Inr (timescale, s) \<Rightarrow>
                                 (case read_time file s of Inl err \<Rightarrow> Inl err | Inr (duration, t) \<Rightarrow> Inr (timescale, duration)))))))"

definition child :: "bytes \<Rightarrow> BoxHeader \<Rightarrow> bytes \<Rightarrow> (Mp4Error + BoxHeader option) option" where
  "child file h want = find_child file (content_start h) (box_end h) want"

definition parse_mvhd :: "bytes \<Rightarrow> BoxHeader \<Rightarrow> (Mp4Error + nat \<times> nat) option" where
  "parse_mvhd file moov =
     and_then (child file moov ''mvhd'') (\<lambda>found.
       and_then (required found) (\<lambda>mvhd. Some (read_timescale file mvhd)))"

section \<open>Sample tables\<close>

definition parse_stsd :: "bytes \<Rightarrow> BoxHeader \<Rightarrow> (Mp4Error + SampleEntryKind \<times> nat) option" where
  "parse_stsd file stbl =
     and_then (child file stbl ''stsd'') (\<lambda>found.
     and_then (required found) (\<lambda>stsd.
     and_then (Some (seek (content_start stsd))) (\<lambda>pos.
     and_then (Some (read_full_box_version_flags file pos)) (\<lambda>(vf, p).
     and_then (Some (read_u32 file p)) (\<lambda>(entry_count, q).
       if entry_count = 0 then Some (Inl Container)
       else
         and_then (Some (read_u32 file q)) (\<lambda>(entry_size, type_offset).
         and_then (Some (read_fourcc file type_offset)) (\<lambda>(entry_type, r).
           Some (Inr (if entry_type = ''aavd'' then Aavd
                      else if entry_type = ''mp4a'' then Mp4a
                      else if entry_type = ''enca'' then Enca
                      else Other entry_type, type_offset)))))))))"

text \<open>\<open>n\<close> rows of a table, read one after the other.\<close>

fun read_rows :: "(nat \<Rightarrow> Mp4Error + 'r \<times> nat) \<Rightarrow> nat \<Rightarrow> nat \<Rightarrow> Mp4Error + 'r list" where
  "read_rows row 0 pos = Inr []"
| "read_rows row (Suc n) pos =
     (case row pos of
        Inl err \<Rightarrow> Inl err
      | Inr (r, p) \<Rightarrow> (case read_rows row n p of Inl err \<Rightarrow> Inl err | Inr rs \<Rightarrow> Inr (r # rs)))"

definition read_pair :: "bytes \<Rightarrow> nat \<Rightarrow> Mp4Error + (nat \<times> nat) \<times> nat" where
  "read_pair file pos =
     (case read_u32 file pos of
        Inl err \<Rightarrow> Inl err
      | Inr (a, p) \<Rightarrow> (case read_u32 file p of Inl err \<Rightarrow> Inl err | Inr (b, q) \<Rightarrow> Inr ((a, b), q)))"

definition read_chunk_map_entry :: "bytes \<Rightarrow> nat \<Rightarrow> Mp4Error + ChunkMapEntry \<times> nat" where
  "read_chunk_map_entry file pos =
     (case read_pair file pos of
        Inl err \<Rightarrow> Inl err
      | Inr ((a, b), p) \<Rightarrow>
          (case read_u32 file p of
             Inl err \<Rightarrow> Inl err
           | Inr (c, q) \<Rightarrow>
               Inr (\<lparr>cm_first_chunk = a, cm_samples_per_chunk = b, cm_sample_description_index = c\<rparr>, q)))"

text \<open>A table box after it was found: version and flags, the count, and the rows that fit.\<close>

definition read_table :: "bytes \<Rightarrow> (nat \<Rightarrow> Mp4Error + 'r \<times> nat) \<Rightarrow> nat \<Rightarrow> BoxHeader \<Rightarrow> Mp4Error + 'r list" where
  "read_table file row row_bytes h =
     (case seek (content_start h) of
        Inl err \<Rightarrow> Inl err
      | Inr pos \<Rightarrow>
          (case read_full_box_version_flags file pos of
             Inl err \<Rightarrow> Inl err
           | Inr (vf, p) \<Rightarrow>
               (case read_u32 file p of
                  Inl err \<Rightarrow> Inl err
                | Inr (entry_count, q) \<Rightarrow>
                    (case ensure_table_entries entry_count row_bytes (content_len h - 8) of
                       Inl err \<Rightarrow> Inl err
                     | Inr n \<Rightarrow> read_rows row n q))))"

definition parse_stts :: "bytes \<Rightarrow> BoxHeader \<Rightarrow> (Mp4Error + (nat \<times> nat) list) option" where
  "parse_stts file stbl =
     and_then (child file stbl ''stts'') (\<lambda>found.
     and_then (required found) (\<lambda>stts. Some (read_table file (read_pair file) 8 stts)))"

definition parse_stsc :: "bytes \<Rightarrow> BoxHeader \<Rightarrow> (Mp4Error + ChunkMapEntry list) option" where
  "parse_stsc file stbl =
     and_then (child file stbl ''stsc'') (\<lambda>found.
     and_then (required found) (\<lambda>stsc. Some (read_table file (read_chunk_map_entry file) 12 stsc)))"

definition read_stsz :: "bytes \<Rightarrow> BoxHeader \<Rightarrow> Mp4Error + nat list" where
  "read_stsz file stsz =
     (case seek (content_start stsz) of
        Inl err \<Rightarrow> Inl err
      | Inr pos \<Rightarrow>
          (case read_full_box_version_flags file pos of
             Inl err \<Rightarrow> Inl err
           | Inr (vf, p) \<Rightarrow>
               (case read_pair file p of
                  Inl err \<Rightarrow> Inl err
                | Inr ((sample_size, sample_count), q) \<Rightarrow>
                    if sample_size \<noteq> 0 then
                      (case ensure_table_entries sample_count 1 MAX_MP4_TABLE_ENTRIES of
                         Inl err \<Rightarrow> Inl err
                       | Inr n \<Rightarrow> Inr (replicate n sample_size))
                    else
                      (case ensure_table_entries sample_count 4 (content_len stsz - 12) of
                         Inl err \<Rightarrow> Inl err
                       | Inr n \<Rightarrow> read_rows (read_u32 file) n q))))"

definition parse_stsz :: "bytes \<Rightarrow> BoxHeader \<Rightarrow> (Mp4Error + nat list) option" where
  "parse_stsz file stbl =
     and_then (child file stbl ''stsz'') (\<lambda>found.
       case found of
         Some stsz \<Rightarrow> Some (read_stsz file stsz)
       | None \<Rightarrow> and_then (child file stbl ''stz2'') (\<lambda>stz2. Some (Inl Container)))"

definition parse_chunk_offsets :: "bytes \<Rightarrow> BoxHeader \<Rightarrow> (Mp4Error + nat list) option" where
  "parse_chunk_offsets file stbl =
     and_then (child file stbl ''stco'') (\<lambda>found.
       case found of
         Some stco \<Rightarrow> Some (read_table file (read_u32 file) 4 stco)
       | None \<Rightarrow>
           and_then (child file stbl ''co64'') (\<lambda>found'.
             case found' of
               Some co64 \<Rightarrow> Some (read_table file (read_u64 file) 8 co64)
             | None \<Rightarrow> Some (Inl Container)))"

section \<open>The audio track\<close>

definition parse_audio_stbl :: "bytes \<Rightarrow> BoxHeader \<Rightarrow> nat \<times> nat \<Rightarrow> BoxHeader \<Rightarrow> (Mp4Error + AudioTrack) option" where
  "parse_audio_stbl file trak scale stbl =
     and_then (parse_stsd file stbl) (\<lambda>(kind, type_offset).
     and_then (parse_stts file stbl) (\<lambda>stts.
     and_then (parse_stsc file stbl) (\<lambda>stsc.
     and_then (parse_stsz file stbl) (\<lambda>sample_sizes.
     and_then (parse_chunk_offsets file stbl) (\<lambda>chunk_offsets.
     and_then (Some (build_samples stts stsc sample_sizes chunk_offsets)) (\<lambda>samples.
       Some (Inr \<lparr>at_trak = trak, at_timescale = fst scale, at_duration = snd scale, at_sample_entry_kind = kind,
         at_sample_entry_type_offset = type_offset, at_samples = samples\<rparr>)))))))"

definition read_handler :: "bytes \<Rightarrow> BoxHeader \<Rightarrow> Mp4Error + bytes" where
  "read_handler file hdlr =
     (case seek (content_start hdlr) of
        Inl err \<Rightarrow> Inl err
      | Inr pos \<Rightarrow>
          (case read_full_box_version_flags file pos of
             Inl err \<Rightarrow> Inl err
           | Inr (vf, p) \<Rightarrow>
               (case read_u32 file p of
                  Inl err \<Rightarrow> Inl err
                | Inr (pre, q) \<Rightarrow> (case read_fourcc file q of Inl err \<Rightarrow> Inl err | Inr (handler, r) \<Rightarrow> Inr handler))))"

definition parse_audio_mdia :: "bytes \<Rightarrow> BoxHeader \<Rightarrow> BoxHeader \<Rightarrow> (Mp4Error + AudioTrack) option" where
  "parse_audio_mdia file trak mdia =
     and_then (child file mdia ''mdhd'') (\<lambda>found.
     and_then (required found) (\<lambda>mdhd.
     and_then (Some (read_timescale file mdhd)) (\<lambda>scale.
     and_then (child file mdia ''minf'') (\<lambda>found.
     and_then (required found) (\<lambda>minf.
     and_then (child file minf ''stbl'') (\<lambda>found.
     and_then (required found) (\<lambda>stbl. parse_audio_stbl file trak scale stbl)))))))"

definition try_parse_audio_trak :: "bytes \<Rightarrow> BoxHeader \<Rightarrow> (Mp4Error + AudioTrack option) option" where
  "try_parse_audio_trak file trak =
     and_then (child file trak ''mdia'') (\<lambda>found.
       case found of
         None \<Rightarrow> Some (Inr None)
       | Some mdia \<Rightarrow>
           and_then (child file mdia ''hdlr'') (\<lambda>found.
             case found of
               None \<Rightarrow> Some (Inr None)
             | Some hdlr \<Rightarrow>
                 and_then (Some (read_handler file hdlr)) (\<lambda>handler.
                   if handler \<noteq> ''soun'' then Some (Inr None)
                   else and_then (parse_audio_mdia file trak mdia) (\<lambda>track. Some (Inr (Some track))))))"

definition parse_audio_track :: "bytes \<Rightarrow> BoxHeader \<Rightarrow> (Mp4Error + AudioTrack) option" where
  "parse_audio_track file moov =
     and_then
       (walk_children file (content_start moov) (box_end moov)
          (\<lambda>audio header.
             if bh_kind header \<noteq> ''trak'' \<or> audio \<noteq> None then Some (Inr audio)
             else try_parse_audio_trak file header) None)
       required"

definition parse_mp4 :: "bytes \<Rightarrow> (Mp4Error + Mp4File) option" where
  "parse_mp4 file =
     and_then (scan_boxes file 0 (None, None, None)) (\<lambda>(ftyp, moov, mdat).
     and_then (required ftyp) (\<lambda>ftyp.
     and_then (required moov) (\<lambda>moov.
     and_then (required mdat) (\<lambda>mdat.
     and_then (Some (parse_ftyp file ftyp)) (\<lambda>(major_brand, compatible_brands).
     and_then (parse_mvhd file moov) (\<lambda>(mvhd_timescale, mvhd_duration).
     and_then (parse_audio_track file moov) (\<lambda>audio.
       if U64_MAX < bh_start ftyp + bh_size ftyp \<or> U64_MAX < bh_start moov + bh_size moov then Some (Inl Container)
       else if length file < bh_start ftyp + bh_size ftyp \<or> length file < bh_start moov + bh_size moov then Some (Inl Container)
       else
         and_then (Some (seek (bh_start ftyp))) (\<lambda>p.
         and_then (Some (read_exact_vec file p (bh_size ftyp))) (\<lambda>ftyp_bytes.
         and_then (Some (seek (bh_start moov))) (\<lambda>q.
         and_then (Some (read_exact_vec file q (bh_size moov))) (\<lambda>moov_bytes.
           Some (Inr \<lparr>mf_file_size = length file, mf_ftyp = ftyp, mf_moov = moov, mf_mdat = mdat,
             mf_major_brand = major_brand, mf_compatible_brands = compatible_brands,
             mf_mvhd_timescale = mvhd_timescale, mf_mvhd_duration = mvhd_duration, mf_audio = audio,
             mf_moov_bytes = moov_bytes, mf_ftyp_bytes = ftyp_bytes\<rparr>))))))))))))"

section \<open>Termination\<close>

lemma scan_boxes_returns:
  assumes "no_wrap file" and "pos < 2 ^ 64"
  shows "\<exists>r. scan_boxes file pos found = Some r"
  using assms(2)
proof (induction "2 ^ 64 - pos" arbitrary: pos found rule: less_induct)
  case less
  show ?case
  proof (cases "u64_add pos 8 \<le> length file \<and> pos \<le> I64_MAX")
    case True
    show ?thesis
    proof (cases "read_box_header file pos")
      case (Inr hp)
      obtain h p where hp: "hp = (h, p)" by (cases hp)
      have "pos < box_end h"
        using box_end_no_wrap [OF assms(1) Inr [unfolded hp]] read_box_header_Inr(3) [OF Inr [unfolded hp]] by simp
      moreover have "box_end h < 2 ^ 64" unfolding box_end_def by (rule u64_add_less)
      ultimately have "\<exists>r. scan_boxes file (box_end h) found' = Some r" for found' using less.prems by (intro less.hyps) simp_all
      then show ?thesis
        using True Inr by (subst scan_boxes.simps) (auto simp: hp seek_def Let_def split: prod.split)
    qed (use True in \<open>subst scan_boxes.simps, simp add: seek_def\<close>)
  qed (subst scan_boxes.simps, auto simp: seek_def)
qed

lemma child_returns: "no_wrap file \<Longrightarrow> \<exists>r. child file h want = Some r"
  by (simp add: child_def find_child_returns)

lemma required_returns: "\<exists>r. required x = Some r"
  by (simp add: required_def)

lemmas parser_returns = and_then_returns child_returns required_returns

lemma parse_audio_stbl_returns: "no_wrap file \<Longrightarrow> \<exists>r. parse_audio_stbl file trak scale stbl = Some r"
  unfolding parse_audio_stbl_def parse_stsd_def parse_stts_def parse_stsc_def parse_stsz_def parse_chunk_offsets_def
  by (auto intro!: parser_returns split: option.split prod.split)

lemma try_parse_audio_trak_returns: "no_wrap file \<Longrightarrow> \<exists>r. try_parse_audio_trak file trak = Some r"
  unfolding try_parse_audio_trak_def parse_audio_mdia_def
  by (auto intro!: parser_returns parse_audio_stbl_returns split: option.split)

lemma parse_audio_track_returns:
  assumes "no_wrap file"
  shows "\<exists>r. parse_audio_track file moov = Some r"
proof -
  let ?visit = "\<lambda>audio header. if bh_kind header \<noteq> ''trak'' \<or> audio \<noteq> None then Some (Inr audio) else try_parse_audio_trak file header"
  have "?visit s h \<noteq> None" for s h using try_parse_audio_trak_returns [OF assms, of h] by auto
  then have "\<exists>r. walk_children file (content_start moov) (box_end moov) ?visit None = Some r"
    using walk_loop_returns [OF assms, of ?visit] by (auto simp: walk_children_def seek_def not_less split: sum.split)
  then show ?thesis unfolding parse_audio_track_def by (intro parser_returns)
qed

text \<open>C29: Parsing ends on every file whose boxes do not reach past the range of \<open>u64\<close>: it returns a parsed file or an error.\<close>

theorem parse_mp4_returns:
  assumes "no_wrap file"
  shows "\<exists>r. parse_mp4 file = Some r"
proof -
  have "\<exists>r. scan_boxes file 0 (None, None, None) = Some r" using assms by (rule scan_boxes_returns) simp
  moreover have "\<exists>r. parse_mvhd file moov = Some r" for moov
    unfolding parse_mvhd_def using assms by (intro parser_returns) auto
  ultimately show ?thesis
    unfolding parse_mp4_def using assms
    by (auto intro!: parser_returns parse_audio_track_returns split: prod.split)
qed

text \<open>A file shorter than \<open>2 ^ 63\<close> bytes whose 64-bit box sizes are below \<open>2 ^ 63\<close> is such a file.\<close>

lemma no_wrapI:
  assumes "length file \<le> I64_MAX"
    and "\<And>pos. pos + 16 \<le> length file \<Longrightarrow> be_at 4 file pos = 1 \<Longrightarrow> be_at 8 file (pos + 8) \<le> I64_MAX"
  shows "no_wrap file"
proof (unfold no_wrap_def, intro allI impI)
  fix pos h p assume r: "read_box_header file pos = Inr (h, p)"
  have "bh_size h \<le> I64_MAX"
    using r assms be_at_less [of 4 "file" pos]
    by (auto simp: read_box_header_def read_fourcc_def read_array_Inr read_int_Inr I64_MAX_def ac_simps
        split: sum.splits prod.splits if_splits)
  then show "bh_start h + bh_size h < 2 ^ 64" using read_box_header_Inr(1,2) [OF r] assms(1) by (simp add: I64_MAX_def)
qed

theorem parse_mp4_returns_witness: "\<exists>r. parse_mp4 (to_be 4 8 @ ''free'') = Some r"
  by (rule parse_mp4_returns, rule no_wrapI) (simp_all add: I64_MAX_def)

text \<open>A file of two boxes, the second of which declares a size that wraps its end around to the start of the file.\<close>

definition looping_file :: bytes where
  "looping_file = to_be 4 8 @ ''free'' @ to_be 4 1 @ ''free'' @ to_be 8 (2 ^ 64 - 8)"

lemma looping_file_boxes:
  "\<exists>h p. read_box_header looping_file 0 = Inr (h, p) \<and> bh_size h = 8 \<and> box_end h = 8"
  "\<exists>h p. read_box_header looping_file 8 = Inr (h, p) \<and> bh_size h = 2 ^ 64 - 8 \<and> box_end h = 0"
  "length looping_file = 24"
  by (simp_all add: looping_file_def read_box_header_def read_u32_def read_u64_def read_fourcc_def read_array_def slice_def
      byte_simps box_end_def u64_add_def)

text \<open>C40: Parsing can run for ever. On a file of 24 bytes whose second box ends, modulo \<open>2 ^ 64\<close>, where the first one starts,
  the scan for the top-level boxes goes round between the two and never returns.\<close>

theorem parse_mp4_can_loop: "parse_mp4 looping_file = None"
proof -
  have "pos = 0 \<or> pos = 8 \<Longrightarrow> False" if "scan_boxes looping_file pos found = Some r" for pos found r
    using that
  proof (induction looping_file pos found r rule: scan_boxes.raw_induct [rotated 1, consumes 1, case_names step])
    case (step scan pos found r)
    obtain h p where h: "read_box_header looping_file pos = Inr (h, p)" "bh_size h \<noteq> 0" "box_end h = 0 \<or> box_end h = 8"
      using step.prems looping_file_boxes(1,2) by fastforce
    have "u64_add pos 8 \<le> length looping_file" "seek pos = Inr pos"
      using step.prems looping_file_boxes(3) by (auto simp: u64_add_def I64_MAX_def)
    then obtain found' where "scan looping_file (box_end h) found' = Some r"
      using step.hyps h(1,2) by (auto simp: Let_def simp del: seek_Inr split: prod.splits)
    then show ?case using step.hyps h(3) by blast
  qed
  then have "scan_boxes looping_file 0 (None, None, None) = None" by (metis not_None_eq)
  then show ?thesis by (simp add: parse_mp4_def)
qed

section \<open>Decoder configuration\<close>

text \<open>A slice whose start lies behind its end panics.\<close>

datatype 'a run = Returned "Mp4Error + 'a" | Panicked

fun expandable_len_loop :: "nat \<Rightarrow> nat \<Rightarrow> bytes \<Rightarrow> nat \<Rightarrow> Mp4Error + nat \<times> nat" where
  "expandable_len_loop 0 len buf i = Inl Container"
| "expandable_len_loop (Suc n) len buf i =
     (if length buf \<le> i then Inl Container
      else let b = of_char (buf ! i); len' = len * 128 + b mod 128
           in if b < 128 then Inr (len', i + 1) else expandable_len_loop n len' buf (i + 1))"

definition read_expandable_len :: "bytes \<Rightarrow> nat \<Rightarrow> Mp4Error + nat \<times> nat" where
  "read_expandable_len buf i = expandable_len_loop 4 0 buf i"

lemma expandable_len_advances:
  "expandable_len_loop n len buf i = Inr (v, next) \<Longrightarrow> i < next \<and> next \<le> length buf"
  by (induction n len buf i rule: expandable_len_loop.induct) (fastforce simp: Let_def split: if_splits)+

lemma read_expandable_len_advances: "read_expandable_len buf i = Inr (v, next) \<Longrightarrow> i < next \<and> next \<le> length buf"
  unfolding read_expandable_len_def by (rule expandable_len_advances)

function find_desc_loop :: "bytes \<Rightarrow> nat \<Rightarrow> nat \<Rightarrow> Mp4Error + bytes option" where
  "find_desc_loop buf want i =
     (if i < length buf then
        let tag = of_char (buf ! i)
        in (case read_expandable_len buf (i + 1) of
              Inl err \<Rightarrow> Inl err
            | Inr (len, next) \<Rightarrow>
                if length buf < next + len then Inl Container
                else if tag = want then Inr (Some (slice buf next (next + len)))
                else if tag = 4 \<and> 13 \<le> len then
                  (case find_desc_loop (slice buf (next + 13) (next + len)) want 0 of
                     Inl err \<Rightarrow> Inl err
                   | Inr (Some asc) \<Rightarrow> Inr (Some asc)
                   | Inr None \<Rightarrow> find_desc_loop buf want (next + len))
                else find_desc_loop buf want (next + len))
      else Inr None)"
  by pat_completeness auto
termination
  by (relation "measures [\<lambda>(buf, want, i). length buf, \<lambda>(buf, want, i). length buf - i]")
    (auto simp: slice_def dest!: read_expandable_len_advances)

declare find_desc_loop.simps [simp del]

definition find_desc_tag :: "bytes \<Rightarrow> nat \<Rightarrow> Mp4Error + bytes option" where
  "find_desc_tag buf want = find_desc_loop buf want 0"

text \<open>Where the descriptors nested in an \<open>ES_Descriptor\<close> begin.\<close>

definition nested_start :: "bytes \<Rightarrow> nat \<Rightarrow> nat \<Rightarrow> Mp4Error + nat" where
  "nested_start box i end =
     (let flags = of_char (box ! (i + 2)) :: nat; nest = i + 3 + (if 128 \<le> flags then 2 else 0)
      in if flags div 64 mod 2 = 1 then
           if end \<le> nest then Inl Container
           else Inr (nest + 1 + of_char (box ! nest) + (if flags div 32 mod 2 = 1 then 2 else 0))
         else Inr (nest + (if flags div 32 mod 2 = 1 then 2 else 0)))"

function asc_loop :: "bytes \<Rightarrow> nat \<Rightarrow> bytes run" where
  "asc_loop box i =
     (if i < length box then
        let tag = of_char (box ! i) :: nat
        in (case read_expandable_len box (i + 1) of
              Inl err \<Rightarrow> Returned (Inl err)
            | Inr (len, next) \<Rightarrow>
                if length box < next + len then Returned (Inl Container)
                else if tag = 5 then Returned (Inr (slice box next (next + len)))
                else if tag = 3 then
                  if len < 3 then Returned (Inl Container)
                  else (case nested_start box next (next + len) of
                          Inl err \<Rightarrow> Returned (Inl err)
                        | Inr nest \<Rightarrow>
                            if next + len < nest then Panicked
                            else (case find_desc_tag (slice box nest (next + len)) 5 of
                                    Inl err \<Rightarrow> Returned (Inl err)
                                  | Inr (Some asc) \<Rightarrow> Returned (Inr asc)
                                  | Inr None \<Rightarrow> asc_loop box (next + len)))
                else if tag = 4 \<and> 13 \<le> len then
                  (case find_desc_tag (slice box (next + 13) (next + len)) 5 of
                     Inl err \<Rightarrow> Returned (Inl err)
                   | Inr (Some asc) \<Rightarrow> Returned (Inr asc)
                   | Inr None \<Rightarrow> asc_loop box (next + len))
                else asc_loop box (next + len))
      else Returned (Inl Container))"
  by pat_completeness auto
termination
  by (relation "measure (\<lambda>(box, i). length box - i)") (auto dest!: read_expandable_len_advances)

declare asc_loop.simps [simp del]

definition parse_asc_from_esds :: "bytes \<Rightarrow> bytes run" where
  "parse_asc_from_esds esds_box = (if length esds_box < 12 then Returned (Inl Container) else asc_loop esds_box 12)"

text \<open>A malformed \<open>esds\<close> box stops the program. An \<open>ES_Descriptor\<close> of three bytes whose flags announce a dependency has
  its nested descriptors start behind its end, and slicing there panics.\<close>

theorem short_descriptor_panics:
  assumes "length header = 12"
  shows "parse_asc_from_esds (header @ [CHR 0x03, CHR 0x03, a, b, CHR 0x80]) = Panicked"
proof -
  let ?box = "header @ [CHR 0x03, CHR 0x03, a, b, CHR 0x80]"
  have at: "?box ! 12 = CHR 0x03" "?box ! 13 = CHR 0x03" "?box ! 16 = CHR 0x80" "length ?box = 17"
    using assms by (simp_all add: nth_append)
  have "expandable_len_loop (Suc n) 0 ?box 13 = Inr (3, 14)" for n using at by simp
  from this [of 3] have len: "read_expandable_len ?box (12 + 1) = Inr (3, 14)" by (simp add: read_expandable_len_def)
  have nest: "nested_start ?box 14 (14 + 3) = Inr 19" using at(3) by (simp add: nested_start_def)
  have "asc_loop ?box 12 = Panicked"
    by (subst asc_loop.simps) (simp only: len at Let_def, simp add: nest [simplified])
  then show ?thesis using assms by (simp add: parse_asc_from_esds_def)
qed

theorem short_descriptor_panics_witness:
  "parse_asc_from_esds (replicate 12 (CHR 0x00) @ [CHR 0x03, CHR 0x03, CHR 0x00, CHR 0x01, CHR 0x80]) = Panicked"
  using short_descriptor_panics [of "replicate 12 (CHR 0x00)" "CHR 0x00" "CHR 0x01"] by simp

end
