(* ===== verification/Mp4_Edit.thy ===== *)
theory Mp4_Edit
  imports Mp4_Bytes
begin

text \<open>
  Editing a \<open>moov\<close> in memory (\<^verbatim>\<open>crates/bookclerk-mp4/src/edit.rs\<close>): finding a box, and replacing a range while the size
  fields of the enclosing boxes follow.
\<close>

definition CONTAINERS :: "bytes list" where
  "CONTAINERS = [''moov'', ''trak'', ''mdia'', ''minf'', ''stbl'', ''udta'']"

definition children_start :: "bytes \<Rightarrow> nat \<Rightarrow> nat option" where
  "children_start kind box_start =
     (if kind \<in> set [''moov'', ''trak'', ''mdia'', ''minf'', ''stbl'', ''udta'', ''sinf'', ''schi''] then Some (box_start + 8)
      else if kind = ''meta'' then Some (box_start + 12)
      else if kind = ''stsd'' then Some (box_start + 16)
      else if kind \<in> set [''enca'', ''mp4a'', ''aavd''] then Some (box_start + 36)
      else None)"

section \<open>Finding boxes\<close>

text \<open>One level of the search: the box if it is there, and otherwise the ranges to search next, the last one first.\<close>

function scan_level :: "bytes \<Rightarrow> bytes \<Rightarrow> nat \<Rightarrow> nat \<Rightarrow> (nat \<times> nat) list \<Rightarrow> (nat \<times> nat) + (nat \<times> nat) list" where
  "scan_level buf fourcc pos end stack =
     (if pos + 8 \<le> end then
        let size = be_at 4 buf pos
        in if size < 8 \<or> end < pos + size then Inr stack
           else let kind = slice buf (pos + 4) (pos + 8)
                in if kind = fourcc then Inl (pos, pos + size)
                   else scan_level buf fourcc (pos + size) end
                          (if kind \<in> set CONTAINERS then (pos + 8, pos + size) # stack
                           else if kind = ''meta'' then (pos + 12, pos + size) # stack
                           else stack)
      else Inr stack)"
  by pat_completeness auto
termination
  by (relation "measure (\<lambda>(buf, fourcc, pos, end, stack). end - pos)") auto

declare scan_level.simps [simp del]

text \<open>The ranges on the stack are disjoint and each level consumes eight bytes for every range it adds.\<close>

definition stack_bytes :: "(nat \<times> nat) list \<Rightarrow> nat" where
  "stack_bytes stack = sum_list (map (\<lambda>(start, end). Suc (end - start)) stack)"

lemma scan_level_bytes:
  "scan_level buf fourcc pos end stack = Inr stack' \<Longrightarrow> stack_bytes stack' \<le> stack_bytes stack + (end - pos)"
proof (induction buf fourcc pos "end" stack rule: scan_level.induct)
  case (1 buf fourcc pos "end" stack)
  let ?size = "be_at 4 buf pos" and ?kind = "slice buf (pos + 4) (pos + 8)"
  let ?stack = "if ?kind \<in> set CONTAINERS then (pos + 8, pos + ?size) # stack
    else if ?kind = ''meta'' then (pos + 12, pos + ?size) # stack else stack"
  show ?case
  proof (cases "pos + 8 \<le> end \<and> \<not> (?size < 8 \<or> end < pos + ?size) \<and> ?kind \<noteq> fourcc")
    case True
    then have "scan_level buf fourcc (pos + ?size) end ?stack = Inr stack'"
      using "1.prems" by (subst (asm) scan_level.simps) (simp add: Let_def)
    then have "stack_bytes stack' \<le> stack_bytes ?stack + (end - (pos + ?size))"
      using "1.IH" True by (simp add: Let_def)
    moreover have "stack_bytes ?stack \<le> stack_bytes stack + ?size" using True by (auto simp: stack_bytes_def)
    ultimately show ?thesis using True by linarith
  next
    case False
    then show ?thesis using "1.prems" by (subst (asm) scan_level.simps) (auto simp: Let_def split: if_splits)
  qed
qed

function find_box_loop :: "bytes \<Rightarrow> bytes \<Rightarrow> (nat \<times> nat) list \<Rightarrow> (nat \<times> nat) option" where
  "find_box_loop buf fourcc [] = None"
| "find_box_loop buf fourcc ((start, end) # stack) =
     (case scan_level buf fourcc start end stack of Inl found \<Rightarrow> Some found | Inr stack' \<Rightarrow> find_box_loop buf fourcc stack')"
  by pat_completeness auto
termination
  by (relation "measure (\<lambda>(buf, fourcc, stack). stack_bytes stack)")
    (auto simp: stack_bytes_def dest: scan_level_bytes [unfolded stack_bytes_def])

definition find_box_range :: "bytes \<Rightarrow> bytes \<Rightarrow> (nat \<times> nat) option" where
  "find_box_range buf fourcc = find_box_loop buf fourcc [(0, length buf)]"

function find_child_in_range :: "bytes \<Rightarrow> nat \<Rightarrow> nat \<Rightarrow> bytes \<Rightarrow> (nat \<times> nat) option" where
  "find_child_in_range buf pos end fourcc =
     (if pos + 8 \<le> min end (length buf) then
        let size = be_at 4 buf pos
        in if size < 8 \<or> end < pos + size then None
           else if slice buf (pos + 4) (pos + 8) = fourcc then Some (pos, pos + size)
           else find_child_in_range buf (pos + size) end fourcc
      else None)"
  by pat_completeness auto
termination
  by (relation "measure (\<lambda>(buf, pos, end, fourcc). end - pos)") auto

declare find_child_in_range.simps [simp del]

definition find_direct_child :: "bytes \<Rightarrow> nat \<Rightarrow> nat \<Rightarrow> bytes \<Rightarrow> Mp4Error + (nat \<times> nat) option" where
  "find_direct_child buf parent_start parent_end fourcc =
     (if length buf < parent_start + 8 then Inl Container
      else Inr (find_child_in_range buf
                 (parent_start + 8 + (if slice buf (parent_start + 4) (parent_start + 8) = ''meta'' then 4 else 0))
                 parent_end fourcc))"

section \<open>Splicing\<close>

text \<open>The box between two positions that strictly contains \<open>at\<close>.\<close>

function containing_box :: "bytes \<Rightarrow> nat \<Rightarrow> nat \<Rightarrow> nat \<Rightarrow> (nat \<times> nat) option" where
  "containing_box buf at pos end =
     (if pos + 8 \<le> end then
        let size = be_at 4 buf pos
        in if size < 8 \<or> end < pos + size then None
           else if pos < at \<and> at < pos + size then Some (pos, size)
           else containing_box buf at (pos + size) end
      else None)"
  by pat_completeness auto
termination
  by (relation "measure (\<lambda>(buf, at, pos, end). end - pos)") auto

declare containing_box.simps [simp del]

lemma containing_box_Some:
  "containing_box buf at pos end = Some (p, n) \<Longrightarrow> pos \<le> p \<and> 8 \<le> n \<and> p + n \<le> end \<and> p < at \<and> at < p + n \<and> n = be_at 4 buf p"
proof (induction buf at pos "end" rule: containing_box.induct)
  case (1 buf at pos "end")
  show ?case
  proof (cases "pos + 8 \<le> end \<and> \<not> (be_at 4 buf pos < 8 \<or> end < pos + be_at 4 buf pos) \<and> \<not> (pos < at \<and> at < pos + be_at 4 buf pos)")
    case True
    then have "containing_box buf at (pos + be_at 4 buf pos) end = Some (p, n)"
      using "1.prems" by (subst (asm) containing_box.simps) (auto simp: Let_def)
    then show ?thesis using "1.IH" True by (fastforce simp: Let_def)
  next
    case False
    then show ?thesis using "1.prems" by (subst (asm) containing_box.simps) (auto simp: Let_def split: if_splits)
  qed
qed

lemma children_start_bounds: "children_start kind p = Some content \<Longrightarrow> p + 8 \<le> content"
  by (auto simp: children_start_def split: if_splits)

function ancestor_size_offsets :: "bytes \<Rightarrow> nat \<Rightarrow> nat \<Rightarrow> nat \<Rightarrow> (nat \<times> nat) list" where
  "ancestor_size_offsets buf at pos end =
     (case containing_box buf at pos end of
        None \<Rightarrow> []
      | Some (p, box_size) \<Rightarrow>
          (p, box_size) #
          (case children_start (slice buf (p + 4) (p + 8)) p of
             None \<Rightarrow> []
           | Some content \<Rightarrow> ancestor_size_offsets buf at content (p + box_size)))"
  by pat_completeness auto
termination
  by (relation "measure (\<lambda>(buf, at, pos, end). end - pos)")
    (auto dest!: containing_box_Some children_start_bounds)

declare ancestor_size_offsets.simps [simp del]

text \<open>\<open>(old_size as i64 + delta) as u32\<close>, written where the field still lies in the buffer.\<close>

definition patch_size :: "int \<Rightarrow> nat \<times> nat \<Rightarrow> bytes \<Rightarrow> bytes" where
  "patch_size delta = (\<lambda>(offset, old_size) out.
     if offset + 4 \<le> length out then put out offset (to_be 4 (nat ((int old_size + delta) mod 2 ^ 32))) else out)"

definition splice_replace :: "bytes \<Rightarrow> nat \<Rightarrow> nat \<Rightarrow> bytes \<Rightarrow> Mp4Error + bytes" where
  "splice_replace buf start end replacement =
     (if end < start \<or> length buf < end then Inl Container
      else let delta = int (length replacement) - int (end - start);
               ancestors = (if delta = 0 then [] else ancestor_size_offsets buf start 0 (length buf));
               out = take start buf @ replacement @ drop end buf
           in Inr (fold (patch_size delta) ancestors out))"

section \<open>A splice keeps the tree of boxes\<close>

lemma ancestor_facts:
  assumes "(p, n) \<in> set (ancestor_size_offsets buf at pos end)"
  shows "pos \<le> p \<and> 8 \<le> n \<and> p + n \<le> end \<and> p < at \<and> at < p + n \<and> n = be_at 4 buf p"
  using assms
proof (induction buf at pos "end" rule: ancestor_size_offsets.induct)
  case (1 buf at pos "end")
  obtain q m where c: "containing_box buf at pos end = Some (q, m)"
    using "1.prems" ancestor_size_offsets.simps [of buf at pos "end"] by (cases "containing_box buf at pos end") auto
  note box = containing_box_Some [OF c]
  from "1.prems" consider "(p, n) = (q, m)"
    | content where "children_start (slice buf (q + 4) (q + 8)) q = Some content" "(p, n) \<in> set (ancestor_size_offsets buf at content (q + m))"
    using ancestor_size_offsets.simps [of buf at pos "end"]
    by (cases "children_start (slice buf (q + 4) (q + 8)) q") (auto simp: c)
  then show ?case
  proof cases
    case 2
    then show ?thesis using "1.IH" [OF c refl 2(1) 2(2)] children_start_bounds [OF 2(1)] box by auto
  qed (use box in simp)
qed

lemma ancestors_apart: "sorted_wrt (\<lambda>x y. fst x + 8 \<le> fst y) (ancestor_size_offsets buf at pos end)"
proof (induction buf at pos "end" rule: ancestor_size_offsets.induct)
  case (1 buf at pos "end")
  show ?case
  proof (cases "containing_box buf at pos end")
    case None
    then show ?thesis by (subst ancestor_size_offsets.simps) simp
  next
    case (Some qm)
    obtain q m where qm: "qm = (q, m)" by (cases qm)
    show ?thesis
    proof (cases "children_start (slice buf (q + 4) (q + 8)) q")
      case None
      then show ?thesis by (subst ancestor_size_offsets.simps) (simp add: Some qm)
    next
      case (Some content)
      have "q + 8 \<le> fst y" if "y \<in> set (ancestor_size_offsets buf at content (q + m))" for y
        using ancestor_facts [of "fst y" "snd y" buf at content "q + m"] that children_start_bounds [OF Some] by simp
      then show ?thesis
        using "1.IH" [OF _ refl Some] \<open>containing_box buf at pos end = Some qm\<close> Some
        by (subst ancestor_size_offsets.simps) (simp add: qm)
    qed
  qed
qed

text \<open>Writing the size fields of boxes that do not overlap, all before \<open>limit\<close>.\<close>

lemma length_patch_sizes: "length (fold (patch_size delta) es out) = length out"
  by (induction es arbitrary: out) (auto simp: patch_size_def byte_simps)

lemma patch_sizes_other:
  assumes "\<forall>(p, n) \<in> set es. i < p \<or> p + 4 \<le> i" and "i < length out"
  shows "fold (patch_size delta) es out ! i = out ! i"
  using assms by (induction es arbitrary: out) (auto simp: patch_size_def nth_put byte_simps)

lemma patch_sizes_field:
  assumes "sorted_wrt (\<lambda>x y. fst x + 8 \<le> fst y) es" and "(p, n) \<in> set es" and "p + 4 \<le> length out"
  shows "be_at 4 (fold (patch_size delta) es out) p = nat ((int n + delta) mod 2 ^ 32)"
  using assms
proof (induction es arbitrary: out)
  case (Cons e es)
  obtain q m where e: "e = (q, m)" by (cases e)
  have len: "length (patch_size delta e out) = length out" using length_patch_sizes [of delta "[e]" out] by simp
  show ?case
  proof (cases "(p, n) \<in> set es")
    case True
    then show ?thesis using Cons len by simp
  next
    case False
    then have pq: "p = q" "n = m" using Cons.prems(2) by (auto simp: e)
    have "be_at 4 (fold (patch_size delta) es (patch_size delta e out)) p = be_at 4 (patch_size delta e out) p"
    proof (rule be_at_eqI)
      show "length (fold (patch_size delta) es (patch_size delta e out)) = length (patch_size delta e out)"
        by (rule length_patch_sizes)
      fix i assume i: "p \<le> i" "i < p + 4" "i < length (patch_size delta e out)"
      have "\<forall>(p', n') \<in> set es. i < p' \<or> p' + 4 \<le> i" using Cons.prems(1) i pq by (fastforce simp: e)
      then show "fold (patch_size delta) es (patch_size delta e out) ! i = patch_size delta e out ! i"
        using i(3) by (rule patch_sizes_other)
    qed
    moreover have "nat ((int m + delta) mod 4294967296) < 4294967296" by (simp add: nat_less_iff)
    ultimately show ?thesis using Cons.prems(3) by (simp add: e pq patch_size_def byte_simps)
  qed
qed simp


definition demo_tree :: bytes where
  "demo_tree = to_be 4 28 @ ''moov'' @ to_be 4 8 @ ''free'' @ to_be 4 12 @ ''udta'' @ to_be 4 7"

lemma demo_splice:
  "ancestor_size_offsets demo_tree 8 0 (length demo_tree) = [(0, 28)]" "length demo_tree = 28"
  "splice_replace demo_tree 8 16 [] = Inr (to_be 4 20 @ drop 4 (take 8 demo_tree) @ drop 16 demo_tree)"
proof -
  show ancs: "ancestor_size_offsets demo_tree 8 0 (length demo_tree) = [(0, 28)]" "length demo_tree = 28" by code_simp+
  show "splice_replace demo_tree 8 16 [] = Inr (to_be 4 20 @ drop 4 (take 8 demo_tree) @ drop 16 demo_tree)"
    using ancs by (simp add: splice_replace_def patch_size_def put_def)
qed


end
