(* ===== verification/Mp4_Remux.thy ===== *)
theory Mp4_Remux
  imports Mp4_Parser Mp4_Edit Mp4_Moov
begin

text \<open>
  Copying the samples of a file into a new one (\<^verbatim>\<open>crates/bookclerk-mp4/src/remux.rs\<close>, and \<open>SampleReader::read_sample\<close> of
  \<^verbatim>\<open>read.rs\<close>): encoding the sample tables, rebuilding \<open>moov\<close>, and laying out \<open>ftyp\<close>, \<open>moov\<close> and \<open>mdat\<close>. The transform of
  the samples is an argument; a file is the list of its bytes, and opening and flushing it are left out.
\<close>

section \<open>Encoding the sample tables\<close>

fun run_lengths :: "(nat \<times> nat) list \<Rightarrow> nat list \<Rightarrow> (nat \<times> nat) list" where
  "run_lengths runs [] = runs"
| "run_lengths runs (d # durations) =
     (if runs \<noteq> [] \<and> snd (last runs) = d
      then run_lengths (butlast runs @ [((fst (last runs) + 1) mod 2 ^ 32, d)]) durations
      else run_lengths (runs @ [(1, d)]) durations)"

definition encode_stts :: "nat list \<Rightarrow> bytes" where
  "encode_stts durations =
     (let runs = run_lengths [] durations
      in to_be 4 (8 + 4 + 4 + length runs * 8) @ ''stts'' @ to_be 4 0 @ to_be 4 (length runs)
         @ concat (map (\<lambda>(count, delta). to_be 4 count @ to_be 4 delta) runs))"

definition encode_stsc_one_per_chunk :: bytes where
  "encode_stsc_one_per_chunk =
     to_be 4 (8 + 4 + 4 + 12) @ ''stsc'' @ to_be 4 0 @ to_be 4 1 @ to_be 4 1 @ to_be 4 1 @ to_be 4 1"

definition encode_stsz :: "nat list \<Rightarrow> bytes" where
  "encode_stsz sizes =
     to_be 4 (8 + 4 + 4 + 4 + length sizes * 4) @ ''stsz'' @ to_be 4 0 @ to_be 4 0 @ to_be 4 (length sizes)
     @ concat (map (to_be 4) sizes)"

definition encode_stco :: "nat list \<Rightarrow> bytes" where
  "encode_stco offsets =
     to_be 4 (8 + 4 + 4 + length offsets * 4) @ ''stco'' @ to_be 4 0 @ to_be 4 (length offsets) @ concat (map (to_be 4) offsets)"

definition encode_co64 :: "nat list \<Rightarrow> bytes" where
  "encode_co64 offsets =
     to_be 4 (8 + 4 + 4 + length offsets * 8) @ ''co64'' @ to_be 4 0 @ to_be 4 (length offsets) @ concat (map (to_be 8) offsets)"

section \<open>Rebuilding moov\<close>

definition clear_protection_markup :: "bytes \<Rightarrow> nat \<Rightarrow> Mp4Error + bytes" where
  "clear_protection_markup moov type_rel =
     (if length moov < type_rel + 4 then Inr moov
      else let entry_type = slice moov type_rel (type_rel + 4)
           in if entry_type = ''aavd'' then Inr (put moov type_rel ''mp4a'')
              else if entry_type \<noteq> ''enca'' then Inr moov
              else let entry_pos = type_rel - 4
                   in if length moov < entry_pos + 8 then Inl Container
                      else let entry_size = be_at 4 moov entry_pos; entry_end = entry_pos + entry_size
                           in if length moov < entry_end \<or> entry_size < 36 then Inl Container
                              else (case find_child_in_range moov (entry_pos + 36) entry_end ''sinf'' of
                                      None \<Rightarrow> Inl Container
                                    | Some (sinf, sinf_end) \<Rightarrow>
                                        (case find_child_in_range moov (sinf + 8) sinf_end ''frma'' of
                                           None \<Rightarrow> Inl Container
                                         | Some (frma, frma_end) \<Rightarrow>
                                             if frma_end < frma + 12 then Inl Container
                                             else splice_replace (put moov type_rel (slice moov (frma + 8) (frma + 12)))
                                                    sinf sinf_end [])))"

definition replace_stbl_child :: "bytes \<Rightarrow> bytes \<Rightarrow> bytes \<Rightarrow> Mp4Error + bytes" where
  "replace_stbl_child moov fourcc replacement =
     (case find_box_range moov ''stbl'' of
        None \<Rightarrow> Inl Container
      | Some (stbl_start, stbl_end) \<Rightarrow>
          (case find_direct_child moov stbl_start stbl_end fourcc of
             Inl err \<Rightarrow> Inl err
           | Inr None \<Rightarrow> Inl Container
           | Inr (Some (start, end)) \<Rightarrow> splice_replace moov start end replacement))"

definition replace_chunk_offset_box :: "bytes \<Rightarrow> bytes \<Rightarrow> Mp4Error + bytes" where
  "replace_chunk_offset_box moov replacement =
     (case find_box_range moov ''stbl'' of
        None \<Rightarrow> Inl Container
      | Some (stbl_start, stbl_end) \<Rightarrow>
          (case find_direct_child moov stbl_start stbl_end ''stco'' of
             Inl err \<Rightarrow> Inl err
           | Inr (Some (start, end)) \<Rightarrow> splice_replace moov start end replacement
           | Inr None \<Rightarrow>
               (case find_direct_child moov stbl_start stbl_end ''co64'' of
                  Inl err \<Rightarrow> Inl err
                | Inr (Some (start, end)) \<Rightarrow> splice_replace moov start end replacement
                | Inr None \<Rightarrow> Inl Container)))"

text \<open>The first of the names that \<open>stbl\<close> has as a child.\<close>

fun named_child :: "bytes \<Rightarrow> nat \<Rightarrow> nat \<Rightarrow> bytes list \<Rightarrow> Mp4Error + (nat \<times> nat) option" where
  "named_child moov stbl_start stbl_end [] = Inr None"
| "named_child moov stbl_start stbl_end (name # names) =
     (case find_direct_child moov stbl_start stbl_end name of
        Inl err \<Rightarrow> Inl err
      | Inr (Some found) \<Rightarrow> Inr (Some found)
      | Inr None \<Rightarrow> named_child moov stbl_start stbl_end names)"

lemma find_child_in_range_Some:
  "find_child_in_range buf pos end fourcc = Some (s, e) \<Longrightarrow> pos \<le> s \<and> s + 8 \<le> e \<and> e \<le> end"
proof (induction buf pos "end" fourcc rule: find_child_in_range.induct)
  case (1 buf pos "end" fourcc)
  show ?case
  proof (cases "pos + 8 \<le> min end (length buf) \<and> \<not> (be_at 4 buf pos < 8 \<or> end < pos + be_at 4 buf pos) \<and> slice buf (pos + 4) (pos + 8) \<noteq> fourcc")
    case True
    then have "find_child_in_range buf (pos + be_at 4 buf pos) end fourcc = Some (s, e)"
      using "1.prems" by (subst (asm) find_child_in_range.simps) (simp add: Let_def)
    then show ?thesis using "1.IH" True by (fastforce simp: Let_def)
  next
    case False
    then show ?thesis using "1.prems" by (subst (asm) find_child_in_range.simps) (auto simp: Let_def split: if_splits)
  qed
qed

lemma named_child_Some: "named_child moov a b names = Inr (Some (s, e)) \<Longrightarrow> s + 8 \<le> e"
  by (induction names)
    (auto simp: find_direct_child_def dest: find_child_in_range_Some split: sum.splits option.splits if_splits)

lemma splice_replace_length:
  "splice_replace buf start end replacement = Inr out \<Longrightarrow>
     start \<le> end \<and> end \<le> length buf \<and> length out = length buf - (end - start) + length replacement"
  by (auto simp: splice_replace_def Let_def length_patch_sizes split: if_splits)

function remove_stbl_children_named :: "bytes \<Rightarrow> bytes list \<Rightarrow> Mp4Error + bytes" where
  "remove_stbl_children_named moov names =
     (case find_box_range moov ''stbl'' of
        None \<Rightarrow> Inr moov
      | Some (stbl_start, stbl_end) \<Rightarrow>
          (case named_child moov stbl_start stbl_end names of
             Inl err \<Rightarrow> Inl err
           | Inr None \<Rightarrow> Inr moov
           | Inr (Some (start, end)) \<Rightarrow>
               (case splice_replace moov start end [] of
                  Inl err \<Rightarrow> Inl err
                | Inr moov' \<Rightarrow> remove_stbl_children_named moov' names)))"
  by pat_completeness auto
termination
  by (relation "measure (\<lambda>(moov, names). length moov)") (auto dest!: named_child_Some splice_replace_length)

declare remove_stbl_children_named.simps [simp del]

text \<open>Offset and width of the duration field behind the box start, by kind and version.\<close>

definition duration_field :: "bytes \<Rightarrow> nat \<Rightarrow> (nat \<times> nat) option" where
  "duration_field fourcc version =
     (if fourcc = ''mvhd'' \<or> fourcc = ''mdhd'' then Some (if version = 1 then (8 + 4 + 8 + 8 + 4, 8) else (8 + 4 + 4 + 4 + 4, 4))
      else if fourcc = ''tkhd'' then Some (if version = 1 then (8 + 4 + 8 + 8 + 4 + 4, 8) else (8 + 4 + 4 + 4 + 4 + 4, 4))
      else None)"

definition patch_named_duration :: "bytes \<Rightarrow> bytes \<Rightarrow> nat \<Rightarrow> bytes" where
  "patch_named_duration moov fourcc duration =
     (case find_box_range moov fourcc of
        None \<Rightarrow> moov
      | Some (start, end) \<Rightarrow>
          if end < start + 12 then moov
          else (case duration_field fourcc (be_at 1 moov (start + 8)) of
                  None \<Rightarrow> moov
                | Some (off, width) \<Rightarrow>
                    if start + off + width \<le> end then put moov (start + off) (to_be width duration) else moov))"

definition patch_duration_fields :: "bytes \<Rightarrow> nat \<Rightarrow> nat \<Rightarrow> bytes" where
  "patch_duration_fields moov media_duration movie_duration =
     patch_named_duration (patch_named_duration (patch_named_duration moov ''mvhd'' movie_duration) ''tkhd'' movie_duration)
       ''mdhd'' media_duration"

record ProgressiveWriteInput =
  pw_moov_bytes :: bytes
  pw_moov_file_start :: nat
  pw_sample_entry_type_offset :: nat
  pw_audio_timescale :: nat
  pw_mvhd_timescale :: nat
  pw_sample_sizes :: "nat list"
  pw_durations :: "nat list"

definition sum_res :: "Mp4Error + 'a \<Rightarrow> ('a \<Rightarrow> Mp4Error + 'b) \<Rightarrow> Mp4Error + 'b" where
  "sum_res r f = (case r of Inl err \<Rightarrow> Inl err | Inr a \<Rightarrow> f a)"

definition rebuild_moov :: "ProgressiveWriteInput \<Rightarrow> nat list \<Rightarrow> nat \<Rightarrow> Mp4Error + bytes" where
  "rebuild_moov inp chunk_offsets media_duration =
     (if length (pw_moov_bytes inp) < 8 then Inl Container
      else if pw_sample_entry_type_offset inp < pw_moov_file_start inp then Inl Container
      else
        sum_res (clear_protection_markup (pw_moov_bytes inp) (pw_sample_entry_type_offset inp - pw_moov_file_start inp)) (\<lambda>body.
        sum_res (replace_stbl_child body ''stts'' (encode_stts (pw_durations inp))) (\<lambda>body.
        sum_res (replace_stbl_child body ''stsc'' encode_stsc_one_per_chunk) (\<lambda>body.
        sum_res (replace_stbl_child body ''stsz'' (encode_stsz (pw_sample_sizes inp))) (\<lambda>body.
        sum_res (replace_chunk_offset_box body
                   (if list_ex (\<lambda>off. U32_MAX < off) chunk_offsets then encode_co64 chunk_offsets else encode_stco chunk_offsets)) (\<lambda>body.
        sum_res (remove_stbl_children_named body [''saiz'', ''saio'']) (\<lambda>body.
          let movie_duration = (if pw_mvhd_timescale inp = 0 \<or> pw_audio_timescale inp = 0 then media_duration
                                else (media_duration * pw_mvhd_timescale inp) mod 2 ^ 64 div pw_audio_timescale inp);
              body' = patch_duration_fields body media_duration movie_duration
          in Inr (put body' 0 (to_be 4 (length body'))))))))))"

section \<open>Writing the file\<close>

definition RESERVED_MOOV_SLACK :: nat where
  "RESERVED_MOOV_SLACK = 2 ^ 20"

definition MDAT_HEADER_LEN :: nat where
  "MDAT_HEADER_LEN = 16"

definition build_m4b_ftyp :: bytes where
  "build_m4b_ftyp = to_be 4 (8 + 8 + 4 * 4) @ ''ftyp'' @ ''M4B '' @ to_be 4 0 @ ''M4B '' @ ''mp42'' @ ''isom'' @ ''iso2''"

fun offsets_from :: "nat \<Rightarrow> nat list \<Rightarrow> nat list" where
  "offsets_from off [] = []"
| "offsets_from off (sz # sizes) = off # offsets_from (u64_saturating_add off sz) sizes"

definition media_duration_of :: "ProgressiveWriteInput \<Rightarrow> nat" where
  "media_duration_of inp = sum_list (pw_durations inp) mod 2 ^ 64"

definition payload_offsets :: "ProgressiveWriteInput \<Rightarrow> nat \<Rightarrow> nat list" where
  "payload_offsets inp moov_len = offsets_from (length build_m4b_ftyp + moov_len + MDAT_HEADER_LEN) (pw_sample_sizes inp)"

text \<open>The loop that matches the length of \<open>moov\<close> with the offsets written into it.\<close>

partial_function (option) layout_moov :: "ProgressiveWriteInput \<Rightarrow> nat \<Rightarrow> (Mp4Error + bytes) option" where
  "layout_moov inp moov_len =
     (case rebuild_moov inp (payload_offsets inp moov_len) (media_duration_of inp) of
        Inl err \<Rightarrow> Some (Inl err)
      | Inr built \<Rightarrow>
          (case pad_moov_to built (length built + RESERVED_MOOV_SLACK) of
             Inl err \<Rightarrow> Some (Inl err)
           | Inr moov \<Rightarrow> if length moov = moov_len then Some (Inr moov) else layout_moov inp (length moov)))"

fun write_samples :: "(nat \<Rightarrow> Mp4Error + bytes) \<Rightarrow> nat \<Rightarrow> nat list \<Rightarrow> Mp4Error + bytes" where
  "write_samples fill_sample i [] = Inr []"
| "write_samples fill_sample i (expected # sizes) =
     (case fill_sample i of
        Inl err \<Rightarrow> Inl err
      | Inr sample_buf \<Rightarrow>
          if length sample_buf mod 2 ^ 32 \<noteq> expected then Inl Container
          else (case write_samples fill_sample (Suc i) sizes of Inl err \<Rightarrow> Inl err | Inr out \<Rightarrow> Inr (sample_buf @ out)))"

definition mdat_header :: "nat \<Rightarrow> bytes" where
  "mdat_header payload_total = to_be 4 1 @ ''mdat'' @ to_be 8 (MDAT_HEADER_LEN + payload_total)"

definition m4b_file :: "ProgressiveWriteInput \<Rightarrow> bytes \<Rightarrow> bytes \<Rightarrow> bytes" where
  "m4b_file inp moov payload = build_m4b_ftyp @ moov @ mdat_header (sum_list (pw_sample_sizes inp)) @ payload"

definition write_progressive_m4b :: "ProgressiveWriteInput \<Rightarrow> (nat \<Rightarrow> Mp4Error + bytes) \<Rightarrow> (Mp4Error + bytes) option" where
  "write_progressive_m4b inp fill_sample =
     (if pw_sample_sizes inp = [] then Some (Inl Container)
      else if length (pw_sample_sizes inp) \<noteq> length (pw_durations inp) then Some (Inl Container)
      else
        and_then (layout_moov inp 0) (\<lambda>moov.
        and_then (Some (write_samples fill_sample 0 (pw_sample_sizes inp))) (\<lambda>payload.
          Some (Inr (m4b_file inp moov payload)))))"

section \<open>Remuxing\<close>

text \<open>\<open>SampleReader::read_sample\<close>; the buffered reader behaves as reads at absolute offsets.\<close>

definition read_sample :: "bytes \<Rightarrow> nat \<Rightarrow> nat \<Rightarrow> Mp4Error + bytes" where
  "read_sample file offset n =
     (case seek offset of
        Inl err \<Rightarrow> Inl err
      | Inr pos \<Rightarrow> if n = 0 \<or> pos + n \<le> length file then Inr (slice file pos (pos + n)) else Inl Io)"

record SampleTransform =
  st_retain :: "nat list \<Rightarrow> Mp4Error + unit"
  st_sample :: "nat \<Rightarrow> bytes \<Rightarrow> Mp4Error + bytes"

definition CopySamples :: SampleTransform where
  "CopySamples = \<lparr>st_retain = (\<lambda>kept. Inr ()), st_sample = (\<lambda>index payload. Inr payload)\<rparr>"

record TrimRange =
  tr_start_ms :: nat
  tr_end_ms :: "nat option"

definition remux_progressive :: "bytes \<Rightarrow> TrimRange option \<Rightarrow> SampleTransform \<Rightarrow> (Mp4Error + bytes) option" where
  "remux_progressive file window transform =
     and_then (parse_mp4 file) (\<lambda>mp4.
       let samples = at_samples (mf_audio mp4);
           kept = (case window of
                     Some t \<Rightarrow> select_samples_by_ms samples (at_timescale (mf_audio mp4)) (tr_start_ms t) (tr_end_ms t)
                   | None \<Rightarrow> [0..<length samples])
       in if kept = [] then Some (Inl Container)
          else and_then (Some (st_retain transform kept)) (\<lambda>u.
            write_progressive_m4b
              \<lparr>pw_moov_bytes = mf_moov_bytes mp4, pw_moov_file_start = bh_start (mf_moov mp4),
               pw_sample_entry_type_offset = at_sample_entry_type_offset (mf_audio mp4),
               pw_audio_timescale = at_timescale (mf_audio mp4), pw_mvhd_timescale = mf_mvhd_timescale mp4,
               pw_sample_sizes = map (\<lambda>i. si_size (samples ! i)) kept, pw_durations = map (\<lambda>i. si_duration (samples ! i)) kept\<rparr>
              (\<lambda>i. case read_sample file (si_offset (samples ! (kept ! i))) (si_size (samples ! (kept ! i))) of
                     Inl err \<Rightarrow> Inl err
                   | Inr buf \<Rightarrow> st_sample transform i buf)))"

end
