(* ===== verification/Mp4_Remux_Props.thy ===== *)
theory Mp4_Remux_Props
  imports Mp4_Remux
begin

text \<open>
  What remuxing guarantees: the encoded sample tables parse back to what was encoded, and the file that is written holds
  every payload where its sample table says.
\<close>

section \<open>Encoded tables parse back\<close>

definition holds_at :: "bytes \<Rightarrow> nat \<Rightarrow> bytes \<Rightarrow> bool" where
  "holds_at file pos bs \<longleftrightarrow> pos + length bs \<le> length file \<and> slice file pos (pos + length bs) = bs"

lemma holds_at_append: "holds_at file pos (xs @ ys) \<longleftrightarrow> holds_at file pos xs \<and> holds_at file (pos + length xs) ys"
proof -
  have "slice file pos (pos + length (xs @ ys)) = slice file pos (pos + length xs) @ slice file (pos + length xs) (pos + length xs + length ys)"
    by (simp add: slice_def take_add add.commute)
  moreover have "length (slice file pos (pos + length xs)) = length xs" if "pos + length xs \<le> length file"
    using that by (simp add: byte_simps)
  ultimately show ?thesis by (auto simp: holds_at_def add.assoc)
qed

lemma holds_at_read:
  "holds_at file pos (to_be 4 n) \<Longrightarrow> n < 2 ^ 32 \<Longrightarrow> read_u32 file pos = Inr (n, pos + 4)"
  "holds_at file pos (to_be 8 n) \<Longrightarrow> n < 2 ^ 64 \<Longrightarrow> read_u64 file pos = Inr (n, pos + 8)"
  by (auto simp: holds_at_def read_int_Inr be_at_def byte_simps)

lemma holds_at_flags: "holds_at file pos (to_be 4 0) \<Longrightarrow> \<exists>vf. read_full_box_version_flags file pos = Inr (vf, pos + 4)"
  by (auto simp: holds_at_def read_full_box_version_flags_def read_u8_def read_array_def)

lemma read_rows_holds:
  assumes "\<And>r pos. r \<in> set rs \<Longrightarrow> holds_at file pos (enc r) \<Longrightarrow> row pos = Inr (r, pos + length (enc r))"
    and "holds_at file pos (concat (map enc rs))"
  shows "read_rows row (length rs) pos = Inr rs"
  using assms
proof (induction rs arbitrary: pos)
  case (Cons r rs)
  have here: "holds_at file pos (enc r)" and rest: "holds_at file (pos + length (enc r)) (concat (map enc rs))"
    using Cons.prems(2) by (simp_all add: holds_at_append)
  have "row pos = Inr (r, pos + length (enc r))" using Cons.prems(1) [OF _ here] by simp
  moreover have "read_rows row (length rs) (pos + length (enc r)) = Inr rs" using Cons.IH [OF Cons.prems(1) rest] by simp
  ultimately show ?case by simp
qed simp

text \<open>The header of a box that was found at \<open>pos\<close>.\<close>

definition header_at :: "nat \<Rightarrow> bytes \<Rightarrow> BoxHeader" where
  "header_at pos bs = \<lparr>bh_start = pos, bh_size = length bs, bh_header_len = 8, bh_kind = slice bs 4 8\<rparr>"

lemma read_table_holds:
  assumes "holds_at file pos (bs @ to_be 4 0 @ to_be 4 (length rs) @ concat (map enc rs))" and "length bs = 8"
    and "\<And>r. r \<in> set rs \<Longrightarrow> length (enc r) = k" and "0 < k"
    and "\<And>r pos. r \<in> set rs \<Longrightarrow> holds_at file pos (enc r) \<Longrightarrow> row pos = Inr (r, pos + length (enc r))"
    and "length rs \<le> MAX_MP4_TABLE_ENTRIES" and "length file \<le> I64_MAX"
  shows "read_table file row k (header_at pos (bs @ to_be 4 0 @ to_be 4 (length rs) @ concat (map enc rs))) = Inr rs"
proof -
  let ?h = "header_at pos (bs @ to_be 4 0 @ to_be 4 (length rs) @ concat (map enc rs))"
  have parts: "holds_at file (pos + 8) (to_be 4 0)" "holds_at file (pos + 12) (to_be 4 (length rs))"
    "holds_at file (pos + 16) (concat (map enc rs))"
    using assms(1,2) by (simp_all add: holds_at_append ac_simps)
  obtain vf where vf: "read_full_box_version_flags file (pos + 8) = Inr (vf, pos + 12)"
    using holds_at_flags [OF parts(1)] by (auto simp: ac_simps)
  have count: "read_u32 file (pos + 12) = Inr (length rs, pos + 16)"
    using holds_at_read(1) [OF parts(2)] assms(6) by (simp add: MAX_MP4_TABLE_ENTRIES_def)
  have "length (concat (map enc rs)) = length rs * k" using assms(3) by (induction rs) simp_all
  then have fits: "ensure_table_entries (length rs) k (content_len ?h - 8) = Inr (length rs)"
    using assms(2,4,6) by (simp add: ensure_table_entries_def content_len_def header_at_def)
  have start: "content_start ?h = pos + 8" "seek (pos + 8) = Inr (pos + 8)"
    using assms(7) parts(1) by (simp_all add: content_start_def header_at_def holds_at_def I64_MAX_def)
  show ?thesis
    using read_rows_holds [OF assms(5) parts(3)] by (simp add: read_table_def start vf count fits del: seek_Inr)
qed

lemma read_pair_holds:
  assumes "holds_at file pos (to_be 4 a @ to_be 4 b)" and "a < 2 ^ 32" and "b < 2 ^ 32"
  shows "read_pair file pos = Inr ((a, b), pos + 8)"
proof -
  have h: "holds_at file pos (to_be 4 a)" "holds_at file (pos + 4) (to_be 4 b)" using assms(1) by (simp_all add: holds_at_append)
  show ?thesis using holds_at_read(1) [OF h(1) assms(2)] holds_at_read(1) [OF h(2) assms(3)] by (simp add: read_pair_def)
qed

definition runs_ok :: "(nat \<times> nat) list \<Rightarrow> nat \<Rightarrow> bool" where
  "runs_ok runs n \<longleftrightarrow> (\<forall>(c, d) \<in> set runs. c + n < 2 ^ 32 \<and> d < 2 ^ 32)"

lemma run_lengths_expand:
  assumes "runs_ok runs (length ds)" and "\<forall>d \<in> set ds. d < 2 ^ 32" and "length ds < 2 ^ 32"
  shows "expand_durations (run_lengths runs ds) = expand_durations runs @ ds \<and> runs_ok (run_lengths runs ds) 0
    \<and> length (run_lengths runs ds) \<le> length runs + length ds"
  using assms
proof (induction runs ds rule: run_lengths.induct)
  case (2 runs d ds)
  show ?case
  proof (cases "runs \<noteq> [] \<and> snd (last runs) = d")
    case True
    then obtain rs c where runs: "runs = rs @ [(c, d)]" by (metis append_butlast_last_id prod.collapse)
    have c: "(c + 1) mod 2 ^ 32 = c + 1" using "2.prems"(1) by (simp add: runs runs_ok_def)
    have eq: "butlast runs @ [((fst (last runs) + 1) mod 2 ^ 32, d)] = rs @ [(c + 1, d)]" using c by (simp add: runs)
    have cont: "run_lengths runs (d # ds) = run_lengths (rs @ [(c + 1, d)]) ds" unfolding eq [symmetric] using True by simp
    have "runs_ok (rs @ [(c + 1, d)]) (length ds)" using "2.prems"(1) by (fastforce simp: runs runs_ok_def)
    from "2.IH"(1) [OF True, unfolded eq, OF this] "2.prems"(2,3)
    have "expand_durations (run_lengths (rs @ [(c + 1, d)]) ds) = expand_durations (rs @ [(c + 1, d)]) @ ds
        \<and> runs_ok (run_lengths (rs @ [(c + 1, d)]) ds) 0 \<and> length (run_lengths (rs @ [(c + 1, d)]) ds) \<le> length (rs @ [(c + 1, d)]) + length ds"
      by simp
    then show ?thesis unfolding cont by (simp add: runs expand_durations_def replicate_append_same)
  next
    case False
    have "runs_ok (runs @ [(1, d)]) (length ds)" using "2.prems" by (auto simp: runs_ok_def)
    then show ?thesis using "2.IH"(2) [OF False] "2.prems"(2,3) False by (auto simp: expand_durations_def)
  qed
qed (auto simp: runs_ok_def)

lemma stts_parses:
  assumes "holds_at file pos (encode_stts durations)" and "length file \<le> I64_MAX" and "length durations \<le> MAX_MP4_TABLE_ENTRIES"
    and "\<forall>d \<in> set durations. d < 2 ^ 32"
  shows "\<exists>runs. read_table file (read_pair file) 8 (header_at pos (encode_stts durations)) = Inr runs \<and> expand_durations runs = durations"
proof -
  let ?runs = "run_lengths [] durations" and ?enc = "\<lambda>(c, d). to_be 4 c @ to_be 4 d"
  let ?head = "to_be 4 (8 + 4 + 4 + length ?runs * 8) @ ''stts''"
  have runs: "expand_durations ?runs = durations" "runs_ok ?runs 0" "length ?runs \<le> length durations"
    using run_lengths_expand [of "[]" durations] assms(3,4) by (auto simp: runs_ok_def expand_durations_def MAX_MP4_TABLE_ENTRIES_def)
  have bytes: "encode_stts durations = ?head @ to_be 4 0 @ to_be 4 (length ?runs) @ concat (map ?enc ?runs)"
    by (simp add: encode_stts_def Let_def)
  have row: "read_pair file p = Inr (r, p + length (?enc r))" if "r \<in> set ?runs" "holds_at file p (?enc r)" for r p
    using that runs(2) read_pair_holds [of "file" p "fst r" "snd r"] by (auto simp: runs_ok_def split: prod.splits)
  have "read_table file (read_pair file) 8 (header_at pos (encode_stts durations)) = Inr ?runs"
    unfolding bytes by (rule read_table_holds [OF assms(1) [unfolded bytes] _ _ _ row])
      (use assms(2,3) runs(3) in auto)
  then show ?thesis using runs(1) by blast
qed

lemma stsc_parses:
  assumes "holds_at file pos encode_stsc_one_per_chunk" and "length file \<le> I64_MAX"
  shows "read_table file (read_chunk_map_entry file) 12 (header_at pos encode_stsc_one_per_chunk)
    = Inr [\<lparr>cm_first_chunk = 1, cm_samples_per_chunk = 1, cm_sample_description_index = 1\<rparr>]"
proof -
  let ?row = "\<lparr>cm_first_chunk = 1, cm_samples_per_chunk = 1, cm_sample_description_index = 1\<rparr>"
  let ?enc = "\<lambda>e. to_be 4 (cm_first_chunk e) @ to_be 4 (cm_samples_per_chunk e) @ to_be 4 (cm_sample_description_index e)"
  let ?head = "to_be 4 (8 + 4 + 4 + 12) @ ''stsc''"
  have bytes: "encode_stsc_one_per_chunk = ?head @ to_be 4 0 @ to_be 4 (length [?row]) @ concat (map ?enc [?row])"
    by (simp add: encode_stsc_one_per_chunk_def)
  have row: "read_chunk_map_entry file p = Inr (r, p + length (?enc r))" if "r \<in> set [?row]" "holds_at file p (?enc r)" for r p
  proof -
    have h: "holds_at file p (to_be 4 1 @ to_be 4 1)" "holds_at file (p + 8) (to_be 4 1)"
      using that by (simp_all add: holds_at_append add.assoc)
    show ?thesis
      using that(1) read_pair_holds [OF h(1)] holds_at_read(1) [OF h(2)] by (simp add: read_chunk_map_entry_def)
  qed
  show ?thesis
    unfolding bytes by (rule read_table_holds [OF assms(1) [unfolded bytes] _ _ _ row])
      (use assms(2) in \<open>auto simp: MAX_MP4_TABLE_ENTRIES_def\<close>)
qed

lemma offsets_parse:
  assumes "length file \<le> I64_MAX" and "length offsets \<le> MAX_MP4_TABLE_ENTRIES"
  shows "holds_at file pos (encode_co64 offsets) \<Longrightarrow> \<forall>off \<in> set offsets. off < 2 ^ 64
      \<Longrightarrow> read_table file (read_u64 file) 8 (header_at pos (encode_co64 offsets)) = Inr offsets"
    and "holds_at file pos (encode_stco offsets) \<Longrightarrow> \<forall>off \<in> set offsets. off < 2 ^ 32
      \<Longrightarrow> read_table file (read_u32 file) 4 (header_at pos (encode_stco offsets)) = Inr offsets"
proof -
  assume h: "holds_at file pos (encode_co64 offsets)" and small: "\<forall>off \<in> set offsets. off < 2 ^ 64"
  have bytes: "encode_co64 offsets = (to_be 4 (8 + 4 + 4 + length offsets * 8) @ ''co64'') @ to_be 4 0 @ to_be 4 (length offsets)
      @ concat (map (to_be 8) offsets)" by (simp add: encode_co64_def)
  have row: "read_u64 file p = Inr (r, p + length (to_be 8 r))" if "r \<in> set offsets" "holds_at file p (to_be 8 r)" for r p
    using holds_at_read(2) [OF that(2)] small that(1) by simp
  show "read_table file (read_u64 file) 8 (header_at pos (encode_co64 offsets)) = Inr offsets"
    unfolding bytes by (rule read_table_holds [OF h [unfolded bytes] _ _ _ row]) (use assms in auto)
next
  assume h: "holds_at file pos (encode_stco offsets)" and small: "\<forall>off \<in> set offsets. off < 2 ^ 32"
  have bytes: "encode_stco offsets = (to_be 4 (8 + 4 + 4 + length offsets * 4) @ ''stco'') @ to_be 4 0 @ to_be 4 (length offsets)
      @ concat (map (to_be 4) offsets)" by (simp add: encode_stco_def)
  have row: "read_u32 file p = Inr (r, p + length (to_be 4 r))" if "r \<in> set offsets" "holds_at file p (to_be 4 r)" for r p
    using holds_at_read(1) [OF that(2)] small that(1) by simp
  show "read_table file (read_u32 file) 4 (header_at pos (encode_stco offsets)) = Inr offsets"
    unfolding bytes by (rule read_table_holds [OF h [unfolded bytes] _ _ _ row]) (use assms in auto)
qed

lemma stsz_parses:
  assumes "holds_at file pos (encode_stsz sizes)" and "length file \<le> I64_MAX" and "length sizes \<le> MAX_MP4_TABLE_ENTRIES"
    and "\<forall>n \<in> set sizes. n < 2 ^ 32"
  shows "read_stsz file (header_at pos (encode_stsz sizes)) = Inr sizes"
proof -
  obtain hd where head: "length hd = 8"
    "encode_stsz sizes = hd @ to_be 4 0 @ (to_be 4 0 @ to_be 4 (length sizes)) @ concat (map (to_be 4) sizes)"
    using that [of "to_be 4 (8 + 4 + 4 + 4 + length sizes * 4) @ ''stsz''"] by (simp add: encode_stsz_def)
  have parts: "holds_at file (pos + 8) (to_be 4 0)" "holds_at file (pos + 12) (to_be 4 0 @ to_be 4 (length sizes))"
    "holds_at file (pos + 20) (concat (map (to_be 4) sizes))"
    using assms(1) head(1) by (simp_all add: head(2) holds_at_append ac_simps)
  obtain vf where vf: "read_full_box_version_flags file (pos + 8) = Inr (vf, pos + 12)"
    using holds_at_flags [OF parts(1)] by (auto simp: ac_simps)
  have count: "read_pair file (pos + 12) = Inr ((0, length sizes), pos + 20)"
    using read_pair_holds [OF parts(2)] assms(3) by (simp add: MAX_MP4_TABLE_ENTRIES_def)
  have "length (concat (map (to_be 4) sizes)) = length sizes * 4" by (induction sizes) simp_all
  then have fits: "ensure_table_entries (length sizes) 4 (content_len (header_at pos (encode_stsz sizes)) - 12) = Inr (length sizes)"
    using assms(3) by (simp add: ensure_table_entries_def content_len_def header_at_def encode_stsz_def)
  have start: "content_start (header_at pos (encode_stsz sizes)) = pos + 8" "seek (pos + 8) = Inr (pos + 8)"
    using assms(2) parts(1) by (simp_all add: content_start_def header_at_def holds_at_def I64_MAX_def)
  have "read_rows (read_u32 file) (length sizes) (pos + 20) = Inr sizes"
    by (rule read_rows_holds [OF _ parts(3)]) (use assms(4) holds_at_read(1) in auto)
  then show ?thesis by (simp add: read_stsz_def start vf count fits del: seek_Inr)
qed


definition demo_stsz_file :: bytes where
  "demo_stsz_file = ''ftyp'' @ encode_stsz [3, 4]"


section \<open>The written file\<close>

definition one_per_chunk :: "ChunkMapEntry list" where
  "one_per_chunk = [\<lparr>cm_first_chunk = 1, cm_samples_per_chunk = 1, cm_sample_description_index = 1\<rparr>]"

lemma samples_in_chunk_one: "samples_in_chunk one_per_chunk c = 1"
  by (simp add: samples_in_chunk_def one_per_chunk_def)

text \<open>With one sample per chunk the sample table lists the given offsets, sizes and durations.\<close>

lemma build_one_per_chunk:
  assumes "expand_durations stts = durations" and "length durations = length sizes" and "length offsets = length sizes" and "sizes \<noteq> []"
    and "\<forall>off \<in> set offsets. off < 2 ^ 64"
  obtains samples where "build_samples stts one_per_chunk sizes offsets = Inr samples" and "length samples = length sizes"
    and "\<And>i. i < length sizes \<Longrightarrow> si_offset (samples ! i) = offsets ! i \<and> si_size (samples ! i) = sizes ! i \<and> si_duration (samples ! i) = durations ! i"
proof -
  have spc: "map (samples_in_chunk one_per_chunk) [0..<length offsets] = replicate (length offsets) 1"
    by (rule nth_equalityI) (simp_all add: samples_in_chunk_one)
  have ne: "one_per_chunk \<noteq> []" "offsets \<noteq> []" using assms(3,4) by (auto simp: one_per_chunk_def)
  have fit: "fit_durations (expand_durations stts) (length sizes) = Inr durations" using assms(1,2) by (simp add: fit_durations_def)
  obtain samples where samples: "build_samples stts one_per_chunk sizes offsets = Inr samples"
    unfolding build_samples_def fit spc Let_def using that ne assms(3) by (simp add: sum_list_replicate)
  obtain ds where b: "fit_durations (expand_durations stts) (length sizes) = Inr ds"
    "placed 0 (zip offsets (map (samples_in_chunk one_per_chunk) [0..<length offsets])) 0 (zip sizes ds) samples"
    using build_samples_Inr [OF samples assms(5)] by blast
  have ds: "ds = durations" using b(1) by (simp add: fit)
  note facts = placed_facts [OF b(2) [unfolded ds] assms(2)]
  have "si_offset (samples ! i) = offsets ! i" if "i < length sizes" for i
  proof -
    have "sum_list (map snd (take i (zip offsets (replicate (length offsets) (1::nat))))) = i"
      using that assms(3) by (simp add: take_zip sum_list_replicate)
    then show ?thesis
      using placed_chunk [OF b(2) [unfolded spc], of i 0] that assms(3,5) by (simp add: Let_def)
  qed
  moreover have "si_size (samples ! i) = sizes ! i" "si_duration (samples ! i) = durations ! i" if "i < length sizes" for i
    using facts(1-3) that by (metis nth_map)+
  ultimately show ?thesis using that [OF samples facts(1)] by blast
qed

lemma write_samples_Inr:
  assumes "write_samples fill k sizes = Inr payload" and "\<And>i buf. fill i = Inr buf \<Longrightarrow> length buf < 2 ^ 32"
  shows "length payload = sum_list sizes
    \<and> (\<forall>i < length sizes. fill (k + i) = Inr (slice payload (sum_list (take i sizes)) (sum_list (take i sizes) + sizes ! i)))"
  using assms(1)
proof (induction sizes arbitrary: k payload)
  case (Cons n sizes)
  obtain buf out where w: "fill k = Inr buf" "length buf = n" "write_samples fill (Suc k) sizes = Inr out" "payload = buf @ out"
    using Cons.prems assms(2) by (auto split: sum.splits if_splits)
  note IH = Cons.IH [OF w(3)]
  have "fill (k + i) = Inr (slice payload (sum_list (take i (n # sizes))) (sum_list (take i (n # sizes)) + (n # sizes) ! i))"
    if "i < length (n # sizes)" for i
  proof (cases i)
    case 0
    then show ?thesis using w by (simp add: slice_def)
  next
    case (Suc j)
    have "slice payload (n + a) (n + b) = slice out a b" for a b using w(2,4) by (simp add: slice_def)
    then show ?thesis using IH that Suc by (simp add: add.assoc)
  qed
  then show ?case using IH w by simp
qed simp

lemma offsets_from_nth:
  assumes "off + sum_list sizes \<le> U64_MAX" and "i < length sizes"
  shows "offsets_from off sizes ! i = off + sum_list (take i sizes)"
  using assms
proof (induction off sizes arbitrary: i rule: offsets_from.induct)
  case (2 off n sizes)
  then show ?case by (cases i) (auto simp: u64_saturating_add_def)
qed simp

lemma length_offsets_from [simp]: "length (offsets_from off sizes) = length sizes"
  by (induction off sizes rule: offsets_from.induct) simp_all

lemma ftyp_mdat_lengths: "length build_m4b_ftyp = 32" "length (mdat_header n) = MDAT_HEADER_LEN"
  by (simp_all add: build_m4b_ftyp_def mdat_header_def MDAT_HEADER_LEN_def)


text \<open>The whole write: when the layout loop ends, its \<open>moov\<close> was rebuilt for the offsets that its own length gives.\<close>

lemma layout_moov_consistent:
  assumes "layout_moov inp n = Some r"
  shows "\<forall>moov. r = Inr moov \<longrightarrow> (\<exists>built. rebuild_moov inp (payload_offsets inp (length moov)) (media_duration_of inp) = Inr built
    \<and> pad_moov_to built (length built + RESERVED_MOOV_SLACK) = Inr moov)"
  using assms
proof (induction inp n r rule: layout_moov.raw_induct [rotated 1, consumes 1, case_names step])
  case (step layout inp n r)
  then show ?case by (auto split: sum.splits if_splits)
qed

lemma write_progressive_m4b_Inr:
  assumes "write_progressive_m4b inp fill = Some (Inr out)"
  obtains moov built payload where "out = m4b_file inp moov payload" and "write_samples fill 0 (pw_sample_sizes inp) = Inr payload"
    and "rebuild_moov inp (payload_offsets inp (length moov)) (media_duration_of inp) = Inr built"
    and "pad_moov_to built (length built + RESERVED_MOOV_SLACK) = Inr moov"
    and "pw_sample_sizes inp \<noteq> []" and "length (pw_durations inp) = length (pw_sample_sizes inp)"
proof -
  obtain moov payload where w: "layout_moov inp 0 = Some (Inr moov)" "write_samples fill 0 (pw_sample_sizes inp) = Inr payload"
    "out = m4b_file inp moov payload" "pw_sample_sizes inp \<noteq> []" "length (pw_durations inp) = length (pw_sample_sizes inp)"
    using assms by (auto simp: write_progressive_m4b_def and_then_Inr split: if_splits)
  then show ?thesis using that layout_moov_consistent [OF w(1)] by auto
qed

definition demo_input :: ProgressiveWriteInput where
  "demo_input = \<lparr>pw_moov_bytes = [], pw_moov_file_start = 0, pw_sample_entry_type_offset = 0, pw_audio_timescale = 1,
     pw_mvhd_timescale = 1, pw_sample_sizes = [2, 3], pw_durations = [7, 7]\<rparr>"

definition demo_fill :: "nat \<Rightarrow> Mp4Error + bytes" where
  "demo_fill i = Inr (if i = 0 then ''ab'' else ''cde'')"


end
