(* ===== verification/Spec2Isabelle.thy ===== *)
theory Spec2Isabelle
  imports Job_Safety Job_Receipts Claim_Tickets Event_Wake_Pass Event_Reconcile Plugin_Id Egress_Props
    Mp4_Offsets Mp4_Swap Mp4_Remux_Props
begin

text \<open>
  A verification library for bookclerk, a self-hosted audiobook library. It covers the parts of the program
  whose correctness rests on concurrent access to shared tables: the durable job queue, the event outbox,
  and the atomic operations on users, sign-in states and claim tickets; the network policy that
  confines plugins; and the MP4 container code that every audiobook passes through.

  \<^bold>\<open>The program.\<close> The daemon and its workers share one library database. It is either in process, where
  \<^verbatim>\<open>crates/bookclerk-library/src/store/\<close> runs transactions over SeaORM entities, or behind a database
  plugin, where \<^verbatim>\<open>src/sql_plan/named.rs\<close> compiles each operation into one batch of SQL statements that the
  plugin runs under an operation id, and \<^verbatim>\<open>crates/bookclerk-plugin-host/src/host/database.rs\<close> reads the
  reply. Workers take jobs and event deliveries under leases. A lease is a fence: row id, owner and
  generation. Every later write of the worker is a compare-and-set on that fence.

  \<^bold>\<open>Shared vocabulary.\<close>
  \<^item> \<open>Rust_Std\<close>: UTF-8 strings, checked and saturating integers, trimming, and tables as lists of rows with
    update, delete, lookup and ordering.
  \<^item> \<open>Fenced_Lease\<close>: the locale of a leased table, in which the fencing theorem is proved once. It is
    interpreted on the job table in \<open>Job_Steps\<close> and on the delivery table in \<open>Event_Safety\<close>.

  \<^bold>\<open>Durable jobs\<close> (\<^verbatim>\<open>models.rs\<close>, \<^verbatim>\<open>store/job_queue.rs\<close>, \<^verbatim>\<open>sql_plan/named.rs\<close>).
  \<^item> \<open>Job_Model\<close>: kinds, states, payloads, deduplication keys, backoff.
  \<^item> \<open>Job_Queue\<close>: one definition per function of \<^verbatim>\<open>job_queue.rs\<close>. \<open>Job_Plan\<close>: the batches of a database plugin.
  \<^item> \<open>Job_Steps\<close>: the step relation. A step is one statement or transaction of any participant, and an
    operation may act on any earlier version of a row it read. \<open>Job_Safety\<close>: the invariants of all
    reachable states: well-formed rows, bounded attempts, unique active keys, fencing, sticky
    cancellation, final terminal states, lifecycle.
  \<^item> \<open>Job_Ops\<close> and \<open>Job_Admission\<close>: what single operations compute on every branch, and where the plugin
    batches agree with the transactions and where they do not.

  \<^bold>\<open>Atomic operations\<close> (\<^verbatim>\<open>sql_plan/named.rs\<close>).
  \<^item> \<open>Atomic_Receipt\<close> and \<open>Receipt_Laws\<close>: the receipt envelope, under which a retried operation id is answered
    from its receipt and changes nothing. \<open>Job_Receipts\<close> applies it to the job batches.
  \<^item> \<open>Consume_Once\<close>: the take operations of OIDC states and WebAuthn challenges.
  \<^item> \<open>User_Plans\<close>, \<open>User_Safety\<close>, \<open>Claim_Tickets\<close>: user administration and ticket redemption. An installation
    keeps an active owner, deletion leaves no trace, security changes revoke elevated sessions, a ticket
    is redeemed once.

  \<^bold>\<open>Event outbox\<close> (\<^verbatim>\<open>models.rs\<close>, \<^verbatim>\<open>store/event_outbox.rs\<close>, \<^verbatim>\<open>sql_plan/named.rs\<close>).
  \<^item> \<open>Event_Model\<close>: event types, payload filters and their intersection, wake grants, the subscriber catalog.
  \<^item> \<open>Event_Outbox\<close>: publishing, dispatch and counters. \<open>Event_Delivery\<close>: claims on both backends, fenced
    outcomes, reclaiming, operator actions, retention. \<open>Event_Wake\<close>: event-driven wakes page by page.
  \<^item> \<open>Event_Steps\<close>, \<open>Event_Safety\<close>, \<open>Event_Props\<close>: the step relation and its invariants, and the behaviour of
    claims, failures, publishing and dispatch.
  \<^item> \<open>Event_Wake_Pass\<close>: repeated wake ticks end and wake exactly the matching deliveries.
    \<open>Event_Reconcile\<close>: dispatch on the two backends and late-join reconciliation, which is complete in
    process and misses late joiners behind a database plugin.

  \<^bold>\<open>Plugin egress\<close> (\<^verbatim>\<open>crates/bookclerk-plugin-manifest/src/\<close>: \<^verbatim>\<open>address.rs\<close>, \<^verbatim>\<open>egress.rs\<close>, \<^verbatim>\<open>types.rs\<close>, \<^verbatim>\<open>id.rs\<close>;
  \<^verbatim>\<open>crates/bookclerk-workerd/src/socket_proxy.rs\<close>).
  \<^item> \<open>Net_Address\<close>: addresses as words, the parser of addresses, CIDR grants, the public Internet as the
    complement of the special-use ranges. \<open>Net_Text\<close>: printed addresses and grants parse back.
  \<^item> \<open>Egress\<close>: from the capabilities of a manifest to a policy, its decisions, and one CONNECT of the socket
    proxy. \<open>Egress_Props\<close>: each decision in terms of the declared capabilities, two checks that can be
    by-passed, and that consent shows what is enforced.
  \<^item> \<open>Plugin_Id\<close>: the grammar of plugin ids, and that delivery ids built from them are unambiguous.

  \<^bold>\<open>MP4 files\<close> (\<^verbatim>\<open>crates/bookclerk-mp4/src/\<close>).
  \<^item> \<open>Mp4_Bytes\<close>: slices and big-endian integers. \<open>Mp4_Box\<close> (\<^verbatim>\<open>boxutil.rs\<close>): box headers and the walk over
    children, with wrapping \<open>u64\<close> positions.
  \<^item> \<open>Mp4_Moov\<close>, \<open>Mp4_Swap\<close>, \<open>Mp4_Offsets\<close> (\<^verbatim>\<open>patch.rs\<close>): replacing \<open>moov\<close> in place does not move the media, the
    location that is read is the one of the box, and shifting chunk offsets is exact and can be undone.
  \<^item> \<open>Mp4_Samples\<close> (\<^verbatim>\<open>samples.rs\<close>) and \<open>Mp4_Parser\<close> (\<^verbatim>\<open>parser.rs\<close>): the sample table, trimming, when parsing ends,
    and a file on which it does not.
  \<^item> \<open>Mp4_Edit\<close> (\<^verbatim>\<open>edit.rs\<close>): splices keep the tree of boxes. \<open>Mp4_Remux\<close>, \<open>Mp4_Remux_Props\<close> (\<^verbatim>\<open>remux.rs\<close>):
    encoded tables parse back and locate every payload of the written file.

  \<^bold>\<open>Conventions.\<close> Timestamps are integers in nanoseconds; the stored RFC 3339 texts are compared as the
  instants they denote. JSON parsing and printing are parameters (\<open>job_codec\<close>, \<open>event_codec\<close>); where a
  theorem needs a round trip it says so as a hypothesis. The conversion of host names to their ASCII form
  (\<open>idna\<close>) is a parameter. Fresh identifiers, resolver answers, dial outcomes and the readings of the
  session fence are arguments. A transaction is
  one atomic step, so the rows the code keeps only to serialize transactions are not part of the state.

  \<^bold>\<open>Loops and fuel.\<close> The paged claim and the reconciliation loop are total functions with termination
  proofs: each page moves the cursor past at least one row. The cancellation loops run the sixteen rounds
  of the source. A wake pass takes the list of its ticks; \<open>wake_pass_ends_and_is_exact\<close> says how many are
  enough. The walks over the boxes of a file and the loop that lays out \<open>moov\<close> are partial functions, with
  \<open>None\<close> for a run that does not end; for parsing, \<open>parse_mp4_returns\<close> says when that does not happen.

  \<^bold>\<open>Not modelled.\<close> Network, file and object-store I/O, codecs and tagging, search, the plugin processes and
  their wire protocol, sandboxing, HTTP routing and the user interfaces; the books and accounts tables;
  SQL text assembly and statement limits; validation of manifests beyond ids and egress;
  fault injection of the tests.
\<close>

end
